(* ===== verification/Go_Prelude.thy ===== *)
theory Go_Prelude
  imports Main "HOL-Library.AList" "HOL-Library.Sublist" "HOL-Library.Multiset"
begin

text \<open>
  Shared vocabulary of the development: the parts of the Go language and its standard
  library that the driver's sources use, as executable HOL functions, and the generic
  lemmas about them.

  \<^item> Strings are byte strings (\<open>string\<close>).  The case mapping and the white space
    functions of package \<open>strings\<close> are modelled on the ASCII range; a byte outside it is
    neither a letter nor white space.
  \<^item> A Go map is an association list with distinct keys.  The order of the list is
    the order in which one \<open>range\<close> statement visits the entries; Go leaves that
    order open, so a theorem about a loop over a map is a theorem about every list
    with the same entries (\<open>same_map\<close>).
  \<^item> An error is a value of \<open>go_error\<close>; the outcome of a handler is a reply, an
    error or a run-time panic.
\<close>

named_theorems go_map "lookups and key sets of Go maps"
named_theorems go_str "equations of the string functions"

section \<open>Errors and outcomes\<close>

datatype grpc_code =
  Canceled | Unknown | InvalidArgument | NotFound | Aborted | Unimplemented | Internal | Unavailable

datatype go_error = StatusError grpc_code string | PlainError string

datatype 'a outcome = Reply 'a | Failed go_error | Panicked string

fun code_name :: "grpc_code \<Rightarrow> string" where
  "code_name Canceled = ''Canceled''"
| "code_name Unknown = ''Unknown''"
| "code_name InvalidArgument = ''InvalidArgument''"
| "code_name NotFound = ''NotFound''"
| "code_name Aborted = ''Aborted''"
| "code_name Unimplemented = ''Unimplemented''"
| "code_name Internal = ''Internal''"
| "code_name Unavailable = ''Unavailable''"

fun error_text :: "go_error \<Rightarrow> string" where
  "error_text (StatusError c m) = ''rpc error: code = '' @ code_name c @ '' desc = '' @ m"
| "error_text (PlainError m) = m"

lemma status_error_text_nonempty: "error_text (StatusError c m) \<noteq> []"
  by simp

section \<open>Strings\<close>

definition is_upper :: "char \<Rightarrow> bool" where
  "is_upper c \<longleftrightarrow> (65::nat) \<le> of_char c \<and> of_char c \<le> (90::nat)"

definition lower_char :: "char \<Rightarrow> char" where
  "lower_char c = (if is_upper c then char_of ((of_char c :: nat) + 32) else c)"

definition ToLower :: "string \<Rightarrow> string" where
  "ToLower s = List.map lower_char s"

definition is_space :: "char \<Rightarrow> bool" where
  "is_space c \<longleftrightarrow>
     c = CHR '' '' \<or> ((9::nat) \<le> of_char c \<and> of_char c \<le> (13::nat))"

definition TrimSpace :: "string \<Rightarrow> string" where
  "TrimSpace s = rev (dropWhile is_space (rev (dropWhile is_space s)))"

definition HasPrefix :: "string \<Rightarrow> string \<Rightarrow> bool" where
  "HasPrefix s p \<longleftrightarrow> take (length p) s = p"

definition TrimPrefix :: "string \<Rightarrow> string \<Rightarrow> string" where
  "TrimPrefix s p = (if HasPrefix s p then drop (length p) s else s)"

definition EqualFold :: "string \<Rightarrow> string \<Rightarrow> bool" where
  "EqualFold s t \<longleftrightarrow> ToLower s = ToLower t"

fun Index :: "string \<Rightarrow> string \<Rightarrow> nat option" where
  "Index [] sub = (if sub = [] then Some 0 else None)"
| "Index (c # cs) sub =
     (if HasPrefix (c # cs) sub then Some 0 else map_option Suc (Index cs sub))"

definition Contains :: "string \<Rightarrow> string \<Rightarrow> bool" where
  "Contains s sub \<longleftrightarrow> Index s sub \<noteq> None"

text \<open>\<open>strings.SplitN(s, sep, 2)\<close> for a separator that is not empty.\<close>

definition SplitN2 :: "string \<Rightarrow> string \<Rightarrow> string list" where
  "SplitN2 s sep =
     (case Index s sep of
        None \<Rightarrow> [s]
      | Some i \<Rightarrow> [take i s, drop (i + length sep) s])"

text \<open>\<open>strings.Split(s, sep)\<close> for a separator of one byte.\<close>

fun Split :: "string \<Rightarrow> char \<Rightarrow> string list" where
  "Split [] d = [[]]"
| "Split (c # cs) d =
     (if c = d then [] # Split cs d
      else case Split cs d of
             [] \<Rightarrow> [[c]]
           | p # ps \<Rightarrow> (c # p) # ps)"

text \<open>
  \<open>strings.ReplaceAll(s, old, new)\<close> for an \<open>old\<close> that is not empty: occurrences are
  found from the left and do not overlap.
\<close>

function ReplaceAll :: "string \<Rightarrow> string \<Rightarrow> string \<Rightarrow> string" where
  "ReplaceAll [] old new = []"
| "ReplaceAll (c # cs) old new =
     (if old \<noteq> [] \<and> HasPrefix (c # cs) old
      then new @ ReplaceAll (drop (length old) (c # cs)) old new
      else c # ReplaceAll cs old new)"
  by pat_completeness auto
termination
  by (relation "measure (\<lambda>(s, old, new). length s)") (auto simp: neq_Nil_conv)

fun Join :: "string list \<Rightarrow> string \<Rightarrow> string" where
  "Join [] sep = []"
| "Join [x] sep = x"
| "Join (x # xs) sep = x @ sep @ Join xs sep"

subsection \<open>Case mapping\<close>

lemma of_lower_char:
  "(of_char (lower_char c) :: nat) = (if is_upper c then of_char c + 32 else of_char c)"
  by (auto simp: lower_char_def is_upper_def)

lemma not_upper_lower_char [simp]: "\<not> is_upper (lower_char c)"
  by (auto simp: is_upper_def of_lower_char)

lemma lower_char_id: "\<not> is_upper c \<Longrightarrow> lower_char c = c"
  by (simp add: lower_char_def)

lemma lower_char_idem [simp]: "lower_char (lower_char c) = lower_char c"
  by (simp add: lower_char_id)

lemma lower_char_eq_hyphen [simp]: "lower_char c = CHR ''-'' \<longleftrightarrow> c = CHR ''-''"
proof
  assume "lower_char c = CHR ''-''"
  then have "(of_char (lower_char c) :: nat) = 45" by simp
  then have "(of_char c :: nat) = 45"
    by (simp add: of_lower_char is_upper_def split: if_splits)
  then have "of_char c = (of_char (CHR ''-'') :: nat)" by simp
  then show "c = CHR ''-''" by (simp only: of_char_eq_iff)
qed (simp add: lower_char_def is_upper_def)

lemma ToLower_idem [simp]: "ToLower (ToLower s) = ToLower s"
  by (simp add: ToLower_def)

lemma ToLower_Nil [simp]: "ToLower [] = []"
  by (simp add: ToLower_def)

lemma ToLower_Cons [simp]: "ToLower (c # s) = lower_char c # ToLower s"
  by (simp add: ToLower_def)

lemma ToLower_append [simp]: "ToLower (s @ t) = ToLower s @ ToLower t"
  by (simp add: ToLower_def)

lemma ToLower_eq_Nil [simp]: "ToLower s = [] \<longleftrightarrow> s = []"
  by (simp add: ToLower_def)

lemma length_ToLower [simp]: "length (ToLower s) = length s"
  by (simp add: ToLower_def)

lemma ToLower_id: "\<forall>c \<in> set s. \<not> is_upper c \<Longrightarrow> ToLower s = s"
  by (induction s) (auto simp: lower_char_id)

lemma not_upper_ToLower: "c \<in> set (ToLower s) \<Longrightarrow> \<not> is_upper c"
  by (auto simp: ToLower_def)

subsection \<open>Prefixes and search\<close>

lemma HasPrefix_append [simp]: "HasPrefix (p @ s) p"
  by (simp add: HasPrefix_def)

lemma HasPrefix_Nil [simp]: "HasPrefix s []"
  by (simp add: HasPrefix_def)

lemma HasPrefix_Nil_left [simp]: "HasPrefix [] p \<longleftrightarrow> p = []"
  by (auto simp: HasPrefix_def)

lemma HasPrefix_Cons [simp]: "HasPrefix (c # s) (d # p) \<longleftrightarrow> c = d \<and> HasPrefix s p"
  by (simp add: HasPrefix_def)

lemma HasPrefix_iff: "HasPrefix s p \<longleftrightarrow> (\<exists>t. s = p @ t)"
  by (metis HasPrefix_append HasPrefix_def append_take_drop_id)

lemma TrimPrefix_append [simp]: "TrimPrefix (p @ s) p = s"
  by (simp add: TrimPrefix_def)

lemma Index_None_char:
  "c \<notin> set s \<Longrightarrow> Index s (c # p) = None"
  by (induction s) auto

lemma Index_first_char:
  assumes "c \<notin> set s" and "HasPrefix t (c # p)"
  shows "Index (s @ t) (c # p) = Some (length s)"
  using assms by (induction s) (cases t; auto)+

lemma Contains_char_iff: "Contains s [c] \<longleftrightarrow> c \<in> set s"
  by (induction s) (auto simp: Contains_def)

lemma SplitN2_cut:
  assumes "c \<notin> set s" and "t = c # p @ u"
  shows "SplitN2 (s @ t) (c # p) = [s, u]"
  using Index_first_char [of c s t p] assms by (simp add: SplitN2_def)

lemma SplitN2_length:
  "Contains s sep \<Longrightarrow> length (SplitN2 s sep) = 2"
  by (auto simp: SplitN2_def Contains_def)

subsection \<open>Splitting at a byte\<close>

lemma Split_nonempty [simp]: "Split s d \<noteq> []"
  by (induction s) (auto split: list.splits)

lemma Split_no_sep: "d \<notin> set s \<Longrightarrow> Split s d = [s]"
  by (induction s) auto

lemma Split_append: "d \<notin> set s \<Longrightarrow> Split (s @ d # t) d = s # Split t d"
  by (induction s) auto

subsection \<open>Replacing\<close>

lemma ReplaceAll_char:
  "ReplaceAll s [c] [d] = List.map (\<lambda>x. if x = c then d else x) s"
  by (induction s) auto

lemma ReplaceAll_skip:
  assumes "k \<notin> set s"
  shows "ReplaceAll (s @ t) (k # old) new = s @ ReplaceAll t (k # old) new"
  using assms by (induction s) auto

lemma ReplaceAll_hit:
  assumes "old \<noteq> []"
  shows "ReplaceAll (old @ t) old new = new @ ReplaceAll t old new"
  using assms by (cases old) (simp_all add: HasPrefix_iff)

text \<open>The decimal text of a number, as \<open>fmt.Sprint\<close> and the verb \<open>%d\<close> give it.\<close>

fun show_nat :: "nat \<Rightarrow> string" where
  "show_nat n =
     (if n < 10 then [char_of (48 + n)] else show_nat (n div 10) @ [char_of (48 + n mod 10)])"

declare show_nat.simps [simp del]

text \<open>The verb \<open>%q\<close> of package \<open>fmt\<close>, for printable text.\<close>

definition go_quote :: "string \<Rightarrow> string" where
  "go_quote s = [CHR 0x22] @ concat (List.map (\<lambda>c.
     if c = CHR 0x22 then [CHR 0x5C, CHR 0x22] else if c = CHR 0x5C then [CHR 0x5C, CHR 0x5C] else [c]) s)
     @ [CHR 0x22]"

subsection \<open>Trimming\<close>

lemma TrimSpace_Nil [simp]: "TrimSpace [] = []"
  by (simp add: TrimSpace_def)

text \<open>A string that neither starts nor ends with white space is left alone.\<close>

definition trimmed :: "string \<Rightarrow> bool" where
  "trimmed s \<longleftrightarrow> s = [] \<or> \<not> is_space (hd s) \<and> \<not> is_space (last s)"

lemma TrimSpace_trimmed: "trimmed s \<Longrightarrow> TrimSpace s = s"
proof (cases s rule: rev_cases)
  case (snoc ys y)
  moreover assume "trimmed s"
  ultimately have "\<not> is_space y" and "dropWhile is_space s = s"
    by (cases ys; simp add: trimmed_def)+
  with snoc show ?thesis by (simp add: TrimSpace_def)
qed simp

lemma TrimSpace_pad_left: "is_space c \<Longrightarrow> TrimSpace (c # s) = TrimSpace s"
  by (simp add: TrimSpace_def)

lemma TrimSpace_pad_right: "is_space c \<Longrightarrow> TrimSpace (s @ [c]) = TrimSpace s"
proof (cases "\<forall>x \<in> set s. is_space x")
  case True
  moreover assume "is_space c"
  ultimately have "dropWhile is_space s = []" and "dropWhile is_space (s @ [c]) = []"
    by (auto simp: dropWhile_eq_Nil_conv)
  then show ?thesis by (simp only: TrimSpace_def)
next
  case False
  moreover assume "is_space c"
  ultimately show ?thesis by (auto simp: TrimSpace_def dropWhile_append)
qed

lemma is_space_blank [simp]: "is_space CHR '' ''"
  by (simp add: is_space_def)

lemma is_space_newline [simp]: "is_space (CHR 0x0A)"
  by (simp add: is_space_def)

section \<open>Go maps\<close>

type_synonym ('k, 'v) gomap = "('k \<times> 'v) list"
type_synonym params = "(string, string) gomap"

abbreviation get :: "('k, 'v) gomap \<Rightarrow> 'k \<Rightarrow> 'v option" where
  "get \<equiv> map_of"

abbreviation put :: "'k \<Rightarrow> 'v \<Rightarrow> ('k, 'v) gomap \<Rightarrow> ('k, 'v) gomap" where
  "put \<equiv> AList.update"

abbreviation delete_key :: "'k \<Rightarrow> ('k, 'v) gomap \<Rightarrow> ('k, 'v) gomap" where
  "delete_key \<equiv> AList.delete"

abbreviation keys :: "('k, 'v) gomap \<Rightarrow> 'k list" where
  "keys m \<equiv> List.map fst m"

text \<open>The expression \<open>m[k]\<close> of a \<open>map[string]string\<close>: the empty string for an absent key.\<close>

definition get_str :: "(string, string) gomap \<Rightarrow> string \<Rightarrow> string" where
  "get_str m k = (case get m k of None \<Rightarrow> [] | Some v \<Rightarrow> v)"

definition wf_map :: "('k, 'v) gomap \<Rightarrow> bool" where
  "wf_map m \<longleftrightarrow> distinct (keys m)"

text \<open>Two visiting orders of one map.\<close>

definition same_map :: "('k, 'v) gomap \<Rightarrow> ('k, 'v) gomap \<Rightarrow> bool" where
  "same_map m m' \<longleftrightarrow> mset m = mset m'"

text \<open>A choice of visiting orders: what the runtime does at a \<open>range\<close> statement.\<close>

definition range_order :: "(('k, 'v) gomap \<Rightarrow> ('k, 'v) gomap) \<Rightarrow> bool" where
  "range_order rng \<longleftrightarrow> (\<forall>m. mset (rng m) = mset m)"

lemma get_put [go_map]: "get (put k v m) = (get m)(k \<mapsto> v)"
  by (rule update_conv')

lemma get_delete [go_map]: "get (delete_key k m) = (get m)(k := None)"
  by (rule delete_conv')

lemma keys_put [go_map]: "fst ` set (put k v m) = insert k (fst ` set m)"
  by (simp add: dom_update)

lemma keys_delete [go_map]: "fst ` set (delete_key k m) = fst ` set m - {k}"
  by (metis delete_keys list.set_map set_removeAll)

lemma wf_Nil [simp]: "wf_map []"
  by (simp add: wf_map_def)

lemma wf_put [simp]: "wf_map m \<Longrightarrow> wf_map (put k v m)"
  by (simp add: wf_map_def distinct_update)

lemma wf_delete [simp]: "wf_map m \<Longrightarrow> wf_map (delete_key k m)"
  by (simp add: wf_map_def distinct_delete)

lemma same_map_get:
  assumes "same_map m m'" and "wf_map m"
  shows "get m = get m'"
proof -
  have "mset m = mset m'" using assms(1) by (simp only: same_map_def)
  then have sets: "set m = set m'" and ks: "mset (keys m) = mset (keys m')"
    by (rule mset_eq_setD, simp only: mset_map)
  have "distinct (keys m)" using assms(2) by (simp only: wf_map_def)
  moreover from this have "distinct (keys m')"
    using mset_eq_imp_distinct_iff [OF ks] by (simp only:)
  ultimately show ?thesis using sets by (simp only: map_of_inject_set)
qed

lemma same_map_wf: "same_map m m' \<Longrightarrow> wf_map m = wf_map m'"
  unfolding same_map_def wf_map_def
  by (metis mset_eq_imp_distinct_iff mset_map)

lemma range_order_id: "range_order (\<lambda>m. m)"
  by (simp add: range_order_def)

lemma range_order_rev: "range_order rev"
  by (simp add: range_order_def)

lemma range_order_get: "range_order rng \<Longrightarrow> wf_map m \<Longrightarrow> get (rng m) = get m"
  using same_map_get [of "rng m" m] same_map_wf [of "rng m" m]
  by (simp add: range_order_def same_map_def)

lemma range_order_wf: "range_order rng \<Longrightarrow> wf_map (rng m) = wf_map m"
  by (rule same_map_wf) (simp add: range_order_def same_map_def)

lemma range_order_set: "range_order rng \<Longrightarrow> set (rng m) = set m"
  unfolding range_order_def by (metis set_mset_mset)

subsection \<open>Copying a map entry by entry\<close>

text \<open>The loop \<open>for k, v := range es { m[k] = v }\<close>.\<close>

fun put_all :: "('k, 'v) gomap \<Rightarrow> ('k, 'v) gomap \<Rightarrow> ('k, 'v) gomap" where
  "put_all m [] = m"
| "put_all m ((k, v) # es) = put_all (put k v m) es"

lemma wf_put_all [simp]: "wf_map m \<Longrightarrow> wf_map (put_all m es)"
  by (induction m es rule: put_all.induct) auto

lemma keys_put_all [go_map]: "fst ` set (put_all m es) = fst ` set m \<union> fst ` set es"
  by (induction m es rule: put_all.induct) (auto simp: go_map)

lemma get_put_all [go_map]:
  "wf_map es \<Longrightarrow> get (put_all m es) = get m ++ get es"
proof (induction m es rule: put_all.induct)
  case (2 m k v es)
  then have "get es k = None" and "wf_map es"
    by (auto simp: wf_map_def map_of_eq_None_iff)
  then have "get (put_all m ((k, v) # es)) = (get m)(k := Some v) ++ get es"
    using "2.IH" by (simp only: put_all.simps get_put)
  also have "\<dots> = get m ++ get ((k, v) # es)"
    using \<open>get es k = None\<close> by (intro ext) (simp add: map_add_def split: option.split)
  finally show ?case .
qed simp


section \<open>Tables\<close>

text \<open>The interface of a table with one value per key, and what follows from its laws.\<close>

locale key_table =
  fixes lookup :: "'s \<Rightarrow> 'k \<Rightarrow> 'v option"
    and store :: "'s \<Rightarrow> 'k \<Rightarrow> 'v \<Rightarrow> 's"
    and drop_key :: "'s \<Rightarrow> 'k \<Rightarrow> 's"
  assumes lookup_store: "lookup (store s k v) j = (if j = k then Some v else lookup s j)"
    and lookup_drop: "lookup (drop_key s k) j = (if j = k then None else lookup s j)"
begin

lemma store_then_drop: "lookup s k = None \<Longrightarrow> lookup (drop_key (store s k v) k) = lookup s"
  by (intro ext) (simp add: lookup_store lookup_drop)

lemma last_store_wins: "lookup (store (store s k v) k w) = lookup (store s k w)"
  by (intro ext) (simp add: lookup_store)

lemma stores_commute: "j \<noteq> k \<Longrightarrow> lookup (store (store s j v) k w) = lookup (store (store s k w) j v)"
  by (intro ext) (simp add: lookup_store)

lemma drop_keeps_injective:
  assumes "\<And>j k v w. lookup s j = Some v \<Longrightarrow> lookup s k = Some w \<Longrightarrow> f v = f w \<Longrightarrow> j = k"
    and "lookup (drop_key s i) j = Some v" and "lookup (drop_key s i) k = Some w" and "f v = f w"
  shows "j = k"
  using assms by (auto simp: lookup_drop split: if_splits)

lemma store_keeps_injective:
  assumes "\<And>j k v w. lookup s j = Some v \<Longrightarrow> lookup s k = Some w \<Longrightarrow> f v = f w \<Longrightarrow> j = k"
    and "\<And>j v. lookup s j = Some v \<Longrightarrow> f v \<noteq> f x"
    and "lookup (store s i x) j = Some v" and "lookup (store s i x) k = Some w" and "f v = f w"
  shows "j = k"
  using assms by (auto simp: lookup_store split: if_splits) metis

end

end
