(* ===== verification/Volume_Locks.thy ===== *)
theory Volume_Locks
  imports Go_Prelude
begin

text \<open>
  The table of volumes with an operation in progress, \<open>VolumeLocks\<close> of
  \<open>pkg/rclone/utils.go\<close>, and the protocol by which the node service uses it: a publish or
  unpublish call tries to enter the key of its volume and target, answers \<open>Aborted\<close> when
  the key is there, and removes it when it returns (\<open>defer Release\<close>).  Each method of the
  table runs under its mutex, so one method call is one step (shown in \<open>Volume_Locks_Mutex\<close>); the
  calls of concurrent requests interleave freely.
\<close>

section \<open>The lock table\<close>

record volume_locks =
  locks :: "string set"

definition NewVolumeLocks :: volume_locks where
  "NewVolumeLocks = \<lparr>locks = {}\<rparr>"

definition TryAcquire :: "volume_locks \<Rightarrow> string \<Rightarrow> bool \<times> volume_locks" where
  "TryAcquire vl volumeID =
     (if volumeID \<in> locks vl then (False, vl)
      else (True, vl\<lparr>locks := insert volumeID (locks vl)\<rparr>))"

definition Release :: "volume_locks \<Rightarrow> string \<Rightarrow> volume_locks" where
  "Release vl volumeID = vl\<lparr>locks := locks vl - {volumeID}\<rparr>"

definition lock_key :: "string \<Rightarrow> string \<Rightarrow> string" where
  "lock_key volumeID targetPath = volumeID @ ''-'' @ targetPath"

definition held :: "volume_locks \<Rightarrow> string \<Rightarrow> bool" where
  "held vl k \<longleftrightarrow> k \<in> locks vl"

text \<open>
  What a request relies on: acquiring succeeds exactly when the key is free and then
  holds it, and neither operation touches another key.
\<close>

locale lock_table =
  fixes fresh :: "'l"
    and try_acquire :: "'l \<Rightarrow> 'k \<Rightarrow> bool \<times> 'l"
    and release :: "'l \<Rightarrow> 'k \<Rightarrow> 'l"
    and holds :: "'l \<Rightarrow> 'k \<Rightarrow> bool"
  assumes holds_fresh: "\<not> holds fresh k"
    and acquire_result: "fst (try_acquire l k) = (\<not> holds l k)"
    and acquire_holds: "holds (snd (try_acquire l k)) j \<longleftrightarrow> holds l j \<or> j = k"
    and acquire_busy: "holds l k \<Longrightarrow> snd (try_acquire l k) = l"
    and release_holds: "holds (release l k) j \<longleftrightarrow> holds l j \<and> j \<noteq> k"
begin

lemma acquire_once:
  "fst (try_acquire (snd (try_acquire l k)) k) = False"
  by (simp add: acquire_result acquire_holds)

text \<open>A bracket \<open>acquire; body; release\<close> whose body keeps the table gives it back as it was.\<close>

lemma bracket_holds:
  assumes "fst (try_acquire l k)"
  shows "holds (release (snd (try_acquire l k)) k) j \<longleftrightarrow> holds l j"
  using assms by (auto simp: release_holds acquire_holds acquire_result)

lemma acquire_after_release: "fst (try_acquire (release l k) k)"
  by (simp add: acquire_result release_holds)

lemma acquire_other:
  "j \<noteq> k \<Longrightarrow> fst (try_acquire (snd (try_acquire l j)) k) = fst (try_acquire l k)"
  by (auto simp: acquire_result acquire_holds)

end

interpretation vl: lock_table NewVolumeLocks TryAcquire Release held
  by unfold_locales
    (auto simp: NewVolumeLocks_def TryAcquire_def Release_def held_def)

lemma locks_eqI: "(\<And>k. held l k = held l' k) \<Longrightarrow> l = l'" for l l' :: volume_locks
  by (cases l; cases l') (auto simp: held_def)

lemma bracket_restores:
  "fst (TryAcquire l k) \<Longrightarrow> Release (snd (TryAcquire l k)) k = l"
  by (rule locks_eqI) (rule vl.bracket_holds)

section \<open>Concurrent requests\<close>

text \<open>
  A goroutine serving a request: before the lock, inside the locked part of the handler
  with its key, or finished with or without having entered.
\<close>

datatype request_pc =
    Idle
  | Arrived string
  | InBody string

record request_system =
  pcs :: "nat \<Rightarrow> request_pc"
  table :: volume_locks

definition start_system :: request_system where
  "start_system = \<lparr>pcs = (\<lambda>_. Idle), table = NewVolumeLocks\<rparr>"

inductive request_step :: "request_system \<Rightarrow> request_system \<Rightarrow> bool" where
  arrive: "pcs s i = Idle \<Longrightarrow>
     request_step s (s\<lparr>pcs := (pcs s)(i := Arrived k)\<rparr>)"
| enter: "pcs s i = Arrived k \<Longrightarrow> TryAcquire (table s) k = (True, t) \<Longrightarrow>
     request_step s (s\<lparr>pcs := (pcs s)(i := InBody k), table := t\<rparr>)"
| refuse: "pcs s i = Arrived k \<Longrightarrow> TryAcquire (table s) k = (False, t) \<Longrightarrow>
     request_step s (s\<lparr>pcs := (pcs s)(i := Idle), table := t\<rparr>)"
| leave: "pcs s i = InBody k \<Longrightarrow>
     request_step s (s\<lparr>pcs := (pcs s)(i := Idle), table := Release (table s) k\<rparr>)"

inductive reachable_system :: "request_system \<Rightarrow> bool" where
  start: "reachable_system start_system"
| step: "reachable_system s \<Longrightarrow> request_step s t \<Longrightarrow> reachable_system t"

inductive_cases request_stepE: "request_step s t"

text \<open>The table holds the keys of the requests inside their bodies, one request each.\<close>

definition table_inv :: "request_system \<Rightarrow> bool" where
  "table_inv s \<longleftrightarrow>
     (\<forall>k. held (table s) k \<longleftrightarrow> (\<exists>i. pcs s i = InBody k)) \<and>
     (\<forall>i j k. pcs s i = InBody k \<longrightarrow> pcs s j = InBody k \<longrightarrow> i = j)"

lemma try_True: "TryAcquire l k = (True, t) \<Longrightarrow> \<not> held l k \<and> (\<forall>j. held t j \<longleftrightarrow> held l j \<or> j = k)"
  using vl.acquire_result [of l k] vl.acquire_holds [of l k] by auto

lemma try_False: "TryAcquire l k = (False, t) \<Longrightarrow> held l k \<and> t = l"
  using vl.acquire_result [of l k] vl.acquire_busy [of l k] by auto

lemma entered_was_free:
  "request_step s t \<Longrightarrow> pcs s i \<noteq> InBody k \<Longrightarrow> pcs t i = InBody k \<Longrightarrow> \<not> held (table s) k"
  by (auto elim!: request_stepE dest: try_True split: if_splits)

lemma table_inv_start: "table_inv start_system"
  by (simp add: table_inv_def start_system_def vl.holds_fresh)

lemma table_inv_step: "request_step s t \<Longrightarrow> table_inv s \<Longrightarrow> table_inv t"
proof (induction rule: request_step.induct)
  case (arrive s i k)
  then show ?case by (force simp: table_inv_def)
next
  case (enter s i k t)
  from try_True [OF enter.hyps(2)] enter show ?case
    by (simp add: table_inv_def) (metis request_pc.inject(2) request_pc.distinct(5))
next
  case (refuse s i k t)
  from try_False [OF refuse.hyps(2)] refuse show ?case
    by (simp add: table_inv_def) (metis request_pc.distinct(5))
next
  case (leave s i k)
  then show ?case
    by (simp add: table_inv_def vl.release_holds) (metis request_pc.inject(2))
qed

lemma reachable_table_inv: "reachable_system s \<Longrightarrow> table_inv s"
  by (induction rule: reachable_system.induct) (auto intro: table_inv_start table_inv_step)

text \<open>
  C4: Two publish or unpublish requests for the same volume and target are never inside
  their handlers at the same time, whatever the interleaving of the calls.
\<close>

theorem request_mutual_exclusion:
  assumes "reachable_system s"
    and "pcs s i = InBody (lock_key v t)" and "j \<noteq> i"
  shows "pcs s j \<noteq> InBody (lock_key v t)"
  using reachable_table_inv [OF assms(1)] assms(2,3) by (auto simp: table_inv_def)

lemma reachable_one_in_body:
  "reachable_system \<lparr>pcs = (\<lambda>_. Idle)(0 := InBody k), table = \<lparr>locks = {k}\<rparr>\<rparr>"
proof -
  let ?s = "start_system\<lparr>pcs := (pcs start_system)(0 := Arrived k)\<rparr>"
  have "reachable_system ?s"
    by (rule reachable_system.step [OF reachable_system.start])
      (rule request_step.arrive, simp add: start_system_def)
  moreover have "request_step ?s (?s\<lparr>pcs := (pcs ?s)(0 := InBody k), table := \<lparr>locks = {k}\<rparr>\<rparr>)"
    by (rule request_step.enter)
      (simp_all add: start_system_def TryAcquire_def NewVolumeLocks_def)
  ultimately have "reachable_system (?s\<lparr>pcs := (pcs ?s)(0 := InBody k), table := \<lparr>locks = {k}\<rparr>\<rparr>)"
    by (rule reachable_system.step)
  then show ?thesis by (simp add: start_system_def)
qed

theorem request_mutual_exclusion_witness:
  "pcs \<lparr>pcs = (\<lambda>_. Idle)(0 := InBody (lock_key ''v'' ''/t'')),
        table = \<lparr>locks = {lock_key ''v'' ''/t''}\<rparr>\<rparr> 1 \<noteq> InBody (lock_key ''v'' ''/t'')"
  using request_mutual_exclusion
    [OF reachable_one_in_body [of "lock_key ''v'' ''/t''"], of 0 "''v''" "''/t''" 1]
  by simp

text \<open>
  A request is refused only while another one with the same key is inside its handler,
  and it leaves the table as it was; a request that finds no such other request enters.
\<close>

theorem refused_iff_busy:
  assumes "reachable_system s" and "pcs s i = Arrived k"
  shows "TryAcquire (table s) k = (False, table s) \<longleftrightarrow> (\<exists>j. j \<noteq> i \<and> pcs s j = InBody k)"
proof -
  have "held (table s) k \<longleftrightarrow> (\<exists>j. pcs s j = InBody k)"
    using reachable_table_inv [OF assms(1)] by (auto simp: table_inv_def)
  moreover have "pcs s j = InBody k \<Longrightarrow> j \<noteq> i" for j
    using assms(2) by auto
  ultimately show ?thesis by (auto simp: TryAcquire_def held_def)
qed

lemma reachable_second_arrived:
  "reachable_system \<lparr>pcs = (\<lambda>_. Idle)(0 := InBody k, 1 := Arrived k), table = \<lparr>locks = {k}\<rparr>\<rparr>"
proof -
  let ?s = "\<lparr>pcs = (\<lambda>_. Idle)(0 := InBody k), table = \<lparr>locks = {k}\<rparr>\<rparr>"
  have "request_step ?s (?s\<lparr>pcs := (pcs ?s)(1 := Arrived k)\<rparr>)"
    by (rule request_step.arrive) simp
  from reachable_system.step [OF reachable_one_in_body this] show ?thesis by simp
qed

theorem refused_iff_busy_witness:
  "TryAcquire \<lparr>locks = {''k''}\<rparr> ''k'' = (False, \<lparr>locks = {''k''}\<rparr>)"
  using refused_iff_busy [OF reachable_second_arrived [of "''k''"], of 1 "''k''"]
  by (auto simp: exI [of _ 0])

text \<open>
  No lock outlives its request: once no request is inside a handler, the table is as
  empty as a new one, whatever happened before.
\<close>

theorem locks_released:
  assumes "reachable_system s" and "\<forall>i k. pcs s i \<noteq> InBody k"
  shows "table s = NewVolumeLocks"
proof (rule locks_eqI)
  fix k
  show "held (table s) k = held NewVolumeLocks k"
    using reachable_table_inv [OF assms(1)] assms(2)
    by (simp add: table_inv_def vl.holds_fresh)
qed

lemma reachable_after_leave: "reachable_system \<lparr>pcs = (\<lambda>_. Idle), table = \<lparr>locks = {}\<rparr>\<rparr>"
proof -
  let ?s = "\<lparr>pcs = (\<lambda>_. Idle)(0 := InBody ''k''), table = \<lparr>locks = {''k''}\<rparr>\<rparr>"
  have "request_step ?s (?s\<lparr>pcs := (pcs ?s)(0 := Idle), table := Release (table ?s) ''k''\<rparr>)"
    by (rule request_step.leave) simp
  from reachable_system.step [OF reachable_one_in_body this] show ?thesis
    by (simp add: Release_def fun_upd_idem)
qed

theorem locks_released_witness:
  "table \<lparr>pcs = (\<lambda>_. Idle), table = \<lparr>locks = {}\<rparr>\<rparr> = NewVolumeLocks"
  using locks_released [OF reachable_after_leave] by simp

text \<open>
  The key joins volume and target with a hyphen, so two different pairs can share a key.
  The only effect is that one of the two requests can be refused without need.
\<close>

lemma lock_key_same_target: "lock_key v t = lock_key v' t \<longleftrightarrow> v = v'"
  by (simp add: lock_key_def)

lemma lock_key_collision: "lock_key ''a'' ''b-/c'' = lock_key ''a-b'' ''/c''"
  by (simp add: lock_key_def)

end
