(* ===== verification/Driver.thy ===== *)
theory Driver
  imports Volume_Locks
begin

text \<open>
  The driver object and the identity service: \<open>pkg/rclone/rclone.go\<close>,
  \<open>pkg/rclone/identityserver.go\<close>, \<open>pkg/rclone/version.go\<close> and the capability constructors
  of \<open>pkg/rclone/utils.go\<close>.  The variables that the linker sets at build time are the record
  \<open>build_info\<close>; logging and the start of the servers are not part of this theory.
\<close>

section \<open>Capabilities\<close>

datatype controller_rpc =
    Controller_UNKNOWN | CREATE_DELETE_VOLUME | PUBLISH_UNPUBLISH_VOLUME | LIST_VOLUMES
  | GET_CAPACITY | CREATE_DELETE_SNAPSHOT | LIST_SNAPSHOTS | CLONE_VOLUME | PUBLISH_READONLY
  | Controller_EXPAND_VOLUME | LIST_VOLUMES_PUBLISHED_NODES | Controller_VOLUME_CONDITION
  | GET_VOLUME | Controller_SINGLE_NODE_MULTI_WRITER | MODIFY_VOLUME | GET_SNAPSHOT

datatype node_rpc =
    Node_UNKNOWN | STAGE_UNSTAGE_VOLUME | GET_VOLUME_STATS | Node_EXPAND_VOLUME
  | VOLUME_CONDITION | SINGLE_NODE_MULTI_WRITER | VOLUME_MOUNT_GROUP

datatype controller_capability = ControllerServiceCapability controller_rpc
datatype node_capability = NodeServiceCapability node_rpc

datatype plugin_capability = Service_CONTROLLER_SERVICE | VolumeExpansion_ONLINE

definition NewControllerServiceCapability :: "controller_rpc \<Rightarrow> controller_capability" where
  "NewControllerServiceCapability c = ControllerServiceCapability c"

definition NewNodeServiceCapability :: "node_rpc \<Rightarrow> node_capability" where
  "NewNodeServiceCapability c = NodeServiceCapability c"

section \<open>The driver\<close>

record driver_options =
  opt_NodeID :: string
  opt_DriverName :: string
  opt_Endpoint :: string

record driver =
  d_name :: string
  d_nodeID :: string
  d_version :: string
  d_endpoint :: string
  d_cscap :: "controller_capability list"
  d_nscap :: "node_capability list"
  d_volumeLocks :: volume_locks

record build_info =
  driverVersion :: string
  rcloneVersion :: string
  gitCommit :: string
  buildDate :: string

definition default_build :: build_info where
  "default_build = \<lparr>driverVersion = ''N/A'', rcloneVersion = ''N/A'', gitCommit = ''N/A'', buildDate = ''N/A''\<rparr>"

definition AddControllerServiceCapabilities :: "driver \<Rightarrow> controller_rpc list \<Rightarrow> driver" where
  "AddControllerServiceCapabilities d cl = d\<lparr>d_cscap := List.map NewControllerServiceCapability cl\<rparr>"

definition AddNodeServiceCapabilities :: "driver \<Rightarrow> node_rpc list \<Rightarrow> driver" where
  "AddNodeServiceCapabilities d nl = d\<lparr>d_nscap := List.map NewNodeServiceCapability nl\<rparr>"

definition NewDriver :: "build_info \<Rightarrow> driver_options \<Rightarrow> driver" where
  "NewDriver b options =
     (let d0 = \<lparr>d_name = opt_DriverName options, d_nodeID = opt_NodeID options,
                d_version = driverVersion b, d_endpoint = opt_Endpoint options,
                d_cscap = [], d_nscap = [], d_volumeLocks = NewVolumeLocks\<rparr>;
          d1 = AddControllerServiceCapabilities d0 [CREATE_DELETE_VOLUME];
          d2 = AddNodeServiceCapabilities d1 [Node_UNKNOWN, VOLUME_CONDITION, VOLUME_MOUNT_GROUP]
      in d2\<lparr>d_volumeLocks := NewVolumeLocks\<rparr>)"

record version_info =
  v_DriverName :: string
  v_DriverVersion :: string
  v_RcloneVersion :: string
  v_GitCommit :: string
  v_BuildDate :: string
  v_GoVersion :: string
  v_Compiler :: string
  v_Platform :: string

text \<open>What package \<open>runtime\<close> says of the toolchain and the machine.\<close>

record runtime_info =
  rt_Version :: string
  rt_Compiler :: string
  rt_GOOS :: string
  rt_GOARCH :: string

definition GetVersion :: "build_info \<Rightarrow> runtime_info \<Rightarrow> string \<Rightarrow> version_info" where
  "GetVersion b r driverName =
     \<lparr>v_DriverName = driverName, v_DriverVersion = driverVersion b,
      v_RcloneVersion = rcloneVersion b, v_GitCommit = gitCommit b, v_BuildDate = buildDate b,
      v_GoVersion = rt_Version r, v_Compiler = rt_Compiler r,
      v_Platform = rt_GOOS r @ ''/'' @ rt_GOARCH r\<rparr>"

definition GetVersionString :: "build_info \<Rightarrow> string \<Rightarrow> string" where
  "GetVersionString b driverName =
     driverName @ '' version '' @ driverVersion b @ '' (rclone: '' @ rcloneVersion b
       @ '', commit: '' @ gitCommit b @ '', built: '' @ buildDate b @ '')''"

section \<open>Identity service\<close>

text \<open>The server holds a pointer to the driver; \<open>None\<close> is the nil pointer.\<close>

definition GetPluginInfo :: "driver option \<Rightarrow> (string \<times> string) outcome" where
  "GetPluginInfo ids =
     (case ids of
        None \<Rightarrow> Panicked ''nil pointer dereference''
      | Some d \<Rightarrow>
          if d_name d = '''' then Failed (StatusError Unavailable ''Driver name not configured'')
          else if d_version d = '''' then Failed (StatusError Unavailable ''Driver is missing version'')
          else Reply (d_name d, d_version d))"

definition Probe :: "driver option \<Rightarrow> bool outcome" where
  "Probe ids =
     (case ids of
        None \<Rightarrow> Reply False
      | Some d \<Rightarrow>
          if d_name d = '''' then Reply False
          else if d_version d = '''' then Reply False
          else Reply True)"

definition GetPluginCapabilities :: "driver option \<Rightarrow> plugin_capability list outcome" where
  "GetPluginCapabilities ids = Reply [Service_CONTROLLER_SERVICE, VolumeExpansion_ONLINE]"

section \<open>Template variables in a path\<close>

fun replaceWithMap :: "string \<Rightarrow> params \<Rightarrow> string" where
  "replaceWithMap str [] = str"
| "replaceWithMap str ((k, v) # es) =
     replaceWithMap (if k \<noteq> '''' then ReplaceAll str k v else str) es"

definition pvcNameMetadata :: string where
  "pvcNameMetadata = ''${pvc.metadata.name}''"

definition pvcNamespaceMetadata :: string where
  "pvcNamespaceMetadata = ''${pvc.metadata.namespace}''"

definition pvNameMetadata :: string where
  "pvNameMetadata = ''${pv.metadata.name}''"

lemmas template_defs = pvcNameMetadata_def pvcNamespaceMetadata_def pvNameMetadata_def

section \<open>Properties of the driver\<close>

text \<open>
  The identity service reports ready exactly when it can name itself: \<open>Probe\<close> answers
  true if and only if \<open>GetPluginInfo\<close> would answer without an error, for a nil driver too.
\<close>

theorem probe_ready_iff_info:
  "Probe ids = Reply True \<longleftrightarrow> (\<exists>n v. GetPluginInfo ids = Reply (n, v))"
  by (auto simp: Probe_def GetPluginInfo_def split: option.splits)

text \<open>
  A new driver carries the options it was started with, an empty lock table, and
  announces exactly volume creation to the controller's clients and the volume condition
  and mount group capabilities to the kubelet.  The kubelet is not told of
  \<open>GET_VOLUME_STATS\<close>, although \<open>NodeGetVolumeStats\<close> is implemented.
\<close>

theorem NewDriver_state:
  "d_name (NewDriver b o') = opt_DriverName o'
   \<and> d_nodeID (NewDriver b o') = opt_NodeID o'
   \<and> d_endpoint (NewDriver b o') = opt_Endpoint o'
   \<and> d_version (NewDriver b o') = driverVersion b
   \<and> locks (d_volumeLocks (NewDriver b o')) = {}
   \<and> d_cscap (NewDriver b o') = [ControllerServiceCapability CREATE_DELETE_VOLUME]
   \<and> NodeServiceCapability VOLUME_MOUNT_GROUP \<in> set (d_nscap (NewDriver b o'))
   \<and> NodeServiceCapability VOLUME_CONDITION \<in> set (d_nscap (NewDriver b o'))
   \<and> NodeServiceCapability GET_VOLUME_STATS \<notin> set (d_nscap (NewDriver b o'))"
  by (simp add: NewDriver_def AddControllerServiceCapabilities_def AddNodeServiceCapabilities_def
      NewControllerServiceCapability_def NewNodeServiceCapability_def NewVolumeLocks_def)

section \<open>Substitution in paths\<close>

text \<open>
  A path of the form the documentation describes is a sequence of literal pieces without
  a dollar sign and of template variables.  Its meaning is simultaneous substitution.
\<close>

datatype path_part = Lit string | Tmpl string

fun part_text :: "path_part \<Rightarrow> string" where
  "part_text (Lit s) = s"
| "part_text (Tmpl k) = k"

definition render :: "path_part list \<Rightarrow> string" where
  "render ps = concat (List.map part_text ps)"

fun part_value :: "params \<Rightarrow> path_part \<Rightarrow> string" where
  "part_value m (Lit s) = s"
| "part_value m (Tmpl k) = (case get m k of None \<Rightarrow> k | Some v \<Rightarrow> v)"

definition substitute :: "params \<Rightarrow> path_part list \<Rightarrow> string" where
  "substitute m ps = concat (List.map (part_value m) ps)"

definition templates :: "string set" where
  "templates = {pvcNameMetadata, pvcNamespaceMetadata, pvNameMetadata}"

fun wf_part :: "path_part \<Rightarrow> bool" where
  "wf_part (Lit s) \<longleftrightarrow> CHR ''$'' \<notin> set s"
| "wf_part (Tmpl k) \<longleftrightarrow> k \<in> templates"

text \<open>One round of \<open>ReplaceAll\<close>, on the parts.\<close>

fun inst_part :: "string \<Rightarrow> string \<Rightarrow> path_part \<Rightarrow> path_part" where
  "inst_part k v (Lit s) = Lit s"
| "inst_part k v (Tmpl k') = (if k' = k then Lit v else Tmpl k')"

lemma template_dollar: "k \<in> templates \<Longrightarrow> \<exists>t. k = CHR ''$'' # t \<and> CHR ''$'' \<notin> set t"
  by (auto simp: templates_def template_defs)

lemma template_not_prefix:
  "k \<in> templates \<Longrightarrow> k' \<in> templates \<Longrightarrow> k \<noteq> k' \<Longrightarrow> \<not> HasPrefix (k' @ s) k"
  by (auto simp: templates_def template_defs)

lemma ReplaceAll_other_template:
  assumes "k \<in> templates" and "k' \<in> templates" and "k \<noteq> k'"
  shows "ReplaceAll (k' @ s) k v = k' @ ReplaceAll s k v"
proof -
  obtain t where t: "k' = CHR ''$'' # t" "CHR ''$'' \<notin> set t"
    using template_dollar [OF assms(2)] by blast
  obtain u where u: "k = CHR ''$'' # u" using template_dollar [OF assms(1)] by blast
  have "ReplaceAll (k' @ s) k v = CHR ''$'' # ReplaceAll (t @ s) k v"
    using template_not_prefix [OF assms, of s] t by simp
  also have "ReplaceAll (t @ s) k v = t @ ReplaceAll s k v"
    unfolding u using t(2) by (rule ReplaceAll_skip)
  finally show ?thesis using t(1) by simp
qed

lemma ReplaceAll_render:
  assumes "k \<in> templates" and "\<forall>p \<in> set ps. wf_part p"
  shows "ReplaceAll (render ps) k v = render (List.map (inst_part k v) ps)"
  using assms(2)
proof (induction ps)
  case (Cons p ps)
  obtain u where u: "k = CHR ''$'' # u" using template_dollar [OF assms(1)] by blast
  show ?case
  proof (cases p)
    case (Lit s)
    then show ?thesis using Cons ReplaceAll_skip [of "CHR ''$''" s "render ps" u v] u
      by (simp add: render_def)
  next
    case (Tmpl k')
    then show ?thesis using Cons ReplaceAll_hit [of k "render ps" v] u
        ReplaceAll_other_template [OF assms(1), of k' "render ps" v]
      by (simp add: render_def)
  qed
qed (simp add: render_def)

lemma wf_inst_part: "wf_part p \<Longrightarrow> CHR ''$'' \<notin> set v \<Longrightarrow> wf_part (inst_part k v p)"
  by (cases p) auto

lemma substitute_inst:
  assumes "get es k = None"
  shows "substitute es (List.map (inst_part k v) ps) = substitute ((k, v) # es) ps"
proof -
  have "part_value es (inst_part k v p) = part_value ((k, v) # es) p" for p
    using assms by (cases p) auto
  then show ?thesis by (simp add: substitute_def comp_def)
qed

lemma replaceWithMap_render:
  assumes "wf_map m" and "fst ` set m \<subseteq> templates" and "\<forall>v \<in> snd ` set m. CHR ''$'' \<notin> set v"
    and "\<forall>p \<in> set ps. wf_part p"
  shows "replaceWithMap (render ps) m = substitute m ps"
  using assms
proof (induction m arbitrary: ps)
  case Nil
  have "part_value [] p = part_text p" for p by (cases p) auto
  then have "part_value [] = part_text" by (rule ext)
  then show ?case by (simp add: render_def substitute_def)
next
  case (Cons e es)
  obtain k v where e: "e = (k, v)" by (cases e)
  have k: "k \<in> templates" "k \<noteq> []" and new: "get es k = None" and wf: "wf_map es"
    using Cons.prems(1,2) e template_dollar [of k] by (auto simp: wf_map_def map_of_eq_None_iff)
  have "replaceWithMap (render ps) (e # es) = replaceWithMap (render (List.map (inst_part k v) ps)) es"
    using k e Cons.prems(4) by (simp add: ReplaceAll_render)
  also have "\<dots> = substitute es (List.map (inst_part k v) ps)"
    using Cons.prems e wf by (intro Cons.IH) (auto intro: wf_inst_part)
  finally show ?case using substitute_inst [OF new] e by simp
qed

text \<open>
  C33: On a path written with the documented template variables, \<open>replaceWithMap\<close> is
  simultaneous substitution, whichever order the runtime visits the replacement map in: every
  variable with a value is replaced, one without stays, and the literal text is untouched.
  The values must not contain a dollar sign, which names of Kubernetes objects never do.
\<close>

theorem replaceWithMap_substitutes:
  assumes "wf_map m" and "fst ` set m \<subseteq> templates" and "\<forall>v \<in> snd ` set m. CHR ''$'' \<notin> set v"
    and "\<forall>p \<in> set ps. wf_part p"
  shows "replaceWithMap (render ps) m = substitute m ps"
  using assms by (rule replaceWithMap_render)

theorem replaceWithMap_substitutes_witness:
  "replaceWithMap (render [Lit ''my-bucket/'', Tmpl pvcNamespaceMetadata, Lit ''/'', Tmpl pvcNameMetadata])
      [(pvcNameMetadata, ''data''), (pvcNamespaceMetadata, ''default'')]
   = substitute [(pvcNameMetadata, ''data''), (pvcNamespaceMetadata, ''default'')]
       [Lit ''my-bucket/'', Tmpl pvcNamespaceMetadata, Lit ''/'', Tmpl pvcNameMetadata]"
  by (rule replaceWithMap_substitutes) (simp_all add: wf_map_def templates_def template_defs)

lemma substitute_cong: "get m = get m' \<Longrightarrow> substitute m ps = substitute m' ps"
proof -
  assume "get m = get m'"
  then have "part_value m p = part_value m' p" for p by (cases p) auto
  then have "part_value m = part_value m'" by (rule ext)
  then show ?thesis by (simp add: substitute_def)
qed

end
