(* ===== verification/Controller.thy ===== *)
theory Controller
  imports Driver
begin

text \<open>
  The controller service, \<open>pkg/rclone/controllerserver.go\<close>: volume creation (parameter
  scanning, template substitution, the volume ID and context), deletion, capability
  validation, and the methods that answer \<open>Unimplemented\<close>; its log lines are in \<open>Controller_Log\<close>.  \<open>rng\<close> is the order in which
  the runtime visits a map.
\<close>

section \<open>Messages\<close>

record mount_volume =
  mount_flags :: "string list"
  volume_mount_group :: string

text \<open>The access type of a capability; \<open>NoAccessType\<close> also stands for a nil capability.\<close>

datatype access_type = BlockVolume | MountVolume mount_volume | NoAccessType

type_synonym volume_capability = access_type

record create_volume_request =
  cv_name :: string
  cv_capabilities :: "volume_capability list"
  cv_parameters :: "params option"

record volume =
  volume_id :: string
  capacity_bytes :: int
  volume_context :: params

section \<open>Operations\<close>

definition paramRemote :: string where "paramRemote = ''remote''"
definition paramRemotePath :: string where "paramRemotePath = ''remotePath''"
definition paramConfigData :: string where "paramConfigData = ''configData''"
definition pvcNameKey :: string where "pvcNameKey = ''csi.storage.k8s.io/pvc/name''"
definition pvcNamespaceKey :: string where "pvcNamespaceKey = ''csi.storage.k8s.io/pvc/namespace''"
definition pvNameKey :: string where "pvNameKey = ''csi.storage.k8s.io/pv/name''"
definition volume_separator :: string where "volume_separator = ''#''"

lemmas param_defs = paramRemote_def paramRemotePath_def paramConfigData_def
lemmas pv_key_defs = pvcNameKey_def pvcNamespaceKey_def pvNameKey_def

fun has_block :: "volume_capability list \<Rightarrow> bool" where
  "has_block [] \<longleftrightarrow> False"
| "has_block (c # cs) \<longleftrightarrow> (case c of BlockVolume \<Rightarrow> True | _ \<Rightarrow> has_block cs)"

definition isValidVolumeCapabilities :: "volume_capability list \<Rightarrow> string option" where
  "isValidVolumeCapabilities volCaps =
     (if volCaps = [] then Some ''volume capabilities missing in request''
      else if has_block volCaps then Some ''block volume capability not supported''
      else None)"

record scan_state =
  s_remote :: string
  s_remotePath :: string
  s_replace :: params
  s_unknown :: "string list"

definition scan_start :: scan_state where
  "scan_start = \<lparr>s_remote = '''', s_remotePath = '''', s_replace = [], s_unknown = []\<rparr>"

definition scan_parameter :: "scan_state \<Rightarrow> string \<times> string \<Rightarrow> scan_state" where
  "scan_parameter s kv =
     (let k = TrimSpace (fst kv); v = TrimSpace (snd kv); l = ToLower k in
      if l = ToLower paramRemote then s\<lparr>s_remote := v\<rparr>
      else if l = ToLower paramRemotePath then s\<lparr>s_remotePath := v\<rparr>
      else if l = ToLower paramConfigData then s
      else if l = pvcNamespaceKey then s\<lparr>s_replace := put pvcNamespaceMetadata v (s_replace s)\<rparr>
      else if l = pvcNameKey then s\<lparr>s_replace := put pvcNameMetadata v (s_replace s)\<rparr>
      else if l = pvNameKey then s\<lparr>s_replace := put pvNameMetadata v (s_replace s)\<rparr>
      else s\<lparr>s_unknown := s_unknown s @ [k]\<rparr>)"

fun scan_parameters :: "scan_state \<Rightarrow> params \<Rightarrow> scan_state" where
  "scan_parameters s [] = s"
| "scan_parameters s (e # es) = scan_parameters (scan_parameter s e) es"

definition CreateVolume ::
    "(params \<Rightarrow> params) \<Rightarrow> create_volume_request \<Rightarrow> volume outcome" where
  "CreateVolume rng req =
     (if cv_name req = ''''
      then Failed (StatusError InvalidArgument ''CreateVolume name must be provided'')
      else case isValidVolumeCapabilities (cv_capabilities req) of
        Some e \<Rightarrow> Failed (StatusError InvalidArgument e)
      | None \<Rightarrow>
          let parameters = (case cv_parameters req of None \<Rightarrow> [] | Some p \<Rightarrow> p);
              s = scan_parameters scan_start (rng parameters);
              remotePath = (if s_remotePath s \<noteq> ''''
                            then replaceWithMap (s_remotePath s) (rng (s_replace s))
                            else s_remotePath s);
              volumeID = (if s_remote s \<noteq> ''''
                          then s_remote s @ volume_separator @ cv_name req
                          else cv_name req);
              volumeContext = put_all [] (rng parameters);
              volumeContext = (if remotePath \<noteq> ''''
                               then put paramRemotePath remotePath volumeContext
                               else volumeContext)
          in Reply \<lparr>volume_id = volumeID, capacity_bytes = 0, volume_context = volumeContext\<rparr>)"

definition DeleteVolume :: "string \<Rightarrow> unit outcome" where
  "DeleteVolume volumeID =
     (if volumeID = '''' then Failed (StatusError InvalidArgument ''volume id is empty'')
      else Reply ())"

definition ValidateVolumeCapabilities ::
    "string \<Rightarrow> volume_capability list \<Rightarrow> volume_capability list outcome" where
  "ValidateVolumeCapabilities volumeID caps =
     (if volumeID = '''' then Failed (StatusError InvalidArgument ''Volume ID missing in request'')
      else case isValidVolumeCapabilities caps of
        Some e \<Rightarrow> Failed (StatusError InvalidArgument e)
      | None \<Rightarrow> Reply caps)"

definition ControllerGetCapabilities :: "driver \<Rightarrow> controller_capability list outcome" where
  "ControllerGetCapabilities d = Reply (d_cscap d)"

text \<open>The methods without an implementation, by the name of the call.\<close>

definition unimplemented :: "'a outcome" where
  "unimplemented = Failed (StatusError Unimplemented '''')"

definition ControllerPublishVolume :: "'r \<Rightarrow> unit outcome" where
  "ControllerPublishVolume req = unimplemented"

definition ControllerUnpublishVolume :: "'r \<Rightarrow> unit outcome" where
  "ControllerUnpublishVolume req = unimplemented"

definition ControllerGetVolume :: "'r \<Rightarrow> unit outcome" where
  "ControllerGetVolume req = unimplemented"

definition ListVolumes :: "'r \<Rightarrow> unit outcome" where
  "ListVolumes req = unimplemented"

definition GetCapacity :: "'r \<Rightarrow> unit outcome" where
  "GetCapacity req = unimplemented"

definition ControllerExpandVolume :: "'r \<Rightarrow> unit outcome" where
  "ControllerExpandVolume req = unimplemented"

definition ControllerModifyVolume :: "'r \<Rightarrow> unit outcome" where
  "ControllerModifyVolume req = unimplemented"

section \<open>Requests that fail\<close>

lemma has_block_iff: "has_block cs \<longleftrightarrow> BlockVolume \<in> set cs"
  by (induction cs) (auto split: access_type.splits)

lemma valid_capabilities_iff:
  "isValidVolumeCapabilities cs = None \<longleftrightarrow> cs \<noteq> [] \<and> BlockVolume \<notin> set cs"
  by (simp add: isValidVolumeCapabilities_def has_block_iff)

lemma CreateVolume_ok_iff:
  "(\<exists>v. CreateVolume rng req = Reply v) \<longleftrightarrow>
     cv_name req \<noteq> '''' \<and> cv_capabilities req \<noteq> [] \<and> BlockVolume \<notin> set (cv_capabilities req)"
  using valid_capabilities_iff [of "cv_capabilities req"]
  by (auto simp: CreateVolume_def Let_def split: option.splits)

text \<open>
  \<open>CreateVolume\<close> succeeds exactly when the request names the volume and asks for at least
  one capability, none of them block access; every other request is refused with
  \<open>InvalidArgument\<close>, and no parameter, known or unknown, makes creation fail.
\<close>

theorem CreateVolume_outcome:
  "(if cv_name req \<noteq> '''' \<and> cv_capabilities req \<noteq> [] \<and> BlockVolume \<notin> set (cv_capabilities req)
    then \<exists>v. CreateVolume rng req = Reply v
    else \<exists>m. CreateVolume rng req = Failed (StatusError InvalidArgument m))"
  using CreateVolume_ok_iff [of rng req]
  by (auto simp: CreateVolume_def Let_def isValidVolumeCapabilities_def has_block_iff)

text \<open>
  A capability list that \<open>ValidateVolumeCapabilities\<close> confirms is one that \<open>CreateVolume\<close>
  accepts, and the other way round, for requests that name a volume.
\<close>

theorem validate_agrees_with_create:
  assumes "vid \<noteq> ''''" and "cv_name req \<noteq> ''''"
  shows "ValidateVolumeCapabilities vid (cv_capabilities req) = Reply (cv_capabilities req)
         \<longleftrightarrow> (\<exists>v. CreateVolume rng req = Reply v)"
  using assms CreateVolume_ok_iff [of rng req] valid_capabilities_iff [of "cv_capabilities req"]
  by (auto simp: ValidateVolumeCapabilities_def split: option.splits)

theorem validate_agrees_with_create_witness:
  "\<exists>v. CreateVolume (\<lambda>m. m)
     \<lparr>cv_name = ''pvc-1'', cv_capabilities = [NoAccessType], cv_parameters = None\<rparr> = Reply v"
  using validate_agrees_with_create
    [of "''v''" "\<lparr>cv_name = ''pvc-1'', cv_capabilities = [NoAccessType], cv_parameters = None\<rparr>" "\<lambda>m. m"]
  by (simp add: ValidateVolumeCapabilities_def isValidVolumeCapabilities_def)

section \<open>The parameters, whatever the visiting order\<close>

text \<open>The parameters by canonical name: trimmed and in lower case.\<close>

definition folded :: "params \<Rightarrow> params" where
  "folded es = List.map (\<lambda>(k, v). (ToLower (TrimSpace k), TrimSpace v)) es"

lemma folded_Cons [simp]:
  "folded ((k, v) # es) = (ToLower (TrimSpace k), TrimSpace v) # folded es"
  by (simp add: folded_def)

lemma folded_Nil [simp]: "folded [] = []"
  by (simp add: folded_def)

lemma folded_rng:
  assumes "range_order rng" and "wf_map (folded m)"
  shows "get (folded (rng m)) = get (folded m)" and "wf_map (folded (rng m))"
proof -
  have "mset (rng m) = mset m" using assms(1) by (simp add: range_order_def)
  then have "same_map (folded m) (folded (rng m))"
    unfolding same_map_def folded_def mset_map by simp
  with assms(2) show "get (folded (rng m)) = get (folded m)" "wf_map (folded (rng m))"
    by (simp_all add: same_map_get [symmetric] same_map_wf [symmetric])
qed

lemma lower_params:
  "ToLower paramRemote = ''remote''" "ToLower paramRemotePath = ''remotepath''"
  "ToLower paramConfigData = ''configdata''"
  by code_simp+

lemma scan_remote:
  assumes "wf_map (folded es)"
  shows "s_remote (scan_parameters s es)
    = (case get (folded es) ''remote'' of None \<Rightarrow> s_remote s | Some v \<Rightarrow> v)"
  using assms
proof (induction es arbitrary: s)
  case (Cons e es)
  obtain k v where e: "e = (k, v)" by (cases e)
  then have "wf_map (folded es)" and "get (folded es) (ToLower (TrimSpace k)) = None"
    using Cons.prems by (auto simp: wf_map_def map_of_eq_None_iff)
  then show ?case using Cons.IH e
    by (auto simp: scan_parameter_def lower_params Let_def split: option.splits)
qed simp

lemma scan_remotePath:
  assumes "wf_map (folded es)"
  shows "s_remotePath (scan_parameters s es)
    = (case get (folded es) ''remotepath'' of None \<Rightarrow> s_remotePath s | Some v \<Rightarrow> v)"
  using assms
proof (induction es arbitrary: s)
  case (Cons e es)
  obtain k v where e: "e = (k, v)" by (cases e)
  then have "wf_map (folded es)" and "get (folded es) (ToLower (TrimSpace k)) = None"
    using Cons.prems by (auto simp: wf_map_def map_of_eq_None_iff)
  then show ?case using Cons.IH e
    by (auto simp: scan_parameter_def lower_params Let_def split: option.splits)
qed simp

text \<open>The parameter that gives each template variable its value.\<close>

definition template_keys :: params where
  "template_keys =
     [(pvcNamespaceMetadata, pvcNamespaceKey), (pvcNameMetadata, pvcNameKey), (pvNameMetadata, pvNameKey)]"

lemma template_names_distinct:
  "pvcNamespaceMetadata \<noteq> pvcNameMetadata" "pvcNamespaceMetadata \<noteq> pvNameMetadata"
  "pvcNameMetadata \<noteq> pvNameMetadata"
  by code_simp+

lemma template_key_names:
  "pvcNamespaceKey \<noteq> pvcNameKey" "pvcNamespaceKey \<noteq> pvNameKey" "pvcNameKey \<noteq> pvNameKey"
  "pvcNamespaceKey \<notin> {''remote'', ''remotepath'', ''configdata''}"
  "pvcNameKey \<notin> {''remote'', ''remotepath'', ''configdata''}"
  "pvNameKey \<notin> {''remote'', ''remotepath'', ''configdata''}"
  by code_simp+

lemma scan_parameter_replace:
  "get (s_replace (scan_parameter s (k, v))) t =
     (if get template_keys t = Some (ToLower (TrimSpace k)) then Some (TrimSpace v)
      else get (s_replace s) t)"
  using template_key_names template_names_distinct
  by (auto simp: scan_parameter_def template_keys_def lower_params Let_def get_put)

lemma scan_replace:
  assumes "wf_map (folded es)"
  shows "get (s_replace (scan_parameters s es)) t =
    (case get template_keys t of
       None \<Rightarrow> get (s_replace s) t
     | Some key \<Rightarrow> (case get (folded es) key of None \<Rightarrow> get (s_replace s) t | Some v \<Rightarrow> Some v))"
  using assms
proof (induction es arbitrary: s)
  case Nil
  then show ?case by (simp split: option.split)
next
  case (Cons e es)
  obtain k v where e: "e = (k, v)" by (cases e)
  then have "wf_map (folded es)" and "get (folded es) (ToLower (TrimSpace k)) = None"
    using Cons.prems by (auto simp: wf_map_def map_of_eq_None_iff)
  then show ?case using Cons.IH e
    by (auto simp: scan_parameter_replace split: option.splits)
qed

lemma wf_scan_parameter: "wf_map (s_replace s) \<Longrightarrow> wf_map (s_replace (scan_parameter s e))"
  by (simp add: scan_parameter_def Let_def)

lemma wf_scan_parameters: "wf_map (s_replace s) \<Longrightarrow> wf_map (s_replace (scan_parameters s es))"
  by (induction s es rule: scan_parameters.induct) (auto simp: wf_scan_parameter)

text \<open>The template variables and their values, as the request's parameters give them.\<close>

definition template_values :: "params \<Rightarrow> params" where
  "template_values p =
     List.map_filter (\<lambda>(t, key). map_option (\<lambda>v. (t, v)) (get (folded p) key)) template_keys"

lemma get_template_values:
  "get (template_values p) t =
     (case get template_keys t of None \<Rightarrow> None | Some key \<Rightarrow> get (folded p) key)"
  using template_names_distinct
  by (auto simp: template_values_def template_keys_def List.map_filter_simps split: option.splits)

definition resolved_path :: "params \<Rightarrow> path_part list \<Rightarrow> string" where
  "resolved_path p ps = substitute (template_values p) ps"

lemma scanned_replace:
  assumes "wf_map (folded es)"
  shows "get (s_replace (scan_parameters scan_start es)) = get (template_values es)"
  using scan_replace [OF assms, of scan_start]
  by (intro ext) (simp add: get_template_values scan_start_def split: option.split)

lemma get_template_values_cong:
  "get (folded p) = get (folded p') \<Longrightarrow> get (template_values p) = get (template_values p')"
  by (intro ext) (simp add: get_template_values split: option.split)

lemma scanned_resolve:
  assumes "range_order rng" and "wf_map (folded p)"
    and "\<forall>t v. get (template_values p) t = Some v \<longrightarrow> CHR ''$'' \<notin> set v"
    and "\<forall>q \<in> set ps. wf_part q"
  shows "replaceWithMap (render ps) (rng (s_replace (scan_parameters scan_start (rng p))))
    = resolved_path p ps"
proof -
  let ?m = "s_replace (scan_parameters scan_start (rng p))"
  have wf: "wf_map ?m" by (rule wf_scan_parameters) (simp add: scan_start_def)
  have "get ?m = get (template_values (rng p))"
    using folded_rng(2) [OF assms(1,2)] by (rule scanned_replace)
  also have "\<dots> = get (template_values p)"
    using folded_rng(1) [OF assms(1,2)] by (rule get_template_values_cong)
  finally have g: "get (rng ?m) = get (template_values p)"
    using range_order_get [OF assms(1) wf] by simp
  have wf': "wf_map (rng ?m)" using wf range_order_wf [OF assms(1)] by simp
  have mem: "get (template_values p) t = Some v" if "(t, v) \<in> set (rng ?m)" for t v
    using that wf' g by (simp add: wf_map_def flip: g)
  have "fst ` set (rng ?m) \<subseteq> templates"
    using mem by (force simp: get_template_values template_keys_def templates_def
        split: option.splits if_splits)
  moreover have "\<forall>v \<in> snd ` set (rng ?m). CHR ''$'' \<notin> set v"
    using mem assms(3) by force
  ultimately have "replaceWithMap (render ps) (rng ?m) = substitute (rng ?m) ps"
    using wf' assms(4) by (intro replaceWithMap_render)
  then show ?thesis unfolding resolved_path_def using substitute_cong [OF g] by simp
qed

lemma replaceWithMap_Nil [simp]: "replaceWithMap [] es = []"
  by (induction es) auto

lemma CreateVolume_reply:
  assumes "range_order rng" and "wf_map p" and "wf_map (folded p)"
    and "cv_parameters req = Some p" and "cv_name req \<noteq> ''''"
    and "cv_capabilities req \<noteq> []" and "BlockVolume \<notin> set (cv_capabilities req)"
    and "get_str (folded p) ''remotepath'' = render ps" and "\<forall>q \<in> set ps. wf_part q"
    and "\<forall>t v. get (template_values p) t = Some v \<longrightarrow> CHR ''$'' \<notin> set v"
  shows "\<exists>ctx. CreateVolume rng req = Reply
      \<lparr>volume_id = (let r = get_str (folded p) ''remote'' in
                     if r = '''' then cv_name req else r @ ''#'' @ cv_name req),
       capacity_bytes = 0, volume_context = ctx\<rparr>
    \<and> get ctx = (get p)(''remotePath'' :=
        (if resolved_path p ps = '''' then get p ''remotePath'' else Some (resolved_path p ps)))"
proof -
  let ?s = "scan_parameters scan_start (rng p)"
  note f = folded_rng [OF assms(1,3)]
  have remote: "s_remote ?s = get_str (folded p) ''remote''"
    using scan_remote [OF f(2), of scan_start] f(1)
    by (simp add: get_str_def scan_start_def split: option.split)
  have path: "s_remotePath ?s = render ps"
    using scan_remotePath [OF f(2), of scan_start] f(1) assms(8)
    by (auto simp: get_str_def scan_start_def split: option.splits)
  have resolved: "replaceWithMap (render ps) (rng (s_replace ?s)) = resolved_path p ps"
    using assms by (intro scanned_resolve)
  then have empty: "render ps = '''' \<Longrightarrow> resolved_path p ps = ''''" by auto
  define ctx0 where "ctx0 = put_all [] (rng p)"
  have ctx0: "get ctx0 = get p"
    using get_put_all [of "rng p" "[]"] range_order_get [OF assms(1,2)]
      range_order_wf [OF assms(1), of p] assms(2)
    by (simp add: ctx0_def)
  have "isValidVolumeCapabilities (cv_capabilities req) = None"
    using assms(6,7) by (simp add: valid_capabilities_iff)
  then have "CreateVolume rng req = Reply
      \<lparr>volume_id = (let r = get_str (folded p) ''remote'' in
                     if r = '''' then cv_name req else r @ ''#'' @ cv_name req),
       capacity_bytes = 0,
       volume_context = (if resolved_path p ps \<noteq> '''' then put paramRemotePath (resolved_path p ps) ctx0
                         else ctx0)\<rparr>"
    using assms(4,5) empty unfolding CreateVolume_def
    by (auto simp: Let_def remote path resolved volume_separator_def simp flip: ctx0_def)
  then show ?thesis using ctx0 by (auto simp: get_put paramRemotePath_def)
qed

text \<open>
  C25: What \<open>CreateVolume\<close> answers, whatever order the runtime visits the maps in: the volume ID
  is the remote, a hash sign and the requested name (the name alone when no remote is given),
  no capacity is claimed, and the volume context is the parameters as received, with
  \<open>remotePath\<close> replaced by the path whose template variables are substituted.  Parameter
  names are matched without regard to case and surrounding blanks.
\<close>

theorem CreateVolume_volume:
  assumes "range_order rng" and "wf_map p" and "wf_map (folded p)"
    and "cv_parameters req = Some p" and "cv_name req \<noteq> ''''"
    and "cv_capabilities req \<noteq> []" and "BlockVolume \<notin> set (cv_capabilities req)"
    and "get_str (folded p) ''remotepath'' = render ps" and "\<forall>q \<in> set ps. wf_part q"
    and "\<forall>t v. get (template_values p) t = Some v \<longrightarrow> CHR ''$'' \<notin> set v"
  shows "\<exists>ctx. CreateVolume rng req = Reply
      \<lparr>volume_id = (let r = get_str (folded p) ''remote'' in
                     if r = '''' then cv_name req else r @ ''#'' @ cv_name req),
       capacity_bytes = 0, volume_context = ctx\<rparr>
    \<and> get ctx = (get p)(''remotePath'' :=
        (if resolved_path p ps = '''' then get p ''remotePath'' else Some (resolved_path p ps)))"
  using assms by (rule CreateVolume_reply)

theorem CreateVolume_volume_witness:
  "\<exists>ctx. CreateVolume rev
      \<lparr>cv_name = ''pvc-1'', cv_capabilities = [NoAccessType],
       cv_parameters = Some [(''remote'', ''s3''), ('' RemotePath'', ''bucket/${pvc.metadata.name}''),
         (''csi.storage.k8s.io/pvc/name'', ''data'')]\<rparr>
    = Reply \<lparr>volume_id = ''s3#pvc-1'', capacity_bytes = 0, volume_context = ctx\<rparr>
    \<and> get ctx ''remotePath'' = Some ''bucket/data''"
proof -
  let ?p = "[(''remote'', ''s3''), ('' RemotePath'', ''bucket/${pvc.metadata.name}''),
         (''csi.storage.k8s.io/pvc/name'', ''data'')]"
  let ?ps = "[Lit ''bucket/'', Tmpl pvcNameMetadata]"
  have tv: "template_values ?p = [(pvcNameMetadata, ''data'')]" by code_simp
  have "wf_map ?p" and "wf_map (folded ?p)" by code_simp+
  moreover have "get_str (folded ?p) ''remotepath'' = render ?ps" and "\<forall>q \<in> set ?ps. wf_part q" by code_simp+
  moreover have "\<forall>t v. get (template_values ?p) t = Some v \<longrightarrow> CHR ''$'' \<notin> set v" by (auto simp: tv)
  moreover have "resolved_path ?p ?ps = ''bucket/data''" and "get_str (folded ?p) ''remote'' = ''s3''" by code_simp+
  ultimately show ?thesis
    using CreateVolume_volume [OF range_order_rev, of ?p
        "\<lparr>cv_name = ''pvc-1'', cv_capabilities = [NoAccessType], cv_parameters = Some ?p\<rparr>" ?ps]
    by auto
qed

text \<open>The remote that a creation request names.\<close>

definition request_remote :: "(params \<Rightarrow> params) \<Rightarrow> create_volume_request \<Rightarrow> string" where
  "request_remote rng req =
     s_remote (scan_parameters scan_start (rng (case cv_parameters req of None \<Rightarrow> [] | Some p \<Rightarrow> p)))"

lemma CreateVolume_id:
  "CreateVolume rng req = Reply v \<Longrightarrow> request_remote rng req \<noteq> '''' \<Longrightarrow>
     volume_id v = request_remote rng req @ ''#'' @ cv_name req"
  by (auto simp: CreateVolume_def request_remote_def volume_separator_def Let_def
      split: if_splits option.splits)

text \<open>
  The volume ID tells two volumes apart: when two creation requests that name remotes
  without the separator get the same ID, they ask for the same name on the same remote.
\<close>

theorem volume_id_injective:
  assumes "CreateVolume rng req = Reply v" and "CreateVolume rng' req' = Reply v'"
    and "volume_id v = volume_id v'"
    and "request_remote rng req \<noteq> ''''" and "CHR ''#'' \<notin> set (request_remote rng req)"
    and "request_remote rng' req' \<noteq> ''''" and "CHR ''#'' \<notin> set (request_remote rng' req')"
  shows "request_remote rng req = request_remote rng' req' \<and> cv_name req = cv_name req'"
proof -
  have "SplitN2 (volume_id v) ''#'' = [request_remote rng req, cv_name req]"
    using CreateVolume_id [OF assms(1,4)] assms(5) by (auto intro!: SplitN2_cut)
  moreover have "SplitN2 (volume_id v') ''#'' = [request_remote rng' req', cv_name req']"
    using CreateVolume_id [OF assms(2,6)] assms(7) by (auto intro!: SplitN2_cut)
  ultimately show ?thesis using assms(3) by simp
qed

definition sample_request :: create_volume_request where
  "sample_request =
     \<lparr>cv_name = ''pvc-1'', cv_capabilities = [NoAccessType], cv_parameters = Some [(''remote'', ''s3'')]\<rparr>"

theorem volume_id_injective_witness:
  "cv_name sample_request = ''pvc-1''
   \<and> request_remote (\<lambda>m. m) sample_request = request_remote rev sample_request"
proof -
  let ?v = "\<lparr>volume_id = ''s3#pvc-1'', capacity_bytes = 0, volume_context = [(''remote'', ''s3'')]\<rparr>"
  have "CreateVolume (\<lambda>m. m) sample_request = Reply ?v" and "CreateVolume rev sample_request = Reply ?v"
    and "request_remote (\<lambda>m. m) sample_request = ''s3''" and "request_remote rev sample_request = ''s3''"
    by code_simp+
  then show ?thesis
    using volume_id_injective [of "\<lambda>m. m" sample_request ?v rev sample_request ?v]
    by (simp add: sample_request_def)
qed

end
