(* ===== verification/Flags.thy ===== *)
theory Flags
  imports Go_Prelude
begin

text \<open>
  Flag names and remote parameters, \<open>pkg/rclone/utils.go\<close>: the canonical form of a flag
  (\<open>normalizeRcloneFlag\<close>), the removal of a remote's prefix (\<open>sanitizeFlag\<close>), the options
  of one backend among the volume's parameters (\<open>extractRemoteTypeParams\<close>), the INI text
  generated from them (\<open>generateRecloneConfigFromParams\<close>) and the merge of two maps
  (\<open>mergeCopy\<close>).  A function that ranges over a map takes its entries in the order of
  the visit.
\<close>

section \<open>Definitions\<close>

definition normalizeRcloneFlag :: "string \<Rightarrow> string" where
  "normalizeRcloneFlag key =
     (if key = '''' then key
      else let key1 = TrimPrefix key ''--'';
               key2 = ReplaceAll key1 ''-'' ''_''
           in ToLower key2)"

definition removePrefixCaseInsensitive :: "string \<Rightarrow> string \<Rightarrow> string" where
  "removePrefixCaseInsensitive s p =
     (if length s < length p then s
      else if EqualFold (take (length p) s) p then drop (length p) s
      else s)"

definition sanitizeFlag :: "string \<Rightarrow> string \<Rightarrow> string" where
  "sanitizeFlag remote key =
     (if key = '''' then key
      else normalizeRcloneFlag
        (if remote \<noteq> ''''
         then removePrefixCaseInsensitive (normalizeRcloneFlag key) (remote @ ''_'')
         else key))"

fun extract_loop :: "string \<Rightarrow> params \<Rightarrow> params \<Rightarrow> params" where
  "extract_loop remoteType rcParams [] = rcParams"
| "extract_loop remoteType rcParams ((k, v) # es) =
     extract_loop remoteType
       (if HasPrefix (ToLower k) (ToLower remoteType)
        then put (sanitizeFlag remoteType k) v rcParams
        else rcParams) es"

definition extractRemoteTypeParams :: "params \<Rightarrow> string \<Rightarrow> params" where
  "extractRemoteTypeParams es remoteType = extract_loop remoteType [] es"

fun config_lines :: "params \<Rightarrow> string" where
  "config_lines [] = ''''"
| "config_lines ((key, value) # es) = key @ '' = '' @ value @ ''\<newline>'' @ config_lines es"

definition generateRecloneConfigFromParams :: "params \<Rightarrow> string \<Rightarrow> string \<Rightarrow> string" where
  "generateRecloneConfigFromParams es remoteType remoteName =
     ''['' @ remoteName @ '']\<newline>'' @ ''type = '' @ remoteType @ ''\<newline>'' @ config_lines es"

definition mergeCopy :: "('k, 'v) gomap \<Rightarrow> ('k, 'v) gomap \<Rightarrow> ('k, 'v) gomap" where
  "mergeCopy m1 m2 = put_all (put_all [] m1) m2"

section \<open>The canonical form of a flag\<close>

definition canonical_flag :: "string \<Rightarrow> bool" where
  "canonical_flag s \<longleftrightarrow> (\<forall>c \<in> set s. c \<noteq> CHR ''-'' \<and> \<not> is_upper c)"

lemma normalize_Nil [simp]: "normalizeRcloneFlag [] = []"
  by (simp add: normalizeRcloneFlag_def)

lemma normalize_eq:
  "key \<noteq> [] \<Longrightarrow> normalizeRcloneFlag key =
     ToLower (List.map (\<lambda>x. if x = CHR ''-'' then CHR ''_'' else x) (TrimPrefix key ''--''))"
  by (simp add: normalizeRcloneFlag_def ReplaceAll_char)

lemma canonical_normalize: "canonical_flag (normalizeRcloneFlag key)"
proof (cases "key = []")
  case False
  then show ?thesis
    by (auto simp: normalize_eq canonical_flag_def ToLower_def)
qed (simp add: canonical_flag_def)

lemma canonical_no_hyphen: "canonical_flag s \<Longrightarrow> CHR ''-'' \<notin> set s"
  by (auto simp: canonical_flag_def)

lemma canonical_TrimPrefix: "canonical_flag s \<Longrightarrow> TrimPrefix s ''--'' = s"
  by (cases s) (auto simp: TrimPrefix_def canonical_flag_def)

lemma canonical_ToLower: "canonical_flag s \<Longrightarrow> ToLower s = s"
  by (rule ToLower_id) (simp add: canonical_flag_def)

lemma normalize_canonical: "canonical_flag s \<Longrightarrow> normalizeRcloneFlag s = s"
proof (cases "s = []")
  case False
  assume c: "canonical_flag s"
  then have "List.map (\<lambda>x. if x = CHR ''-'' then CHR ''_'' else x) s = s"
    by (intro map_idI) (auto simp: canonical_flag_def)
  with False c show ?thesis
    by (simp add: normalize_eq canonical_TrimPrefix canonical_ToLower)
qed simp

lemma canonical_append [simp]:
  "canonical_flag (s @ t) \<longleftrightarrow> canonical_flag s \<and> canonical_flag t"
  by (auto simp: canonical_flag_def)

lemma canonical_Nil [simp]: "canonical_flag []"
  by (simp add: canonical_flag_def)

lemma canonical_Cons [simp]:
  "canonical_flag (c # s) \<longleftrightarrow> c \<noteq> CHR ''-'' \<and> \<not> is_upper c \<and> canonical_flag s"
  by (auto simp: canonical_flag_def)

lemma not_upper_underscore [simp]: "\<not> is_upper CHR ''_''"
  by (simp add: is_upper_def)

lemma canonical_take: "canonical_flag s \<Longrightarrow> canonical_flag (take n s)"
  by (auto simp: canonical_flag_def dest: in_set_takeD)

lemma canonical_drop: "canonical_flag s \<Longrightarrow> canonical_flag (drop n s)"
  by (auto simp: canonical_flag_def dest: in_set_dropD)

text \<open>
  Normalising a flag gives its canonical form: no upper-case letter and no hyphen is
  left, a name that is already canonical is unchanged, and so normalising twice is
  normalising once (which \<open>sanitizeFlag\<close> and \<open>extractPublishParams\<close> rely on: a key passes
  through the function several times).
\<close>

theorem normalizeRcloneFlag_canonical:
  "canonical_flag (normalizeRcloneFlag key)
   \<and> normalizeRcloneFlag (normalizeRcloneFlag key) = normalizeRcloneFlag key
   \<and> (normalizeRcloneFlag key = key \<longleftrightarrow> canonical_flag key)"
  by (metis canonical_normalize normalize_canonical)

lemma normalize_empty_iff: "normalizeRcloneFlag key = '''' \<longleftrightarrow> key = '''' \<or> key = ''--''"
proof (cases "key = []")
  case False
  then have "normalizeRcloneFlag key = [] \<longleftrightarrow> TrimPrefix key ''--'' = []"
    by (simp add: normalize_eq)
  also have "\<dots> \<longleftrightarrow> key = ''--''"
    using False by (auto simp: TrimPrefix_def HasPrefix_iff)
  finally show ?thesis using False by simp
qed simp

section \<open>Removing a prefix\<close>

lemma removePrefix_hit:
  "EqualFold q p \<Longrightarrow> removePrefixCaseInsensitive (q @ t) p = t"
proof -
  assume "EqualFold q p"
  moreover then have "length q = length p"
    unfolding EqualFold_def by (metis length_ToLower)
  ultimately show ?thesis by (simp add: removePrefixCaseInsensitive_def)
qed

lemma removePrefix_miss:
  "\<not> EqualFold (take (length p) s) p \<Longrightarrow> removePrefixCaseInsensitive s p = s"
  by (simp add: removePrefixCaseInsensitive_def)

lemma sanitize_strip:
  assumes "canonical_flag remote" and "canonical_flag f" and "remote \<noteq> []"
  shows "sanitizeFlag remote (remote @ ''_'' @ f) = f"
proof -
  have "removePrefixCaseInsensitive ((remote @ ''_'') @ f) (remote @ ''_'') = f"
    by (rule removePrefix_hit) (simp add: EqualFold_def)
  moreover have "normalizeRcloneFlag (remote @ ''_'' @ f) = remote @ ''_'' @ f"
    using assms by (intro normalize_canonical) simp
  ultimately show ?thesis
    using assms by (simp add: sanitizeFlag_def normalize_canonical)
qed

lemma sanitize_keep:
  assumes "canonical_flag remote" and "canonical_flag k"
    and "\<not> HasPrefix k (remote @ ''_'')"
  shows "sanitizeFlag remote k = k"
proof -
  let ?p = "remote @ ''_''"
  have "ToLower (take (length ?p) k) = take (length ?p) k"
    using canonical_take [OF assms(2)] by (rule canonical_ToLower)
  moreover have "ToLower ?p = ?p"
    using assms(1) by (intro canonical_ToLower) simp
  ultimately have "\<not> EqualFold (take (length ?p) k) ?p"
    using assms(3) unfolding EqualFold_def HasPrefix_def by metis
  then have "removePrefixCaseInsensitive k ?p = k" by (rule removePrefix_miss)
  then show ?thesis
    using assms(2) by (simp add: sanitizeFlag_def normalize_canonical)
qed

text \<open>
  \<open>sanitizeFlag\<close> removes the remote's prefix whatever the case of the letters and
  whichever of hyphen and underscore the user wrote: for a backend name in canonical form,
  a key whose canonical form is the backend, an underscore and an option name becomes
  that option name.
\<close>

theorem sanitizeFlag_strips_prefix:
  assumes "canonical_flag remote" and "remote \<noteq> ''''"
    and "normalizeRcloneFlag key = remote @ ''_'' @ f"
  shows "sanitizeFlag remote key = f"
proof -
  have f: "canonical_flag f" and "key \<noteq> []"
    using canonical_normalize [of key] assms(3) by auto
  moreover have "removePrefixCaseInsensitive ((remote @ ''_'') @ f) (remote @ ''_'') = f"
    by (rule removePrefix_hit) (simp add: EqualFold_def)
  ultimately show ?thesis
    using assms by (simp add: sanitizeFlag_def normalize_canonical)
qed

theorem sanitizeFlag_strips_prefix_witness:
  "sanitizeFlag ''s3'' ''--S3-Cache-Mode'' = ''cache_mode''"
proof (rule sanitizeFlag_strips_prefix)
  show "canonical_flag ''s3''" by code_simp
  show "normalizeRcloneFlag ''--S3-Cache-Mode'' = ''s3'' @ ''_'' @ ''cache_mode''"
    by code_simp
qed simp

section \<open>The options of one backend\<close>

lemma wf_extract_loop [simp]: "wf_map acc \<Longrightarrow> wf_map (extract_loop rt acc es)"
  by (induction rt acc es rule: extract_loop.induct) auto

lemma wf_extractRemoteTypeParams [simp]: "wf_map (extractRemoteTypeParams es rt)"
  by (simp add: extractRemoteTypeParams_def)

lemma sanitize_eq_iff:
  assumes "canonical_flag rt" and "rt \<noteq> []" and "canonical_flag k"
    and "canonical_flag f" and "\<not> HasPrefix f rt"
  shows "HasPrefix (ToLower k) (ToLower rt) \<and> sanitizeFlag rt k = f
         \<longleftrightarrow> k = rt @ ''_'' @ f"
proof
  assume L: "HasPrefix (ToLower k) (ToLower rt) \<and> sanitizeFlag rt k = f"
  then have p: "HasPrefix k rt" using assms by (simp add: canonical_ToLower)
  show "k = rt @ ''_'' @ f"
  proof (cases "HasPrefix k (rt @ ''_'')")
    case True
    then obtain g where g: "k = rt @ ''_'' @ g" by (auto simp: HasPrefix_iff)
    then have "canonical_flag g" using assms(3) by simp
    then show ?thesis using L g sanitize_strip [of rt g] assms(1,2) by simp
  next
    case False
    then show ?thesis using L p assms sanitize_keep [of rt k] by simp
  qed
next
  assume "k = rt @ ''_'' @ f"
  then show "HasPrefix (ToLower k) (ToLower rt) \<and> sanitizeFlag rt k = f"
    using assms sanitize_strip [of rt f] by (simp add: canonical_ToLower)
qed

lemma get_extract_loop:
  assumes "canonical_flag rt" and "rt \<noteq> []" and "canonical_flag f" and "\<not> HasPrefix f rt"
    and "\<forall>k \<in> fst ` set es. canonical_flag k" and "wf_map es"
  shows "get (extract_loop rt acc es) f =
    (case get es (rt @ ''_'' @ f) of None \<Rightarrow> get acc f | Some v \<Rightarrow> Some v)"
  using assms(5,6)
proof (induction es arbitrary: acc)
  case (Cons e es)
  obtain k v where e: "e = (k, v)" by (cases e)
  let ?acc = "if HasPrefix (ToLower k) (ToLower rt) then put (sanitizeFlag rt k) v acc else acc"
  let ?key = "rt @ ''_'' @ f"
  have "canonical_flag k" and wf: "wf_map es" and new: "get es k = None"
    using Cons.prems e by (auto simp: wf_map_def map_of_eq_None_iff)
  then have "get ?acc f = (if k = ?key then Some v else get acc f)"
    using sanitize_eq_iff [of rt k f] assms(1-4) by (auto simp: go_map)
  moreover have "get (extract_loop rt ?acc es) f =
      (case get es ?key of None \<Rightarrow> get ?acc f | Some v \<Rightarrow> Some v)"
    using Cons.prems wf by (intro Cons.IH) auto
  ultimately show ?case using new e by (auto split: option.splits)
qed simp

text \<open>
  Among parameters whose names are canonical (as \<open>extractPublishParams\<close> makes them), the
  option \<open>f\<close> that \<open>extractRemoteTypeParams\<close> hands to the backend \<open>rt\<close> is the parameter
  \<open>rt_f\<close>, and is absent exactly when that parameter is: the parameters of another backend do
  not leak into it, and the visiting order of the map does not matter.
\<close>

theorem extractRemoteTypeParams_get:
  assumes "canonical_flag rt" and "rt \<noteq> ''''" and "canonical_flag f" and "\<not> HasPrefix f rt"
    and "\<forall>k \<in> fst ` set es. canonical_flag k" and "wf_map es"
  shows "get (extractRemoteTypeParams es rt) f = get es (rt @ ''_'' @ f)"
  using get_extract_loop [OF assms, of "[]"]
  by (simp add: extractRemoteTypeParams_def split: option.splits)

theorem extractRemoteTypeParams_get_witness:
  "get (extractRemoteTypeParams
          [(''s3_bucket'', ''my-bucket''), (''b2_key'', ''abcd1234''), (''s3_region'', ''eu'')] ''s3'')
     ''region'' = Some ''eu''"
  using extractRemoteTypeParams_get
    [of "''s3''" "''region''" "[(''s3_bucket'', ''my-bucket''), (''b2_key'', ''abcd1234''), (''s3_region'', ''eu'')]"]
  by (simp add: is_upper_def wf_map_def)

lemma extract_loop_keys:
  "fst ` set (extract_loop rt acc es) \<subseteq> fst ` set acc \<union> sanitizeFlag rt ` fst ` set es"
  by (induction rt acc es rule: extract_loop.induct) (auto simp: go_map split: if_splits)

lemma canonical_sanitize: "canonical_flag (sanitizeFlag rt k)"
  by (simp add: sanitizeFlag_def canonical_normalize)

lemma canonical_extract:
  "k \<in> fst ` set (extractRemoteTypeParams es rt) \<Longrightarrow> canonical_flag k"
proof -
  assume "k \<in> fst ` set (extractRemoteTypeParams es rt)"
  then have "k \<in> sanitizeFlag rt ` fst ` set es"
    using extract_loop_keys [of rt "[]" es] by (auto simp: extractRemoteTypeParams_def)
  then obtain k' where "k = sanitizeFlag rt k'" by blast
  then show ?thesis by (simp only: canonical_sanitize)
qed

section \<open>Merging\<close>

lemma wf_mergeCopy [simp]: "wf_map (mergeCopy m1 m2)"
  by (simp add: mergeCopy_def)

lemma get_mergeCopy: "wf_map m1 \<Longrightarrow> wf_map m2 \<Longrightarrow> get (mergeCopy m1 m2) = get m1 ++ get m2"
  by (simp add: mergeCopy_def get_put_all)

text \<open>
  \<open>mergeCopy\<close> contains the keys of both maps, and where both have a key the second map
  wins, so that the volume's mount options override its parameters.
\<close>

theorem mergeCopy_get:
  assumes "wf_map m1" and "wf_map m2"
  shows "get (mergeCopy m1 m2) = get m1 ++ get m2"
  using assms by (rule get_mergeCopy)

theorem mergeCopy_get_witness:
  "get (mergeCopy [(''a'', 1), (''b'', 2)] [(''b'', 3), (''c'', 4)]) ''b'' = Some (3 :: nat)"
  using mergeCopy_get [of "[(''a'', 1), (''b'', 2)]" "[(''b'', 3), (''c'', 4)] :: (string \<times> nat) list"]
  by (simp add: wf_map_def)

end
