(* ===== verification/Goconfig.thy ===== *)
theory Goconfig
  imports Go_Prelude
begin

text \<open>
  The INI parser that \<open>parseAllConfigRemotes\<close> calls,
  \<open>vendor/github.com/unknwon/goconfig\<close> (\<open>read.go\<close>, \<open>conf.go\<close>): reading the text line by
  line, the store of sections and keys, and the lookup with its \<open>%(name)s\<close> substitution.
  Comments are read and skipped; the text the parser keeps for writing them back is not
  modelled.  \<open>GetValue\<close> calls itself for every variable it substitutes, without a bound on
  the depth; \<open>fuel\<close> is the depth the goroutine's stack allows, and \<open>None\<close> is running out
  of it.
\<close>

section \<open>The store\<close>

record config_file =
  data :: "(string, params) gomap"
  sectionList :: "string list"
  keyList :: "(string, string list) gomap"

definition newConfigFile :: config_file where
  "newConfigFile = \<lparr>data = [], sectionList = [], keyList = []\<rparr>"

definition DEFAULT_SECTION :: string where
  "DEFAULT_SECTION = ''DEFAULT''"

definition section_or_default :: "string \<Rightarrow> string" where
  "section_or_default sec = (if sec = '''' then DEFAULT_SECTION else sec)"

definition key_list :: "config_file \<Rightarrow> string \<Rightarrow> string list" where
  "key_list c sec = (case get (keyList c) sec of None \<Rightarrow> [] | Some ks \<Rightarrow> ks)"

definition SetValue :: "config_file \<Rightarrow> string \<Rightarrow> string \<Rightarrow> string \<Rightarrow> config_file" where
  "SetValue c section0 key val =
     (let sec = section_or_default section0 in
      if key = '''' then c
      else
        let c1 = (case get (data c) sec of
                    None \<Rightarrow> c\<lparr>data := put sec [] (data c), sectionList := sectionList c @ [sec]\<rparr>
                  | Some _ \<Rightarrow> c);
            kv = (case get (data c1) sec of None \<Rightarrow> [] | Some kv \<Rightarrow> kv);
            c2 = c1\<lparr>data := put sec (put key val kv) (data c1)\<rparr>
        in if get kv key = None
           then c2\<lparr>keyList := put sec (key_list c2 sec @ [key]) (keyList c2)\<rparr>
           else c2)"

definition GetKeyList :: "config_file \<Rightarrow> string \<Rightarrow> string list" where
  "GetKeyList c section0 =
     (let sec = section_or_default section0 in
      case get (data c) sec of
        None \<Rightarrow> []
      | Some _ \<Rightarrow> filter (\<lambda>k. k \<noteq> '' '') (key_list c sec))"

section \<open>Reading\<close>

datatype read_error = BlankSectionName string | CouldNotParse string

fun IndexAny :: "string \<Rightarrow> char set \<Rightarrow> nat option" where
  "IndexAny [] cs = None"
| "IndexAny (x # xs) cs = (if x \<in> cs then Some 0 else map_option Suc (IndexAny xs cs))"

fun LastIndex :: "string \<Rightarrow> string \<Rightarrow> nat option" where
  "LastIndex [] sub = (if sub = [] then Some 0 else None)"
| "LastIndex (c # cs) sub =
     (case LastIndex cs sub of
        Some i \<Rightarrow> Some (Suc i)
      | None \<Rightarrow> if HasPrefix (c # cs) sub then Some 0 else None)"

definition quote3 :: string where
  "quote3 = ''\"\"\"''"

definition key_quote :: "string \<Rightarrow> string" where
  "key_quote line =
     (if hd line = CHR 0x22 then (if 6 \<le> length line \<and> HasPrefix line quote3 then quote3 else [CHR 0x22])
      else if hd line = CHR 0x60 then [CHR 0x60]
      else '''')"

text \<open>The key of a line and the position of its separator.\<close>

definition parse_key :: "string \<Rightarrow> read_error + (string \<times> nat)" where
  "parse_key line =
     (let keyQuote = key_quote line in
      if keyQuote \<noteq> '''' then
        let qLen = length keyQuote in
        case Index (drop qLen line) keyQuote of
          None \<Rightarrow> Inl (CouldNotParse line)
        | Some pos0 \<Rightarrow>
            let pos = pos0 + qLen in
            case IndexAny (drop pos line) {CHR ''='', CHR '':''} of
              None \<Rightarrow> Inl (CouldNotParse line)
            | Some i \<Rightarrow>
                if i = 0 then Inl (CouldNotParse line)
                else Inr (drop qLen (take pos line), i + pos)
      else
        case IndexAny line {CHR ''='', CHR '':''} of
          None \<Rightarrow> Inl (CouldNotParse line)
        | Some i \<Rightarrow>
            if i = 0 then Inl (CouldNotParse line)
            else Inr (TrimSpace (take i line), i))"

definition parse_value :: "string \<Rightarrow> string \<Rightarrow> read_error + string" where
  "parse_value line lineRight =
     (let valQuote =
        (if 2 \<le> length lineRight \<and> hd lineRight = CHR 0x60 then [CHR 0x60]
         else if 6 \<le> length lineRight \<and> HasPrefix lineRight quote3 then quote3
         else '''') in
      if valQuote \<noteq> '''' then
        let qLen = length valQuote in
        case LastIndex (drop qLen lineRight) valQuote of
          None \<Rightarrow> Inl (CouldNotParse line)
        | Some pos \<Rightarrow> Inr (drop qLen (take (pos + qLen) lineRight))
      else Inr (TrimSpace lineRight))"

record read_state =
  cfg :: config_file
  current :: string
  counter :: nat

definition start_read :: read_state where
  "start_read = \<lparr>cfg = newConfigFile, current = DEFAULT_SECTION, counter = 1\<rparr>"

definition read_line :: "read_state \<Rightarrow> string \<Rightarrow> read_error + read_state" where
  "read_line st raw =
     (let line = TrimSpace raw in
      if line = '''' then Inr st
      else if hd line = CHR ''#'' \<or> hd line = CHR '';'' then Inr st
      else if hd line = CHR ''['' \<and> last line = CHR '']'' then
        let sec = TrimSpace (butlast (tl line))
        in Inr (st\<lparr>cfg := SetValue (cfg st) sec '' '' '' '', current := sec, counter := 1\<rparr>)
      else if current st = '''' then Inl (BlankSectionName line)
      else
        case parse_key line of
          Inl e \<Rightarrow> Inl e
        | Inr (key0, i) \<Rightarrow>
            let autokey = (key0 = ''-'');
                key = (if autokey then ''#'' @ show_nat (counter st) else key0)
            in case parse_value line (TrimSpace (drop (i + 1) line)) of
                 Inl e \<Rightarrow> Inl e
               | Inr val \<Rightarrow>
                   Inr (st\<lparr>cfg := SetValue (cfg st) (current st) key val,
                           counter := (if autokey then counter st + 1 else counter st)\<rparr>))"

fun read_lines :: "read_state \<Rightarrow> string list \<Rightarrow> read_error + read_state" where
  "read_lines st [] = Inr st"
| "read_lines st (l # ls) =
     (case read_line st l of Inl e \<Rightarrow> Inl e | Inr st' \<Rightarrow> read_lines st' ls)"

definition strip_bom :: "string \<Rightarrow> string" where
  "strip_bom s = TrimPrefix s [CHR 0xEF, CHR 0xBB, CHR 0xBF]"

definition LoadFromReader :: "string \<Rightarrow> read_error + config_file" where
  "LoadFromReader s =
     (case read_lines start_read (Split (strip_bom s) (CHR 0x0A)) of
        Inl e \<Rightarrow> Inl e
      | Inr st \<Rightarrow> Inr (cfg st))"

section \<open>Looking a value up\<close>

text \<open>The leftmost match of the regular expression \<open>%\([^)]+\)s\<close>.\<close>

definition var_here :: "string \<Rightarrow> string option" where
  "var_here s =
     (let body = takeWhile (\<lambda>c. c \<noteq> CHR '')'') (drop 2 s) in
      if HasPrefix s ''%('' \<and> body \<noteq> '''' \<and> HasPrefix (drop (2 + length body) s) '')s''
      then Some (''%('' @ body @ '')s'') else None)"

fun find_var :: "string \<Rightarrow> string option" where
  "find_var [] = None"
| "find_var (c # cs) =
     (case var_here (c # cs) of Some v \<Rightarrow> Some v | None \<Rightarrow> find_var cs)"

definition var_name :: "string \<Rightarrow> string" where
  "var_name vr =
     (let noption = dropWhile (\<lambda>c. c = CHR ''%'' \<or> c = CHR ''('') vr
      in rev (dropWhile (\<lambda>c. c = CHR '')'' \<or> c = CHR ''s'') (rev noption)))"

datatype get_error = SectionNotFound string | KeyNotFound string

definition depth_values :: nat where
  "depth_values = 200"

function (sequential) GetValue ::
    "nat \<Rightarrow> config_file \<Rightarrow> string \<Rightarrow> string \<Rightarrow> (get_error + string) option"
  and expand ::
    "nat \<Rightarrow> config_file \<Rightarrow> string \<Rightarrow> nat \<Rightarrow> string \<Rightarrow> (get_error + string) option" where
  "GetValue 0 c section0 key = None"
| "GetValue (Suc fuel) c section0 key =
     (let sec = section_or_default section0 in
      case get (data c) sec of
        None \<Rightarrow> Some (Inl (SectionNotFound sec))
      | Some kv \<Rightarrow>
          (case get kv key of
             None \<Rightarrow>
               (case LastIndex sec ''.'' of
                  Some i \<Rightarrow> GetValue fuel c (take i sec) key
                | None \<Rightarrow> Some (Inl (KeyNotFound key)))
           | Some val \<Rightarrow> expand fuel c sec depth_values val))"
| "expand fuel c sec 0 val = Some (Inr val)"
| "expand fuel c sec (Suc n) val =
     (case find_var val of
        None \<Rightarrow> Some (Inr val)
      | Some vr \<Rightarrow>
          (case GetValue fuel c DEFAULT_SECTION (var_name vr) of
             None \<Rightarrow> None
           | Some (Inr nvalue) \<Rightarrow> expand fuel c sec n (ReplaceAll val vr nvalue)
           | Some (Inl e) \<Rightarrow>
               let nvalue = (if sec \<noteq> DEFAULT_SECTION
                             then get_str (case get (data c) sec of None \<Rightarrow> [] | Some kv \<Rightarrow> kv)
                                    (var_name vr)
                             else '''')
               in expand fuel c sec n (ReplaceAll val vr nvalue)))"
  by pat_completeness auto
termination
  by (relation "measures
        [case_sum (\<lambda>(fuel, c, s, k). 2 * fuel) (\<lambda>(fuel, c, s, n, v). 2 * fuel + 1),
         case_sum (\<lambda>_. 0) (\<lambda>(fuel, c, s, n, v). n)]") auto

declare GetValue.simps(2) [simp del] expand.simps(2) [simp del]

end
