(* ===== verification/Config_Data.thy ===== *)
theory Config_Data
  imports Flags Goconfig
begin

text \<open>
  The rclone configuration of a volume as text: \<open>parseAllConfigRemotes\<close> of
  \<open>pkg/rclone/utils.go\<close>, which turns the INI text into sections, and its agreement with
  the text that \<open>generateRecloneConfigFromParams\<close> writes.
\<close>

section \<open>Definitions\<close>

fun read_error_text :: "read_error \<Rightarrow> string" where
  "read_error_text (BlankSectionName l) = ''empty section name not allowed''"
| "read_error_text (CouldNotParse l) = ''could not parse line: '' @ l"

fun section_data ::
    "nat \<Rightarrow> config_file \<Rightarrow> string \<Rightarrow> params \<Rightarrow> string list \<Rightarrow> params option" where
  "section_data fuel gc sectionName sectionData [] = Some sectionData"
| "section_data fuel gc sectionName sectionData (key # ks) =
     (case GetValue fuel gc sectionName key of
        None \<Rightarrow> None
      | Some (Inl e) \<Rightarrow> section_data fuel gc sectionName sectionData ks
      | Some (Inr val) \<Rightarrow> section_data fuel gc sectionName (put key val sectionData) ks)"

fun all_sections ::
    "nat \<Rightarrow> config_file \<Rightarrow> (string, params) gomap \<Rightarrow> string list \<Rightarrow> (string, params) gomap option" where
  "all_sections fuel gc allSections [] = Some allSections"
| "all_sections fuel gc allSections (sectionName # ss) =
     (if sectionName = DEFAULT_SECTION then all_sections fuel gc allSections ss
      else case section_data fuel gc sectionName [] (GetKeyList gc sectionName) of
             None \<Rightarrow> None
           | Some sectionData \<Rightarrow> all_sections fuel gc (put sectionName sectionData allSections) ss)"

definition parseAllConfigRemotes ::
    "nat \<Rightarrow> string \<Rightarrow> (string + (string, params) gomap) option" where
  "parseAllConfigRemotes fuel configData =
     (case LoadFromReader configData of
        Inl e \<Rightarrow> Some (Inl (''failed to parse config data: '' @ read_error_text e))
      | Inr gc \<Rightarrow> map_option Inr (all_sections fuel gc [] (sectionList gc)))"

section \<open>Sections and keys of a parsed file\<close>

lemma wf_section_data:
  "section_data fuel gc s acc ks = Some m \<Longrightarrow> wf_map acc \<Longrightarrow> wf_map m"
  by (induction fuel gc s acc ks rule: section_data.induct) (auto split: option.splits sum.splits)

lemma wf_all_sections:
  "all_sections fuel gc acc ss = Some m \<Longrightarrow> wf_map acc \<Longrightarrow> wf_map m"
  by (induction fuel gc acc ss rule: all_sections.induct) (auto split: option.splits if_splits)

lemma inner_all_sections:
  "all_sections fuel gc acc ss = Some m \<Longrightarrow> \<forall>d \<in> snd ` set acc. wf_map d \<Longrightarrow> \<forall>d \<in> snd ` set m. wf_map d"
proof (induction fuel gc acc ss rule: all_sections.induct)
  case (2 fuel gc acc sec ss)
  show ?case
  proof (cases "sec = DEFAULT_SECTION")
    case False
    then obtain d where d: "section_data fuel gc sec [] (GetKeyList gc sec) = Some d"
      and m: "all_sections fuel gc (put sec d acc) ss = Some m"
      using 2(3) by (auto split: option.splits)
    have "wf_map d" using wf_section_data [OF d] by simp
    moreover have "set (put sec d acc) \<subseteq> insert (sec, d) (set acc)"
      by (induction acc) auto
    ultimately have "\<forall>d \<in> snd ` set (put sec d acc). wf_map d" using 2(4) by fastforce
    from 2(2) [OF False d m this] show ?thesis .
  qed (use 2 in simp)
qed simp

lemma all_sections_keys:
  "all_sections fuel gc acc ss = Some m \<Longrightarrow>
     fst ` set m = fst ` set acc \<union> (set ss - {DEFAULT_SECTION})"
  by (induction fuel gc acc ss rule: all_sections.induct)
    (auto simp: go_map split: option.splits if_splits)

lemma parse_wf: "parseAllConfigRemotes fuel s = Some (Inr m) \<Longrightarrow> wf_map m"
  by (auto simp: parseAllConfigRemotes_def split: sum.splits dest: wf_all_sections)

lemma parse_inner_wf:
  "parseAllConfigRemotes fuel s = Some (Inr m) \<Longrightarrow> get m n = Some d \<Longrightarrow> wf_map d"
  by (auto simp: parseAllConfigRemotes_def split: sum.splits
      dest!: inner_all_sections map_of_SomeD) force

text \<open>
  The section \<open>DEFAULT\<close>, which holds the keys before the first header, never becomes a
  remote.
\<close>

theorem parse_skips_default:
  assumes "parseAllConfigRemotes fuel configData = Some (Inr remotes)"
  shows "''DEFAULT'' \<notin> fst ` set remotes"
proof -
  obtain gc where "all_sections fuel gc [] (sectionList gc) = Some remotes"
    using assms by (auto simp: parseAllConfigRemotes_def split: sum.splits)
  from all_sections_keys [OF this] show ?thesis by (simp add: DEFAULT_SECTION_def)
qed

theorem parse_skips_default_witness:
  "''DEFAULT'' \<notin> fst ` set [(''s3'', [(''type'', ''s3'')])]"
proof -
  have "parseAllConfigRemotes 1 ''base = eu\<newline>[s3]\<newline>type = s3\<newline>'' = Some (Inr [(''s3'', [(''type'', ''s3'')])])"
    by code_simp
  then show ?thesis by (rule parse_skips_default)
qed

section \<open>Reading generated text\<close>

text \<open>
  The texts that survive the trip: no line break and no white space at the ends; for a
  value, neither a leading quote nor a \<open>%(name)s\<close> variable; for a key, in addition, no
  separator, no leading comment, section or quote character, and not the automatic key.
\<close>

definition plain_text :: "string \<Rightarrow> bool" where
  "plain_text s \<longleftrightarrow> trimmed s \<and> CHR 0x0A \<notin> set s"

definition plain_value :: "string \<Rightarrow> bool" where
  "plain_value s \<longleftrightarrow> plain_text s \<and> find_var s = None
     \<and> \<not> HasPrefix s [CHR 0x60] \<and> \<not> HasPrefix s quote3"

definition plain_key :: "string \<Rightarrow> bool" where
  "plain_key s \<longleftrightarrow> plain_text s \<and> s \<noteq> '''' \<and> s \<noteq> ''-''
     \<and> CHR ''='' \<notin> set s \<and> CHR '':'' \<notin> set s
     \<and> hd s \<notin> {CHR ''#'', CHR '';'', CHR ''['', CHR 0x22, CHR 0x60}"

definition plain_section :: "string \<Rightarrow> bool" where
  "plain_section s \<longleftrightarrow> plain_text s \<and> s \<noteq> '''' \<and> s \<noteq> ''DEFAULT''"

lemma trimmed_append:
  "trimmed s \<Longrightarrow> trimmed t \<Longrightarrow> s \<noteq> [] \<Longrightarrow> t \<noteq> [] \<Longrightarrow> trimmed (s @ u @ t)"
  by (auto simp: trimmed_def)

lemma IndexAny_skip:
  "\<forall>x \<in> set s. x \<notin> cs \<Longrightarrow> c \<in> cs \<Longrightarrow> IndexAny (s @ c # t) cs = Some (length s)"
  by (induction s) auto

text \<open>The text \<open>key = value\<close> of one entry, as the reader sees it after trimming.\<close>

lemma TrimSpace_entry:
  assumes "plain_key k" and "plain_text v"
  shows "TrimSpace (k @ '' = '' @ v) = (if v = '''' then k @ '' ='' else k @ '' = '' @ v)"
proof (cases "v = []")
  case True
  have "trimmed (k @ '' ='')"
    using assms(1) by (auto simp: plain_key_def plain_text_def trimmed_def is_space_def)
  then show ?thesis
    using True TrimSpace_pad_right [of "CHR '' ''" "k @ '' =''"] by (simp add: TrimSpace_trimmed)
next
  case False
  then have "trimmed (k @ '' = '' @ v)"
    using assms by (intro trimmed_append) (auto simp: plain_key_def plain_text_def)
  then show ?thesis using False by (simp add: TrimSpace_trimmed)
qed

lemma parse_key_entry:
  assumes "plain_key k" and "line = k @ '' ='' @ u"
  shows "parse_key line = Inr (k, length k + 1)"
proof -
  have "k \<noteq> []" and q: "key_quote line = []"
    using assms by (auto simp: plain_key_def key_quote_def)
  have "IndexAny ((k @ '' '') @ CHR ''='' # u) {CHR ''='', CHR '':''} = Some (length (k @ '' ''))"
    using assms(1) by (intro IndexAny_skip) (auto simp: plain_key_def)
  then have "IndexAny line {CHR ''='', CHR '':''} = Some (length k + 1)"
    using assms(2) by simp
  moreover have "TrimSpace (take (length k + 1) line) = k"
    using assms TrimSpace_pad_right [of "CHR '' ''" k]
    by (simp add: TrimSpace_trimmed plain_key_def plain_text_def)
  ultimately show ?thesis using q by (simp add: parse_key_def)
qed

lemma parse_value_plain:
  assumes "plain_value v"
  shows "parse_value line v = Inr v"
  using assms
  by (cases v)
    (auto simp: parse_value_def plain_value_def plain_text_def TrimSpace_trimmed)

lemma read_line_entry:
  assumes "plain_key k" and "plain_value v" and "current st \<noteq> ''''"
  shows "read_line st (k @ '' = '' @ v) = Inr (st\<lparr>cfg := SetValue (cfg st) (current st) k v\<rparr>)"
proof -
  have pt: "plain_text v" using assms(2) by (simp add: plain_value_def)
  define line where "line = TrimSpace (k @ '' = '' @ v)"
  obtain u where u: "line = k @ '' ='' @ u" and uv: "TrimSpace u = v"
  proof (cases "v = []")
    case True
    with TrimSpace_entry [OF assms(1) pt] that [of "''''"] show ?thesis by (simp add: line_def)
  next
    case False
    with TrimSpace_entry [OF assms(1) pt] that [of "'' '' @ v"] pt TrimSpace_pad_left [of "CHR '' ''" v]
    show ?thesis by (simp add: line_def TrimSpace_trimmed plain_text_def)
  qed
  have k: "k \<noteq> []" "hd k \<notin> {CHR ''#'', CHR '';'', CHR ''[''}" "k \<noteq> ''-''"
    using assms(1) by (auto simp: plain_key_def)
  have "drop (length k + 1 + 1) line = u" by (simp add: u)
  moreover have "line \<noteq> []" and "hd line = hd k" using k(1) by (simp_all add: u)
  ultimately show ?thesis
    using k assms(3) parse_key_entry [OF assms(1) u] parse_value_plain [OF assms(2)] uv
    unfolding read_line_def line_def [symmetric] by (auto simp: Let_def)
qed

text \<open>A file with one section, whose list of keys is that of its entries.\<close>

definition one_section :: "string \<Rightarrow> params \<Rightarrow> config_file" where
  "one_section s kv = \<lparr>data = [(s, kv)], sectionList = [s], keyList = [(s, keys kv)]\<rparr>"

lemma SetValue_one_section:
  assumes "s \<noteq> ''''" and "k \<noteq> ''''" and "kv \<noteq> []"
  shows "SetValue (one_section s kv) s k v = one_section s (put k v kv)"
  using assms
  by (auto simp: SetValue_def one_section_def section_or_default_def key_list_def Let_def
      update_keys map_of_eq_None_iff)

lemma SetValue_first:
  "s \<noteq> '''' \<Longrightarrow> SetValue newConfigFile s '' '' '' '' = one_section s [('' '', '' '')]"
  by (simp add: SetValue_def newConfigFile_def one_section_def section_or_default_def key_list_def Let_def)

lemma read_line_header:
  assumes "plain_section s"
  shows "read_line start_read (''['' @ s @ '']'') =
     Inr \<lparr>cfg = one_section s [('' '', '' '')], current = s, counter = 1\<rparr>"
proof -
  have "trimmed (''['' @ s @ '']'')" by (simp add: trimmed_def is_space_def)
  moreover have "trimmed s" "s \<noteq> []" using assms by (auto simp: plain_section_def plain_text_def)
  ultimately show ?thesis
    by (simp add: read_line_def TrimSpace_trimmed start_read_def SetValue_first Let_def)
qed

definition entry_line :: "string \<times> string \<Rightarrow> string" where
  "entry_line e = fst e @ '' = '' @ snd e"

lemma read_entries:
  assumes "\<forall>e \<in> set es. plain_key (fst e) \<and> plain_value (snd e)" and "s \<noteq> ''''" and "kv \<noteq> []"
  shows "read_lines \<lparr>cfg = one_section s kv, current = s, counter = 1\<rparr> (List.map entry_line es @ [''''])
    = Inr \<lparr>cfg = one_section s (put_all kv es), current = s, counter = 1\<rparr>"
  using assms(1,3)
proof (induction es arbitrary: kv)
  case Nil
  then show ?case by (simp add: read_line_def Let_def)
next
  case (Cons e es)
  obtain k v where e: "e = (k, v)" by (cases e)
  have "plain_key k" and "plain_value v" and "k \<noteq> []"
    using Cons.prems(1) e by (auto simp: plain_key_def)
  then show ?case
    using Cons e assms(2) update_nonempty [of k v kv]
    by (simp add: entry_line_def read_line_entry [simplified] SetValue_one_section)
qed

lemma Split_lines:
  assumes "\<forall>e \<in> set es. CHR 0x0A \<notin> set (fst e) \<and> CHR 0x0A \<notin> set (snd e)"
  shows "Split (config_lines es) (CHR 0x0A) = List.map entry_line es @ ['''']"
  using assms
proof (induction es)
  case (Cons e es)
  obtain k v where e: "e = (k, v)" by (cases e)
  then have "CHR 0x0A \<notin> set (entry_line (k, v))" using Cons.prems by (simp add: entry_line_def)
  from Split_append [OF this, of "config_lines es"] show ?case
    using Cons e by (simp add: entry_line_def)
qed simp

lemma Split_generated:
  assumes "\<forall>e \<in> set es. CHR 0x0A \<notin> set (fst e) \<and> CHR 0x0A \<notin> set (snd e)"
    and "CHR 0x0A \<notin> set rt" and "CHR 0x0A \<notin> set s"
  shows "Split (generateRecloneConfigFromParams es rt s) (CHR 0x0A) =
    (''['' @ s @ '']'') # List.map entry_line ((''type'', rt) # es) @ ['''']"
proof -
  have eq: "generateRecloneConfigFromParams es rt s
      = (''['' @ s @ '']'') @ CHR 0x0A # config_lines ((''type'', rt) # es)"
    by (simp add: generateRecloneConfigFromParams_def)
  have "CHR 0x0A \<notin> set (''['' @ s @ '']'')" using assms(3) by simp
  moreover have "Split (config_lines ((''type'', rt) # es)) (CHR 0x0A)
      = List.map entry_line ((''type'', rt) # es) @ ['''']"
    using assms(1,2) by (intro Split_lines) auto
  ultimately show ?thesis unfolding eq by (subst Split_append) simp_all
qed

lemma strip_bom_generated:
  "strip_bom (generateRecloneConfigFromParams es rt s) = generateRecloneConfigFromParams es rt s"
  by (simp add: strip_bom_def TrimPrefix_def generateRecloneConfigFromParams_def)

lemma plain_key_type: "plain_key ''type''"
  by (simp add: plain_key_def plain_text_def trimmed_def is_space_def)

lemma Load_generated:
  assumes "\<forall>e \<in> set es. plain_key (fst e) \<and> plain_value (snd e)"
    and "plain_value rt" and "plain_section s"
  shows "LoadFromReader (generateRecloneConfigFromParams es rt s)
    = Inr (one_section s (put_all [('' '', '' '')] ((''type'', rt) # es)))"
proof -
  let ?es = "(''type'', rt) # es"
  have "s \<noteq> []" using assms(3) by (simp add: plain_section_def)
  have "Split (generateRecloneConfigFromParams es rt s) (CHR 0x0A)
      = (''['' @ s @ '']'') # List.map entry_line ?es @ ['''']"
    using assms by (intro Split_generated)
      (auto simp: plain_key_def plain_value_def plain_section_def plain_text_def)
  moreover have "\<forall>e \<in> set ?es. plain_key (fst e) \<and> plain_value (snd e)"
    using assms(1,2) plain_key_type by simp
  note read_entries [OF this \<open>s \<noteq> []\<close>, of "[('' '', '' '')]"]
  ultimately show ?thesis
    using read_line_header [OF assms(3)]
    by (simp add: LoadFromReader_def strip_bom_generated)
qed

lemma GetValue_one_section:
  assumes "s \<noteq> ''''" and "get kv k = Some v" and "find_var v = None"
  shows "GetValue (Suc fuel) (one_section s kv) s k = Some (Inr v)"
  using assms
  by (simp add: GetValue.simps one_section_def section_or_default_def expand.simps
      depth_values_def numeral_eq_Suc)

lemma section_data_plain:
  assumes "s \<noteq> ''''" and "\<forall>k \<in> set ks. \<exists>v. get kv k = Some v \<and> find_var v = None"
  shows "section_data (Suc fuel) (one_section s kv) s acc ks
    = Some (put_all acc (List.map (\<lambda>k. (k, the (get kv k))) ks))"
  using assms(2)
proof (induction ks arbitrary: acc)
  case (Cons k ks)
  then obtain v where v: "get kv k = Some v" "find_var v = None" by auto
  then show ?case
    using Cons GetValue_one_section [OF assms(1) v, of fuel] by simp
qed simp

lemma get_of_keys:
  "get (List.map (\<lambda>k. (k, the (get kv k))) ks) k = (if k \<in> set ks then Some (the (get kv k)) else None)"
  by (induction ks) auto

lemma in_keys_iff: "k \<in> set (keys kv) \<longleftrightarrow> (\<exists>v. get kv k = Some v)"
  by (metis list.set_map map_of_eq_None_iff not_Some_eq)

lemma get_of_filtered_keys:
  "get (List.map (\<lambda>k. (k, the (get kv k))) (filter P (keys kv))) k = (if P k then get kv k else None)"
  using in_keys_iff [of k kv] by (auto simp: get_of_keys)

lemma parse_generated:
  assumes "wf_map es" and "\<forall>e \<in> set es. plain_key (fst e) \<and> plain_value (snd e)"
    and "plain_value rt" and "plain_section s"
  shows "\<exists>m. parseAllConfigRemotes (Suc fuel) (generateRecloneConfigFromParams es rt s)
           = Some (Inr [(s, m)])
         \<and> get m = [''type'' \<mapsto> rt] ++ get es"
proof -
  let ?kv = "put_all [('' '', '' '')] ((''type'', rt) # es)"
  let ?ks = "filter (\<lambda>k. k \<noteq> '' '') (keys ?kv)"
  define m where "m = put_all [] (List.map (\<lambda>k. (k, the (get ?kv k))) ?ks)"
  have s: "s \<noteq> []" "s \<noteq> ''DEFAULT''" using assms(4) by (auto simp: plain_section_def)
  have kv: "get ?kv = [''type'' \<mapsto> rt, '' '' \<mapsto> '' ''] ++ get es"
    using get_put_all [OF assms(1)] by (simp add: get_put)
  have vals: "\<exists>v. get ?kv k = Some v \<and> find_var v = None" if "k \<in> set ?ks" for k
  proof -
    have "k \<noteq> '' ''" and "k \<in> set (keys ?kv)" using that by auto
    then obtain v where v: "get ?kv k = Some v" using in_keys_iff by metis
    then have "([''type'' \<mapsto> rt, '' '' \<mapsto> '' ''] ++ get es) k = Some v" by (simp only: kv)
    then have "get es k = Some v \<or> v = rt"
      using \<open>k \<noteq> '' ''\<close> by (auto simp: map_add_def split: option.splits if_splits)
    then have "find_var v = None"
      using assms(2,3) by (fastforce simp: plain_value_def dest: map_of_SomeD)
    with v show ?thesis by blast
  qed
  have "GetKeyList (one_section s ?kv) s = ?ks"
    using s by (simp add: GetKeyList_def one_section_def section_or_default_def key_list_def)
  then have "section_data (Suc fuel) (one_section s ?kv) s [] (GetKeyList (one_section s ?kv) s) = Some m"
    using section_data_plain [OF s(1), of ?ks ?kv fuel "[]"] vals by (simp add: m_def)
  then have parsed: "parseAllConfigRemotes (Suc fuel) (generateRecloneConfigFromParams es rt s)
      = Some (Inr [(s, m)])"
    using Load_generated [OF assms(2,3,4)] s
    by (simp add: parseAllConfigRemotes_def DEFAULT_SECTION_def one_section_def)
  have blank: "get es '' '' = None"
    using assms(2) by (fastforce simp: map_of_eq_None_iff plain_key_def plain_text_def trimmed_def)
  have "get m k = ([''type'' \<mapsto> rt] ++ get es) k" for k
  proof -
    have "wf_map (List.map (\<lambda>k. (k, the (get ?kv k))) ?ks)"
      using wf_put_all [of "[('' '', '' '')]" "(''type'', rt) # es"]
      by (simp add: wf_map_def comp_def)
    then have "get m k = (if k \<noteq> '' '' then get ?kv k else None)"
      unfolding m_def by (simp add: get_put_all get_of_filtered_keys)
    then show ?thesis using blank by (auto simp only: kv) (auto simp: map_add_def split: option.splits)
  qed
  with parsed show ?thesis by auto
qed

text \<open>
  C23: Round trip of the generated configuration.  For a backend, a remote name and options
  that fit on an INI line, parsing the text that \<open>generateRecloneConfigFromParams\<close> writes
  gives exactly one remote, with that name, whose type is the backend (unless an option
  named \<open>type\<close> overrides it) and whose other keys are the options.
\<close>

theorem generated_config_roundtrip:
  assumes "wf_map es" and "\<forall>e \<in> set es. plain_key (fst e) \<and> plain_value (snd e)"
    and "plain_value rt" and "plain_section s"
  shows "\<exists>m. parseAllConfigRemotes (Suc fuel) (generateRecloneConfigFromParams es rt s)
           = Some (Inr [(s, m)])
         \<and> get m = [''type'' \<mapsto> rt] ++ get es"
  using assms by (rule parse_generated)

theorem generated_config_roundtrip_witness:
  "map_option (map_sum id (List.map fst))
     (parseAllConfigRemotes 1 (generateRecloneConfigFromParams
        [(''provider'', ''Minio''), (''endpoint'', ''http://localhost:9000'')] ''s3'' ''minio-sample''))
   = Some (Inr [''minio-sample''])"
proof -
  let ?es = "[(''provider'', ''Minio''), (''endpoint'', ''http://localhost:9000'')]"
  have "wf_map ?es" by code_simp
  moreover have "\<forall>e \<in> set ?es. plain_key (fst e) \<and> plain_value (snd e)" by code_simp
  moreover have "plain_value ''s3''" and "plain_section ''minio-sample''" by code_simp+
  ultimately show ?thesis
    using generated_config_roundtrip [of ?es "''s3''" "''minio-sample''" 0] by auto
qed

section \<open>Two texts the driver does not survive or does not mean\<close>

definition self_reference :: string where
  "self_reference = ''a = %(a)s\<newline>[s3]\<newline>type = %(a)s\<newline>''"

lemma load_self_reference:
  "LoadFromReader self_reference =
     Inr \<lparr>data = [(''DEFAULT'', [(''a'', ''%(a)s'')]), (''s3'', [('' '', '' ''), (''type'', ''%(a)s'')])],
          sectionList = [''DEFAULT'', ''s3''],
          keyList = [(''DEFAULT'', [''a'']), (''s3'', ['' '', ''type''])]\<rparr>"
  by code_simp

lemma GetValue_self_reference:
  assumes "get (data c) DEFAULT_SECTION = Some [(''a'', ''%(a)s'')]"
  shows "GetValue fuel c DEFAULT_SECTION ''a'' = None"
    and "expand fuel c sec (Suc n) ''%(a)s'' = None"
proof -
  have v: "var_here ''%(a)s'' = Some ''%(a)s''" and n: "var_name ''%(a)s'' = ''a''" by code_simp+
  have d: "section_or_default DEFAULT_SECTION = DEFAULT_SECTION"
    by (simp add: section_or_default_def)
  show g: "GetValue fuel c DEFAULT_SECTION ''a'' = None" for fuel
  proof (induction fuel)
    case (Suc fuel)
    then have "expand fuel c DEFAULT_SECTION (Suc m) ''%(a)s'' = None" for m
      by (simp add: expand.simps(2) v n)
    from this [of 199] show ?case using assms d
      by (simp add: GetValue.simps(2) depth_values_def)
  qed simp
  show "expand fuel c sec (Suc n) ''%(a)s'' = None"
    by (simp add: expand.simps(2) v n g)
qed

text \<open>
  A \<open>configData\<close> in which a variable of the default section refers to itself makes the
  lookup recurse without end: no depth of stack is enough, so the driver process dies of
  stack exhaustion and takes the mounts of every volume of the node with it.
\<close>

theorem self_reference_exhausts_stack:
  "parseAllConfigRemotes fuel self_reference = None"
proof (cases fuel)
  case 0
  then show ?thesis
    by (simp add: parseAllConfigRemotes_def load_self_reference DEFAULT_SECTION_def
        GetKeyList_def section_or_default_def key_list_def)
next
  case (Suc f)
  let ?c = "\<lparr>data = [(''DEFAULT'', [(''a'', ''%(a)s'')]), (''s3'', [('' '', '' ''), (''type'', ''%(a)s'')])],
          sectionList = [''DEFAULT'', ''s3''],
          keyList = [(''DEFAULT'', [''a'']), (''s3'', ['' '', ''type''])]\<rparr>"
  have "expand f ?c ''s3'' (Suc 199) ''%(a)s'' = None"
    by (rule GetValue_self_reference(2)) (simp add: DEFAULT_SECTION_def)
  then have "GetValue (Suc f) ?c ''s3'' ''type'' = None"
    by (simp add: GetValue.simps(2) section_or_default_def depth_values_def)
  then show ?thesis using Suc
    by (simp add: parseAllConfigRemotes_def load_self_reference DEFAULT_SECTION_def
        GetKeyList_def section_or_default_def key_list_def)
qed

text \<open>
  An option value with a line break is written into the configuration as it is, so it
  can open a section of its own: the parameters of one volume then define a second remote.
\<close>

theorem line_break_injects_section:
  "map_option (map_sum id (List.map fst))
     (parseAllConfigRemotes 1 (generateRecloneConfigFromParams
        [(''region'', ''eu\<newline>[other]\<newline>type = local'')] ''s3'' ''mine''))
   = Some (Inr [''mine'', ''other''])"
  by code_simp

end
