(* ===== verification/Publish_Params.thy ===== *)
theory Publish_Params
  imports Controller Config_Data
begin

text \<open>
  The parameters of a publish call, \<open>pkg/rclone/nodeserver.go\<close>: validation of the requests,
  the merge of secrets and volume context, the mount group, the extraction of the remote and
  of the options for rclone, the mount flags, the generated configuration and the path of
  the file system.  These are pure functions of the request; the stateful part of the
  handler is in \<open>Node_Server\<close>.
\<close>

section \<open>Requests\<close>

record publish_request =
  pr_volume_id :: string
  pr_target_path :: string
  pr_capability :: "volume_capability option"
  pr_readonly :: bool
  pr_secrets :: "params option"
  pr_volume_context :: params

record unpublish_request =
  ur_volume_id :: string
  ur_target_path :: string

definition validatePublishVolumeRequest :: "publish_request \<Rightarrow> go_error option" where
  "validatePublishVolumeRequest req =
     (if pr_volume_id req = ''''
      then Some (StatusError InvalidArgument ''Volume ID missing in request'')
      else if pr_target_path req = ''''
      then Some (StatusError InvalidArgument ''Target path not provided'')
      else if pr_capability req = None
      then Some (StatusError InvalidArgument ''Volume capability missing in request'')
      else None)"

definition validateUnpublishVolumeRequest :: "unpublish_request \<Rightarrow> go_error option" where
  "validateUnpublishVolumeRequest req =
     (if ur_volume_id req = ''''
      then Some (StatusError InvalidArgument ''Volume ID missing in request'')
      else if ur_target_path req = ''''
      then Some (StatusError InvalidArgument ''Target path missing in request'')
      else None)"

definition GetMount :: "volume_capability option \<Rightarrow> mount_volume option" where
  "GetMount c = (case c of Some (MountVolume m) \<Rightarrow> Some m | _ \<Rightarrow> None)"

section \<open>Merging the parameters\<close>

definition paramBackendType :: string where "paramBackendType = ''remoteType''"
definition paramVolumeMountGroup :: string where "paramVolumeMountGroup = ''gid''"
definition paramVolumeMountUser :: string where "paramVolumeMountUser = ''uid''"
definition paramVolumeMountAllowOther :: string where "paramVolumeMountAllowOther = ''allow_other''"

definition reservedParams :: "string \<Rightarrow> bool" where
  "reservedParams k \<longleftrightarrow> k \<in> {paramRemote, paramRemotePath, paramConfigData, paramBackendType}"

definition mergeVolumeParameters :: "(params \<Rightarrow> params) \<Rightarrow> publish_request \<Rightarrow> params" where
  "mergeVolumeParameters rng req =
     (let params0 = (case pr_secrets req of None \<Rightarrow> [] | Some secrets \<Rightarrow> put_all [] (rng secrets))
      in put_all params0 (rng (pr_volume_context req)))"

text \<open>The mount flags of the request, with the read-only flag appended.\<close>

definition request_mount_options :: "publish_request \<Rightarrow> string list" where
  "request_mount_options req =
     (case GetMount (pr_capability req) of
        None \<Rightarrow> []
      | Some m \<Rightarrow> mount_flags m @ (if pr_readonly req then [''read-only''] else []))"

text \<open>The group of the pod's security context, passed on as group, user and access flag.\<close>

definition add_mount_group :: "publish_request \<Rightarrow> params \<Rightarrow> params" where
  "add_mount_group req params0 =
     (case GetMount (pr_capability req) of
        None \<Rightarrow> params0
      | Some m \<Rightarrow>
          let g = volume_mount_group m in
          if g \<noteq> ''''
          then put paramVolumeMountAllowOther ''true''
                 (put paramVolumeMountUser g (put paramVolumeMountGroup g params0))
          else params0)"

record publish_volume_params =
  remoteName :: string
  remotePath :: string
  configData :: string
  remoteType :: string
  pvp_params :: params

fun copy_params :: "params \<Rightarrow> params \<Rightarrow> go_error + params" where
  "copy_params acc [] = Inr acc"
| "copy_params acc ((k, v) # es) =
     (if reservedParams k then copy_params acc es
      else
        let rcloneKey = normalizeRcloneFlag k in
        if rcloneKey = ''''
        then Inl (StatusError InvalidArgument (''invalid parameter name: '' @ k))
        else copy_params (put rcloneKey v acc) es)"

definition extractPublishParams :: "params \<Rightarrow> go_error + publish_volume_params" where
  "extractPublishParams params0 =
     (let remote = get_str params0 paramRemote;
          cdata = get_str params0 paramConfigData;
          rtype = get_str params0 paramBackendType
      in if remote = ''''
         then Inl (StatusError InvalidArgument
                ''remote is required (provide via volumeAttributes or secrets)'')
         else if cdata = '''' \<and> rtype = ''''
         then Inl (StatusError InvalidArgument ''either configData or remoteType must be provided'')
         else case copy_params [] params0 of
           Inl e \<Rightarrow> Inl e
         | Inr p \<Rightarrow> Inr \<lparr>remoteName = remote, remotePath = get_str params0 paramRemotePath,
                         configData = cdata, remoteType = rtype, pvp_params = p\<rparr>)"

section \<open>Configuration, path and mount flags\<close>

definition generateConfigData ::
    "(params \<Rightarrow> params) \<Rightarrow> publish_volume_params \<Rightarrow> go_error + publish_volume_params" where
  "generateConfigData rng pvp =
     (let pvp1 =
        (if configData pvp = '''' \<and> remoteType pvp \<noteq> '''' then
           let remoteParams = extractRemoteTypeParams (rng (pvp_params pvp)) (remoteType pvp) in
           if remoteParams \<noteq> []
           then pvp\<lparr>configData := generateRecloneConfigFromParams (rng remoteParams)
                                     (remoteType pvp) (remoteName pvp)\<rparr>
           else pvp
         else pvp)
      in if configData pvp1 = ''''
         then Inl (StatusError InvalidArgument ''failed to parse configData'')
         else Inr pvp1)"

definition buildFsPath :: "string \<Rightarrow> string \<Rightarrow> string" where
  "buildFsPath remote path = (if path \<noteq> '''' then remote @ '':'' @ path else remote @ '':'')"

fun mount_options_loop :: "params \<Rightarrow> string list \<Rightarrow> string + params" where
  "mount_options_loop acc [] = Inr acc"
| "mount_options_loop acc (opt # os) =
     (if Contains opt ''='' then
        let parts = SplitN2 opt ''='' in
        if length parts \<noteq> 2 then Inl (''invalid mount option format: '' @ opt)
        else mount_options_loop (put (normalizeRcloneFlag (parts ! 0)) (parts ! 1) acc) os
      else mount_options_loop (put (normalizeRcloneFlag opt) ''true'' acc) os)"

definition extractVolumeMountOptions :: "string list \<Rightarrow> string + params" where
  "extractVolumeMountOptions mountOptions = mount_options_loop [] mountOptions"

section \<open>Precedence\<close>

lemma wf_mergeVolumeParameters [simp]: "wf_map (mergeVolumeParameters rng req)"
  by (simp add: mergeVolumeParameters_def Let_def split: option.split)

lemma wf_add_mount_group [simp]: "wf_map p \<Longrightarrow> wf_map (add_mount_group req p)"
  by (simp add: add_mount_group_def Let_def split: option.split)

definition secrets_map :: "publish_request \<Rightarrow> params" where
  "secrets_map req = (case pr_secrets req of None \<Rightarrow> [] | Some s \<Rightarrow> s)"

lemma get_put_all_rng:
  assumes "range_order rng" and "wf_map es"
  shows "get (put_all m (rng es)) = get m ++ get es"
  using get_put_all [of "rng es" m] range_order_get [OF assms] range_order_wf [OF assms(1), of es] assms(2)
  by simp

text \<open>
  Precedence of the parameters, whatever the visiting order: the volume context overrides
  the secrets of the publish call, as the documentation of the parameters says, and a mount
  group overrides both for \<open>gid\<close>, \<open>uid\<close> and \<open>allow_other\<close>.
\<close>

theorem parameter_precedence:
  assumes "range_order rng" and "wf_map (secrets_map req)" and "wf_map (pr_volume_context req)"
    and "GetMount (pr_capability req) = Some m"
  shows "get (add_mount_group req (mergeVolumeParameters rng req)) =
    (get (secrets_map req) ++ get (pr_volume_context req)) ++
    (if volume_mount_group m = '''' then Map.empty
     else [''gid'' \<mapsto> volume_mount_group m, ''uid'' \<mapsto> volume_mount_group m, ''allow_other'' \<mapsto> ''true''])"
proof -
  have "get (mergeVolumeParameters rng req) = get (secrets_map req) ++ get (pr_volume_context req)"
  proof (cases "pr_secrets req")
    case None
    then show ?thesis using get_put_all_rng [OF assms(1,3), of "[]"]
      by (simp add: mergeVolumeParameters_def secrets_map_def)
  next
    case (Some s)
    then have "wf_map s" using assms(2) by (simp add: secrets_map_def)
    from get_put_all_rng [OF assms(1) this, of "[]"] show ?thesis
      using Some get_put_all_rng [OF assms(1,3), of "put_all [] (rng s)"]
      by (simp add: mergeVolumeParameters_def secrets_map_def)
  qed
  then show ?thesis using assms(4)
    by (simp add: add_mount_group_def Let_def get_put paramVolumeMountAllowOther_def
        paramVolumeMountUser_def paramVolumeMountGroup_def)
qed

definition sample_publish :: publish_request where
  "sample_publish =
     \<lparr>pr_volume_id = ''s3#pvc-1'', pr_target_path = ''/pods/p/mount'',
      pr_capability = Some (MountVolume \<lparr>mount_flags = [''vfs-cache-mode=writes''], volume_mount_group = ''1000''\<rparr>),
      pr_readonly = True,
      pr_secrets = Some [(''remote'', ''gcs''), (''s3-region'', ''eu'')],
      pr_volume_context = [(''remote'', ''s3''), (''remotePath'', ''bucket''), (''remoteType'', ''s3'')]\<rparr>"

theorem parameter_precedence_witness:
  "get (add_mount_group sample_publish (mergeVolumeParameters rev sample_publish)) ''remote'' = Some ''s3''
   \<and> get (add_mount_group sample_publish (mergeVolumeParameters rev sample_publish)) ''gid'' = Some ''1000''"
proof -
  let ?m = "\<lparr>mount_flags = [''vfs-cache-mode=writes''], volume_mount_group = ''1000''\<rparr>"
  have "wf_map (secrets_map sample_publish)" and "wf_map (pr_volume_context sample_publish)"
    and "GetMount (pr_capability sample_publish) = Some ?m"
    by code_simp+
  from parameter_precedence [OF range_order_rev this] show ?thesis
    by (simp add: sample_publish_def secrets_map_def)
qed

section \<open>Extraction\<close>

lemma copy_params_error:
  "copy_params acc es = Inl e \<Longrightarrow>
     \<exists>k \<in> fst ` set es. \<not> reservedParams k \<and> normalizeRcloneFlag k = ''''
       \<and> e = StatusError InvalidArgument (''invalid parameter name: '' @ k)"
  by (induction acc es rule: copy_params.induct) (auto simp: Let_def split: if_splits)

lemma copy_params_ok:
  "copy_params acc es = Inr p \<Longrightarrow> k \<in> fst ` set es \<Longrightarrow> \<not> reservedParams k \<Longrightarrow>
     normalizeRcloneFlag k \<noteq> ''''"
  by (induction acc es rule: copy_params.induct) (auto simp: Let_def split: if_splits)

lemma copy_params_wf: "copy_params acc es = Inr p \<Longrightarrow> wf_map acc \<Longrightarrow> wf_map p"
  by (induction acc es rule: copy_params.induct) (auto simp: Let_def split: if_splits)

lemma copy_params_keys:
  "copy_params acc es = Inr p \<Longrightarrow>
     fst ` set p = fst ` set acc \<union> normalizeRcloneFlag ` (fst ` set es - Collect reservedParams)"
  by (induction acc es rule: copy_params.induct) (auto simp: Let_def go_map split: if_splits)

definition entered :: "params \<Rightarrow> params" where
  "entered es = List.map (\<lambda>(k, v). (normalizeRcloneFlag k, v)) (filter (\<lambda>(k, v). \<not> reservedParams k) es)"

lemma copy_params_eq: "copy_params acc es = Inr p \<Longrightarrow> p = put_all acc (entered es)"
  by (induction acc es rule: copy_params.induct) (auto simp: Let_def entered_def split: if_splits)

lemma copy_params_total:
  "\<forall>k \<in> fst ` set es. \<not> reservedParams k \<longrightarrow> normalizeRcloneFlag k \<noteq> '''' \<Longrightarrow>
     copy_params acc es = Inr (put_all acc (entered es))"
  by (induction acc es rule: copy_params.induct) (auto simp: Let_def entered_def)

lemma reserved_not_blank: "reservedParams k \<Longrightarrow> k \<noteq> '''' \<and> k \<noteq> ''--''"
  by (auto simp: reservedParams_def param_defs paramBackendType_def)

text \<open>
  Which parameter maps a publish call accepts: a remote must be named, a configuration or
  a backend type must be given, and no parameter may be named by the empty string or the
  bare \<open>--\<close>.  Everything else is refused with \<open>InvalidArgument\<close>.
\<close>

theorem extractPublishParams_outcome:
  "if get_str p ''remote'' \<noteq> '''' \<and> (get_str p ''configData'' \<noteq> '''' \<or> get_str p ''remoteType'' \<noteq> '''')
      \<and> '''' \<notin> fst ` set p \<and> ''--'' \<notin> fst ` set p
   then \<exists>pvp. extractPublishParams p = Inr pvp
   else \<exists>m. extractPublishParams p = Inl (StatusError InvalidArgument m)"
proof (cases "\<forall>k \<in> fst ` set p. \<not> reservedParams k \<longrightarrow> normalizeRcloneFlag k \<noteq> ''''")
  case True
  then have "'''' \<notin> fst ` set p \<and> ''--'' \<notin> fst ` set p"
    using reserved_not_blank normalize_empty_iff by blast
  then show ?thesis using copy_params_total [OF True, of "[]"]
    by (auto simp: extractPublishParams_def Let_def param_defs paramBackendType_def)
next
  case False
  then obtain k where "k \<in> fst ` set p" and "normalizeRcloneFlag k = ''''" by blast
  then have bad: "\<not> ('''' \<notin> fst ` set p \<and> ''--'' \<notin> fst ` set p)"
    by (metis normalize_empty_iff)
  have "\<exists>e. copy_params [] p = Inl e" using False copy_params_ok [of "[]" p]
    by (cases "copy_params [] p") auto
  then show ?thesis using bad copy_params_error [of "[]" p]
    by (auto simp: extractPublishParams_def Let_def param_defs paramBackendType_def)
qed

text \<open>
  The options handed to rclone are canonical flags with one value each, and when no two
  parameters are spellings of the same flag they are exactly the parameters that are not
  reserved, under their canonical names, whatever the visiting order.
\<close>

theorem extractPublishParams_options:
  assumes "range_order rng" and "wf_map (entered p)"
    and "extractPublishParams (rng p) = Inr pvp"
  shows "wf_map (pvp_params pvp) \<and> (\<forall>k \<in> fst ` set (pvp_params pvp). canonical_flag k \<and> k \<noteq> '''')
    \<and> get (pvp_params pvp) = get (entered p)"
proof -
  have cp: "copy_params [] (rng p) = Inr (pvp_params pvp)"
    using assms(3) by (auto simp: extractPublishParams_def Let_def split: if_splits sum.splits)
  have "\<forall>k \<in> fst ` set (rng p). \<not> reservedParams k \<longrightarrow> normalizeRcloneFlag k \<noteq> ''''"
    using copy_params_ok [OF cp] by blast
  then have "\<forall>k \<in> fst ` set (pvp_params pvp). canonical_flag k \<and> k \<noteq> ''''"
    using copy_params_keys [OF cp] canonical_normalize by force
  moreover have "mset (rng p) = mset p" using assms(1) by (simp add: range_order_def)
  then have sm: "same_map (entered p) (entered (rng p))"
    by (simp only: same_map_def entered_def mset_map mset_filter)
  then have "get (entered (rng p)) = get (entered p)" and "wf_map (entered (rng p))"
    using same_map_get [OF sm assms(2)] same_map_wf [OF sm] assms(2) by simp_all
  then have "get (pvp_params pvp) = get (entered p)"
    using copy_params_eq [OF cp] by (simp add: get_put_all)
  ultimately show ?thesis using copy_params_wf [OF cp] by simp
qed

theorem extractPublishParams_options_witness:
  "get (pvp_params \<lparr>remoteName = ''s3'', remotePath = '''', configData = '''', remoteType = ''s3'',
                   pvp_params = [(''vfs_cache_mode'', ''full'')]\<rparr>) ''vfs_cache_mode'' = Some ''full''"
proof -
  let ?p = "[(''remote'', ''s3''), (''--VFS-Cache-Mode'', ''full''), (''remoteType'', ''s3'')]"
  have "wf_map (entered ?p)"
    and "extractPublishParams (rev ?p) =
      Inr \<lparr>remoteName = ''s3'', remotePath = '''', configData = '''', remoteType = ''s3'',
           pvp_params = [(''vfs_cache_mode'', ''full'')]\<rparr>"
    and "entered ?p = [(''vfs_cache_mode'', ''full'')]"
    by code_simp+
  with extractPublishParams_options [OF range_order_rev, of ?p] show ?thesis by auto
qed

text \<open>
  Two spellings of one flag in the parameters leave the value to the runtime: the two
  visiting orders of the same map give rclone different options.
\<close>

theorem spelled_twice_is_random:
  "\<exists>p q. same_map p q \<and> wf_map p
     \<and> map_sum id (\<lambda>x. get (pvp_params x) ''vfs_cache_mode'') (extractPublishParams p) = Inr (Some ''full'')
     \<and> map_sum id (\<lambda>x. get (pvp_params x) ''vfs_cache_mode'') (extractPublishParams q) = Inr (Some ''off'')"
proof -
  let ?p = "[(''remote'', ''s3''), (''remoteType'', ''s3''), (''vfs-cache-mode'', ''off''), (''vfs_cache_mode'', ''full'')]"
  let ?q = "[(''remote'', ''s3''), (''remoteType'', ''s3''), (''vfs_cache_mode'', ''full''), (''vfs-cache-mode'', ''off'')]"
  have "same_map ?p ?q" by (simp add: same_map_def)
  moreover have "wf_map ?p" by code_simp
  moreover have "map_sum id (\<lambda>x. get (pvp_params x) ''vfs_cache_mode'') (extractPublishParams ?p) = Inr (Some ''full'')"
    and "map_sum id (\<lambda>x. get (pvp_params x) ''vfs_cache_mode'') (extractPublishParams ?q) = Inr (Some ''off'')"
    by code_simp+
  ultimately show ?thesis by blast
qed

section \<open>Mount flags\<close>

text \<open>The flag that one mount option sets, and its value.\<close>

definition mount_flag :: "string \<Rightarrow> string \<times> string" where
  "mount_flag opt =
     (case SplitN2 opt ''='' of
        [k, v] \<Rightarrow> (normalizeRcloneFlag k, v)
      | _ \<Rightarrow> (normalizeRcloneFlag opt, ''true''))"

lemma mount_options_loop_eq:
  "mount_options_loop acc os = Inr (put_all acc (List.map mount_flag os))"
proof (induction acc os rule: mount_options_loop.induct)
  case (2 acc opt os)
  show ?case
  proof (cases "Contains opt ''=''")
    case True
    then obtain k v where "SplitN2 opt ''='' = [k, v]"
      using SplitN2_length [OF True] by (auto simp: length_Suc_conv numeral_eq_Suc)
    then show ?thesis using 2 True by (simp add: mount_flag_def Let_def)
  next
    case False
    then have "SplitN2 opt ''='' = [opt]" by (simp add: SplitN2_def Contains_def)
    then show ?thesis using 2 False by (simp add: mount_flag_def)
  qed
qed simp

text \<open>
  Parsing the mount flags cannot fail: each flag sets its canonical name, to the text after
  the first equals sign or to \<open>true\<close> when there is none, and a later flag overrides an
  earlier one with the same name.  The error branch of the code is never taken.
\<close>

theorem extractVolumeMountOptions_flags:
  "\<exists>m. extractVolumeMountOptions os = Inr m \<and> wf_map m
     \<and> (\<forall>k. get m k = get (rev (List.map mount_flag os)) k)"
proof -
  have "get (put_all acc es) = get acc ++ get (rev es)" for acc es :: params
  proof (induction acc es rule: put_all.induct)
    case (2 m k v es)
    then show ?case by (simp add: get_put map_of_append) (simp add: map_add_def fun_eq_iff split: option.split)
  qed simp
  then show ?thesis
    unfolding extractVolumeMountOptions_def mount_options_loop_eq by auto
qed

lemma get_mount_options_last:
  "get (put_all acc (List.map mount_flag (os @ [opt]))) (fst (mount_flag opt)) = Some (snd (mount_flag opt))"
proof -
  have "put_all acc (es @ [e]) = put (fst e) (snd e) (put_all acc es)" for acc es and e :: "string \<times> string"
    by (induction acc es rule: put_all.induct) (cases e; auto)+
  then show ?thesis by (simp add: get_put)
qed

lemma readonly_flag:
  assumes "pr_readonly req" and "GetMount (pr_capability req) = Some m"
    and "extractVolumeMountOptions (request_mount_options req) = Inr flags"
  shows "get flags ''read_only'' = Some ''true'' \<and> wf_map flags"
proof -
  have ro: "mount_flag ''read-only'' = (''read_only'', ''true'')" by code_simp
  have "flags = put_all [] (List.map mount_flag (mount_flags m @ [''read-only'']))"
    using assms by (simp add: extractVolumeMountOptions_def mount_options_loop_eq request_mount_options_def)
  then show ?thesis using get_mount_options_last [of "[]" "mount_flags m" "''read-only''"] ro by simp
qed

text \<open>
  A volume published read-only with a mount capability is mounted read-only, whatever its
  parameters and mount flags say: the flag that the driver appends comes last and the mount
  flags override the parameters.
\<close>

theorem readonly_wins:
  assumes "pr_readonly req" and "GetMount (pr_capability req) = Some m" and "wf_map p"
    and "extractVolumeMountOptions (request_mount_options req) = Inr flags"
  shows "get (mergeCopy p flags) ''read_only'' = Some ''true''"
  using readonly_flag [OF assms(1,2,4)] assms(3) by (simp add: get_mergeCopy map_add_def)

theorem readonly_wins_witness:
  "get (mergeCopy [(''read_only'', ''false'')]
          [(''vfs_cache_mode'', ''writes''), (''read_only'', ''true'')]) ''read_only'' = Some ''true''"
proof -
  let ?m = "\<lparr>mount_flags = [''vfs-cache-mode=writes''], volume_mount_group = ''1000''\<rparr>"
  have "pr_readonly sample_publish" and "GetMount (pr_capability sample_publish) = Some ?m"
    and "wf_map [(''read_only'', ''false'')]"
    and "extractVolumeMountOptions (request_mount_options sample_publish)
      = Inr [(''vfs_cache_mode'', ''writes''), (''read_only'', ''true'')]"
    by code_simp+
  from readonly_wins [OF this] show ?thesis .
qed

text \<open>
  A read-only publish without a mount capability loses the flag: no mount option is
  passed on, so nothing asks rclone for a read-only mount.
\<close>

theorem readonly_dropped_without_mount:
  assumes "GetMount (pr_capability req) = None"
  shows "request_mount_options req = [] \<and> extractVolumeMountOptions (request_mount_options req) = Inr []"
  using assms by (simp add: request_mount_options_def extractVolumeMountOptions_def)

theorem readonly_dropped_without_mount_witness:
  "request_mount_options
     \<lparr>pr_volume_id = ''v'', pr_target_path = ''/t'', pr_capability = Some NoAccessType,
      pr_readonly = True, pr_secrets = None, pr_volume_context = []\<rparr> = []"
  using readonly_dropped_without_mount
    [of "\<lparr>pr_volume_id = ''v'', pr_target_path = ''/t'', pr_capability = Some NoAccessType,
      pr_readonly = True, pr_secrets = None, pr_volume_context = []\<rparr>"]
  by (simp add: GetMount_def)

section \<open>The generated configuration\<close>

text \<open>
  A volume that names a backend type but gives no configuration is published only if at
  least one of its parameters starts with the type: without one there is no generated
  configuration and the call is refused, although such a backend (the local disk, for one)
  needs no options.
\<close>

theorem generateConfigData_outcome:
  "if configData pvp \<noteq> ''''
   then generateConfigData rng pvp = Inr pvp
   else if remoteType pvp \<noteq> '''' \<and> extractRemoteTypeParams (rng (pvp_params pvp)) (remoteType pvp) \<noteq> []
   then \<exists>c. c \<noteq> '''' \<and> generateConfigData rng pvp = Inr (pvp\<lparr>configData := c\<rparr>)
   else \<exists>m. generateConfigData rng pvp = Inl (StatusError InvalidArgument m)"
  by (auto simp: generateConfigData_def Let_def generateRecloneConfigFromParams_def)

end
