(* ===== verification/Config_Store.thy ===== *)
theory Config_Store
  imports Publish_Params
begin

text \<open>
  The configuration that rclone keeps in memory, one table for the whole process:
  \<open>defaultStorage\<close> of \<open>vendor/github.com/rclone/rclone/fs/config/default_storage.go\<close>, behind an
  interface of sections of keys, and the two functions of \<open>pkg/rclone/nodeserver.go\<close> that
  write it: \<open>loadRcloneConfig\<close> and \<open>cleanupConfigRemotes\<close>.  Both run under \<open>configMu\<close>.
\<close>

section \<open>The store\<close>

record config_storage =
  sections :: "(string, params) gomap"

definition newDefaultStorage :: config_storage where
  "newDefaultStorage = \<lparr>sections = []\<rparr>"

definition HasSection :: "config_storage \<Rightarrow> string \<Rightarrow> bool" where
  "HasSection s sec \<longleftrightarrow> get (sections s) sec \<noteq> None"

definition DeleteSection :: "config_storage \<Rightarrow> string \<Rightarrow> config_storage" where
  "DeleteSection s sec = s\<lparr>sections := delete_key sec (sections s)\<rparr>"

definition StoreValue :: "config_storage \<Rightarrow> string \<Rightarrow> string \<Rightarrow> string option" where
  "StoreValue s sec key =
     (case get (sections s) sec of None \<Rightarrow> None | Some theSection \<Rightarrow> get theSection key)"

definition SetSectionValue :: "config_storage \<Rightarrow> string \<Rightarrow> string \<Rightarrow> string \<Rightarrow> config_storage" where
  "SetSectionValue s sec key val =
     (let theSection = (case get (sections s) sec of None \<Rightarrow> [] | Some m \<Rightarrow> m)
      in s\<lparr>sections := put sec (put key val theSection) (sections s)\<rparr>)"

text \<open>
  What the driver relies on.  \<open>has\<close> and \<open>look\<close> observe a store; writing one key makes its
  section exist and touches no other key; deleting a section removes it with all its
  keys and touches no other section.
\<close>

locale section_store =
  fixes emp :: 's
    and has :: "'s \<Rightarrow> string \<Rightarrow> bool"
    and look :: "'s \<Rightarrow> string \<Rightarrow> string \<Rightarrow> string option"
    and upd :: "'s \<Rightarrow> string \<Rightarrow> string \<Rightarrow> string \<Rightarrow> 's"
    and remove :: "'s \<Rightarrow> string \<Rightarrow> 's"
  assumes has_emp: "\<not> has emp sec"
    and look_absent: "\<not> has s sec \<Longrightarrow> look s sec k = None"
    and has_upd: "has (upd s sec k v) sec' \<longleftrightarrow> has s sec' \<or> sec' = sec"
    and look_upd: "look (upd s sec k v) sec' k' =
          (if sec' = sec \<and> k' = k then Some v else look s sec' k')"
    and has_remove: "has (remove s sec) sec' \<longleftrightarrow> has s sec' \<and> sec' \<noteq> sec"
    and look_remove: "look (remove s sec) sec' k = (if sec' = sec then None else look s sec' k)"
begin

definition upd_all :: "'s \<Rightarrow> string \<Rightarrow> params \<Rightarrow> 's" where
  "upd_all s sec es = fold (\<lambda>(k, v) s. upd s sec k v) es s"

definition remove_all :: "'s \<Rightarrow> string list \<Rightarrow> 's" where
  "remove_all s ss = fold (\<lambda>sec s. remove s sec) ss s"

lemma upd_all_simps [simp]:
  "upd_all s sec [] = s"
  "upd_all s sec ((k, v) # es) = upd_all (upd s sec k v) sec es"
  by (simp_all add: upd_all_def)

lemma remove_all_simps [simp]:
  "remove_all s [] = s"
  "remove_all s (sec # ss) = remove_all (remove s sec) ss"
  by (simp_all add: remove_all_def)

lemma has_upd_all:
  "has (upd_all s sec es) sec' \<longleftrightarrow> has s sec' \<or> sec' = sec \<and> es \<noteq> []"
proof (induction es arbitrary: s)
  case (Cons e es)
  then show ?case by (cases e) (auto simp: has_upd)
qed simp

lemma look_upd_all:
  assumes "wf_map es"
  shows "look (upd_all s sec es) sec' k =
    (if sec' = sec then (case get es k of None \<Rightarrow> look s sec' k | Some v \<Rightarrow> Some v)
     else look s sec' k)"
  using assms
proof (induction es arbitrary: s)
  case (Cons e es)
  obtain k1 v1 where e: "e = (k1, v1)" by (cases e)
  then have "get es k1 = None" and "wf_map es"
    using Cons.prems by (auto simp: wf_map_def map_of_eq_None_iff)
  then show ?case using Cons.IH e by (auto simp: look_upd split: option.splits)
qed simp

lemma has_remove_all: "has (remove_all s ss) sec \<longleftrightarrow> has s sec \<and> sec \<notin> set ss"
  by (induction ss arbitrary: s) (auto simp: has_remove)

lemma look_remove_all:
  "look (remove_all s ss) sec k = (if sec \<in> set ss then None else look s sec k)"
  by (induction ss arbitrary: s) (auto simp: look_remove)

end

lemmas store_defs = HasSection_def DeleteSection_def StoreValue_def SetSectionValue_def newDefaultStorage_def

interpretation cs: section_store newDefaultStorage HasSection StoreValue SetSectionValue DeleteSection
  by unfold_locales (auto simp: store_defs Let_def go_map split: option.splits)

text \<open>Two stores that no reader can tell apart.\<close>

definition store_eq :: "config_storage \<Rightarrow> config_storage \<Rightarrow> bool" where
  "store_eq s t \<longleftrightarrow> (\<forall>sec. HasSection s sec = HasSection t sec)
     \<and> (\<forall>sec k. StoreValue s sec k = StoreValue t sec k)"

lemma store_eq_refl [simp]: "store_eq s s"
  by (simp add: store_eq_def)

lemma store_eq_trans: "store_eq s t \<Longrightarrow> store_eq t u \<Longrightarrow> store_eq s u"
  by (simp add: store_eq_def)

text \<open>A step that keeps every section but those of \<open>ns\<close>.\<close>

definition same_outside :: "string set \<Rightarrow> config_storage \<Rightarrow> config_storage \<Rightarrow> bool" where
  "same_outside ns s t \<longleftrightarrow>
     (\<forall>sec. sec \<notin> ns \<longrightarrow> HasSection s sec = HasSection t sec
        \<and> (\<forall>k. StoreValue s sec k = StoreValue t sec k))"

lemma same_outside_refl [simp]: "same_outside ns s s"
  by (simp add: same_outside_def)

lemma same_outside_trans:
  "same_outside ns s t \<Longrightarrow> same_outside ns t u \<Longrightarrow> same_outside ns s u"
  by (simp add: same_outside_def)

lemma same_outside_mono: "same_outside ns s t \<Longrightarrow> ns \<subseteq> ms \<Longrightarrow> same_outside ms s t"
  by (auto simp: same_outside_def)

lemma same_outside_set: "sec \<in> ns \<Longrightarrow> same_outside ns s (SetSectionValue s sec k v)"
  by (auto simp: same_outside_def cs.has_upd cs.look_upd)

lemma same_outside_delete: "sec \<in> ns \<Longrightarrow> same_outside ns s (DeleteSection s sec)"
  by (auto simp: same_outside_def cs.has_remove cs.look_remove)

end
