(* ===== verification/Node_State.thy ===== *)
theory Node_State
  imports Config_Store Volume_Locks "HOL-Library.State_Monad" "HOL-Library.Word"
begin

text \<open>
  The state of the node service and its environment.  \<open>node_state\<close> is what the driver's
  process holds: the lock table, the stored mount contexts, the configuration in memory, the
  contexts that are not cancelled yet and the globals of the rclone library; \<open>world\<close> is
  everything outside it (files, mount table, network).  The system calls and the library
  functions that act on the outside are the fields of the record \<open>host\<close>, a parameter of every
  handler.  A handler is a program of the state monad; an error is the value it returns, as
  in the source.
\<close>

section \<open>Values of an untyped map\<close>

text \<open>The dynamic types that \<open>VFS.Stats\<close> and \<open>RemoteStats\<close> put behind \<open>interface{}\<close>.\<close>

datatype go_value =
    GoInt "64 word"
  | GoInt32 "32 word"
  | GoInt64 "64 word"
  | GoFloat64 int
  | GoBool bool
  | GoString string
  | GoStrings "string list"
  | GoParams "(string \<times> go_value) list"
  | GoParamsList "(string \<times> go_value) list list"
  | GoNil

type_synonym rc_params = "(string, go_value) gomap"

fun as_params :: "go_value option \<Rightarrow> rc_params option" where
  "as_params (Some (GoParams p)) = Some p"
| "as_params _ = None"

fun as_int :: "go_value option \<Rightarrow> 64 word option" where
  "as_int (Some (GoInt i)) = Some i"
| "as_int _ = None"

section \<open>Errors of the operating system\<close>

text \<open>
  \<open>ErrNotExist\<close> is an error with \<open>os.IsNotExist\<close>, \<open>ErrCorrupted\<close> one that
  \<open>mount.IsCorruptedMnt\<close> recognises (\<open>ENOTCONN\<close>, \<open>ESTALE\<close>, \<open>EIO\<close> and so on).
\<close>

datatype os_error = ErrNotExist string | ErrCorrupted string | ErrOther string

fun os_error_text :: "os_error \<Rightarrow> string" where
  "os_error_text (ErrNotExist m) = m"
| "os_error_text (ErrCorrupted m) = m"
| "os_error_text (ErrOther m) = m"

fun IsNotExist :: "os_error \<Rightarrow> bool" where
  "IsNotExist (ErrNotExist m) = True"
| "IsNotExist _ = False"

fun IsCorruptedMnt :: "os_error option \<Rightarrow> bool" where
  "IsCorruptedMnt (Some (ErrCorrupted m)) = True"
| "IsCorruptedMnt _ = False"

section \<open>Options, mount points, contexts\<close>

record mount_options =
  mo_DeviceName :: string
  mo_VolumeName :: string
  mo_Daemon :: bool
  mo_DaemonWait :: int
  mo_others :: params

record vfs_options =
  vo_ReadOnly :: bool
  vo_others :: params

record config_info =
  ci_values :: params
  ci_DisableFeatures :: "string list"

type_synonym getter = "string \<Rightarrow> string option"

text \<open>File systems, virtual file systems and processes are handles.\<close>

type_synonym fs_handle = nat
type_synonym vfs_handle = nat
type_synonym pid = nat

text \<open>\<open>mountlib.MountPoint\<close>: \<open>mp_VFS = None\<close> is a nil pointer, \<open>mp_UnmountFn = None\<close> a nil function.\<close>

record mount_point =
  mp_MountPoint :: string
  mp_MountedOn :: int
  mp_MountOpt :: mount_options
  mp_VFSOpt :: vfs_options
  mp_Fs :: fs_handle
  mp_VFS :: "vfs_handle option"
  mp_MountFn :: string
  mp_UnmountFn :: "vfs_handle option"

text \<open>A cancellable context is the number of its creation.\<close>

type_synonym context_id = nat

record mount_context =
  mc_mountPoint :: "mount_point option"
  mc_remoteName :: string
  mc_remotes :: "string list"
  mc_cancel :: "context_id option"
  mc_ctx :: "context_id option"

section \<open>The process and its environment\<close>

record 'w node_state =
  volumeLocks :: volume_locks
  mountContexts :: "(string, mount_context) gomap option"
  storage :: config_storage
  live :: "context_id set"
  next_context :: nat
  g_cacheDir :: string
  g_tempDir :: string
  g_logDebug :: bool
  g_passConfigKey :: bool
  g_atexit :: nat
  world :: 'w

text \<open>The counters of \<open>statfs(2)\<close>, 64-bit words.\<close>

record statfs =
  Bsize :: "64 word"
  Blocks :: "64 word"
  Bfree :: "64 word"
  Bavail :: "64 word"
  Files :: "64 word"
  Ffree :: "64 word"

datatype ready = MountReady | NotReady string | ReadyPanic string

record 'w host =
  h_fuel :: nat
  h_stat :: "string \<Rightarrow> 'w \<Rightarrow> os_error option \<times> 'w"
  h_access :: "string \<Rightarrow> 'w \<Rightarrow> os_error option \<times> 'w"
  h_IsLikelyNotMountPoint :: "string \<Rightarrow> 'w \<Rightarrow> (os_error + bool) \<times> 'w"
  h_IsMountPoint :: "string \<Rightarrow> 'w \<Rightarrow> (os_error + bool) \<times> 'w"
  h_MkdirAll :: "string \<Rightarrow> 'w \<Rightarrow> os_error option \<times> 'w"
  h_Chmod :: "string \<Rightarrow> 'w \<Rightarrow> os_error option \<times> 'w"
  h_ReadDir :: "string \<Rightarrow> 'w \<Rightarrow> os_error option \<times> 'w"
  h_Remove :: "string \<Rightarrow> 'w \<Rightarrow> os_error option \<times> 'w"
  h_Unmount :: "string \<Rightarrow> 'w \<Rightarrow> os_error option \<times> 'w"
  h_UnmountWithForce :: "(string \<Rightarrow> nat \<Rightarrow> 'w \<Rightarrow> os_error option \<times> 'w) option"
  h_CanSafelySkipMountPointCheck :: bool
  h_Statfs :: "string \<Rightarrow> 'w \<Rightarrow> (os_error + statfs) \<times> 'w"
  h_Now :: "'w \<Rightarrow> int \<times> 'w"
  h_Sleep :: "int \<Rightarrow> 'w \<Rightarrow> 'w"
  h_Abs :: "string \<Rightarrow> 'w \<Rightarrow> (os_error + string) \<times> 'w"
  h_Setenv :: "string \<Rightarrow> string \<Rightarrow> 'w \<Rightarrow> os_error option \<times> 'w"
  h_UpdateRemote :: "string \<Rightarrow> params \<Rightarrow> config_storage \<Rightarrow> 'w \<Rightarrow> string option \<times> config_storage \<times> 'w"
  h_NewFs :: "config_info \<Rightarrow> string \<Rightarrow> config_storage \<Rightarrow> 'w \<Rightarrow> (string + fs_handle) \<times> 'w"
  h_GlobalConfig :: config_info
  h_ConfigOptions :: "string list"
  h_SetConfig :: "getter \<Rightarrow> config_info \<Rightarrow> string + config_info"
  h_Reload :: "config_info \<Rightarrow> 'w \<Rightarrow> string option \<times> 'w"
  h_MountOptions :: "string list"
  h_MountDefault :: getter
  h_SetMount :: "getter \<Rightarrow> mount_options \<Rightarrow> string + mount_options"
  h_VFSOptions :: "string list"
  h_VFSDefault :: getter
  h_SetVFS :: "getter \<Rightarrow> vfs_options \<Rightarrow> string + vfs_options"
  h_supportedMountTypes :: "string list"
  h_mountFns :: "string list"
  h_DeviceName :: "fs_handle \<Rightarrow> string \<Rightarrow> string"
  h_VolumeName :: "fs_handle \<Rightarrow> string \<Rightarrow> string"
  h_StartDaemon :: "'w \<Rightarrow> (string + pid option) \<times> 'w"
  h_NewVFS :: "fs_handle \<Rightarrow> vfs_options \<Rightarrow> 'w \<Rightarrow> vfs_handle \<times> 'w"
  h_MountFn :: "string \<Rightarrow> vfs_handle \<Rightarrow> string \<Rightarrow> mount_options \<Rightarrow> 'w \<Rightarrow> string option \<times> 'w"
  h_UnmountFn :: "vfs_handle \<Rightarrow> 'w \<Rightarrow> string option \<times> 'w"
  h_VFSStats :: "vfs_handle \<Rightarrow> 'w \<Rightarrow> rc_params \<times> 'w"
  h_WaitMountReady :: "string \<Rightarrow> int \<Rightarrow> pid option \<Rightarrow> 'w \<Rightarrow> ready \<times> 'w"
  h_Interrupt :: "pid \<Rightarrow> 'w \<Rightarrow> os_error option \<times> 'w"

type_synonym ('w, 'a) node_prog = "('w node_state, 'a) state"

section \<open>Primitive programs\<close>

definition return :: "'a \<Rightarrow> ('w, 'a) node_prog" where
  "return x = State_Monad.return x"

text \<open>A call that acts on the world only.\<close>

definition outside :: "('w \<Rightarrow> 'a \<times> 'w) \<Rightarrow> ('w, 'a) node_prog" where
  "outside f = State (\<lambda>s. case f (world s) of (x, w) \<Rightarrow> (x, s\<lparr>world := w\<rparr>))"

definition gets :: "('w node_state \<Rightarrow> 'a) \<Rightarrow> ('w, 'a) node_prog" where
  "gets f = State (\<lambda>s. (f s, s))"

definition modify :: "('w node_state \<Rightarrow> 'w node_state) \<Rightarrow> ('w, unit) node_prog" where
  "modify f = State (\<lambda>s. ((), f s))"

lemma run_return [simp]: "run_state (return x) s = (x, s)"
  by (simp add: return_def)

lemma return_bind [simp]: "State_Monad.bind (return x) f = f x"
  by (simp add: return_def)

lemma run_outside [simp]:
  "run_state (outside f) s = (case f (world s) of (x, w) \<Rightarrow> (x, s\<lparr>world := w\<rparr>))"
  by (simp add: outside_def)

lemma run_gets [simp]: "run_state (gets f) s = (f s, s)"
  by (simp add: gets_def)

lemma run_modify [simp]: "run_state (modify f) s = ((), f s)"
  by (simp add: modify_def)

section \<open>Programs that keep a part of the state\<close>

named_theorems keeps_rules "compositional rules for programs that keep a relation"

text \<open>Every run of the program relates the state before to the state after.\<close>

definition keeps :: "('w node_state \<Rightarrow> 'w node_state \<Rightarrow> bool) \<Rightarrow> ('w, 'a) node_prog \<Rightarrow> bool" where
  "keeps R m \<longleftrightarrow> (\<forall>s. R s (snd (run_state m s)))"

definition preorder_rel :: "('s \<Rightarrow> 's \<Rightarrow> bool) \<Rightarrow> bool" where
  "preorder_rel R \<longleftrightarrow> (\<forall>s. R s s) \<and> (\<forall>s t u. R s t \<longrightarrow> R t u \<longrightarrow> R s u)"

lemma preorder_same [intro, simp]: "preorder_rel (\<lambda>s t. f t = f s)"
  by (simp add: preorder_rel_def)

lemma keeps_run: "keeps R m \<Longrightarrow> run_state m s = (x, t) \<Longrightarrow> R s t"
  unfolding keeps_def by (metis snd_conv)

lemma keepsI: "(\<And>s x t. run_state m s = (x, t) \<Longrightarrow> R s t) \<Longrightarrow> keeps R m"
  unfolding keeps_def by (metis prod.collapse)

lemma keeps_return [keeps_rules]: "preorder_rel R \<Longrightarrow> keeps R (return x)"
  by (simp add: keeps_def preorder_rel_def)

lemma keeps_gets [keeps_rules]: "preorder_rel R \<Longrightarrow> keeps R (gets f)"
  by (simp add: keeps_def preorder_rel_def)

lemma keeps_bind [keeps_rules]:
  assumes "preorder_rel R" and "keeps R m" and "\<And>x. keeps R (f x)"
  shows "keeps R (State_Monad.bind m f)"
proof (rule keepsI)
  fix s x t
  assume "run_state (State_Monad.bind m f) s = (x, t)"
  then obtain y u where "run_state m s = (y, u)" and "run_state (f y) u = (x, t)"
    by (auto split: prod.splits)
  then have "R s u" and "R u t" using assms(2,3) by (auto dest: keeps_run)
  then show "R s t" using assms(1) unfolding preorder_rel_def by blast
qed

lemma keeps_if [keeps_rules]:
  "(b \<Longrightarrow> keeps R m) \<Longrightarrow> (\<not> b \<Longrightarrow> keeps R n) \<Longrightarrow> keeps R (if b then m else n)"
  by simp

lemma keeps_option [keeps_rules]:
  "(x = None \<Longrightarrow> keeps R m) \<Longrightarrow> (\<And>y. x = Some y \<Longrightarrow> keeps R (f y)) \<Longrightarrow>
     keeps R (case x of None \<Rightarrow> m | Some y \<Rightarrow> f y)"
  by (cases x) simp_all

lemma keeps_sum [keeps_rules]:
  "(\<And>y. x = Inl y \<Longrightarrow> keeps R (f y)) \<Longrightarrow> (\<And>y. x = Inr y \<Longrightarrow> keeps R (g y)) \<Longrightarrow>
     keeps R (case x of Inl y \<Rightarrow> f y | Inr y \<Rightarrow> g y)"
  by (cases x) simp_all

lemma keeps_prod [keeps_rules]:
  "(\<And>a b. x = (a, b) \<Longrightarrow> keeps R (f a b)) \<Longrightarrow> keeps R (case x of (a, b) \<Rightarrow> f a b)"
  by (cases x) simp

lemma keeps_ready [keeps_rules]:
  "keeps R m \<Longrightarrow> (\<And>y. keeps R (f y)) \<Longrightarrow> (\<And>y. keeps R (g y)) \<Longrightarrow>
     keeps R (case x of MountReady \<Rightarrow> m | NotReady y \<Rightarrow> f y | ReadyPanic y \<Rightarrow> g y)"
  by (cases x) simp_all

lemma keeps_outcome [keeps_rules]:
  "(\<And>y. keeps R (f y)) \<Longrightarrow> (\<And>y. keeps R (g y)) \<Longrightarrow> (\<And>y. keeps R (k y)) \<Longrightarrow>
     keeps R (case x of Reply y \<Rightarrow> f y | Failed y \<Rightarrow> g y | Panicked y \<Rightarrow> k y)"
  by (cases x) simp_all

lemma keeps_let [keeps_rules]: "(\<And>y. keeps R (f y)) \<Longrightarrow> keeps R (let y = x in f y)"
  by (simp add: Let_def)

lemma keeps_modify: "(\<And>s. R s (f s)) \<Longrightarrow> keeps R (modify f)"
  by (simp add: keeps_def)

lemma keeps_outside: "(\<And>s w. R s (s\<lparr>world := w\<rparr>)) \<Longrightarrow> keeps R (outside f)"
  by (auto simp: keeps_def split: prod.splits)

lemma keeps_mono: "keeps R m \<Longrightarrow> (\<And>s t. R s t \<Longrightarrow> Q s t) \<Longrightarrow> keeps Q m"
  by (auto simp: keeps_def)


section \<open>Weakest preconditions\<close>

text \<open>Every run from the state ends in a result and a state of the postcondition.\<close>

named_theorems wp_rules "weakest-precondition rules"

definition wp :: "('w, 'a) node_prog \<Rightarrow> ('a \<Rightarrow> 'w node_state \<Rightarrow> bool) \<Rightarrow> 'w node_state \<Rightarrow> bool" where
  "wp m Q s \<longleftrightarrow> (case run_state m s of (x, t) \<Rightarrow> Q x t)"

lemma wpD: "wp m Q s \<Longrightarrow> run_state m s = (x, t) \<Longrightarrow> Q x t"
  by (simp add: wp_def)

lemma wpI: "(\<And>x t. run_state m s = (x, t) \<Longrightarrow> Q x t) \<Longrightarrow> wp m Q s"
  by (auto simp: wp_def split: prod.splits)

lemma wp_weaken: "wp m P s \<Longrightarrow> (\<And>x t. P x t \<Longrightarrow> Q x t) \<Longrightarrow> wp m Q s"
  by (auto simp: wp_def split: prod.splits)

lemma wp_keeps: "keeps R m \<Longrightarrow> (\<And>x t. R s t \<Longrightarrow> Q x t) \<Longrightarrow> wp m Q s"
  by (auto simp: wp_def keeps_def split: prod.splits) (metis snd_conv)

lemma wp_return [wp_rules]: "Q x s \<Longrightarrow> wp (return x) Q s"
  by (simp add: wp_def)

lemma wp_gets [wp_rules]: "Q (f s) s \<Longrightarrow> wp (gets f) Q s"
  by (simp add: wp_def)

lemma wp_modify [wp_rules]: "Q () (f s) \<Longrightarrow> wp (modify f) Q s"
  by (simp add: wp_def)

lemma wp_outside [wp_rules]: "(\<And>x w. Q x (s\<lparr>world := w\<rparr>)) \<Longrightarrow> wp (outside f) Q s"
  by (auto simp: wp_def split: prod.splits)

lemma wp_outside_exact: "(\<And>x w. f (world s) = (x, w) \<Longrightarrow> Q x (s\<lparr>world := w\<rparr>)) \<Longrightarrow> wp (outside f) Q s"
  by (auto simp: wp_def split: prod.splits)

lemma wp_bind [wp_rules]: "wp m (\<lambda>x. wp (f x) Q) s \<Longrightarrow> wp (State_Monad.bind m f) Q s"
  by (simp add: wp_def split: prod.splits)

lemma wp_if [wp_rules]:
  "(b \<Longrightarrow> wp m Q s) \<Longrightarrow> (\<not> b \<Longrightarrow> wp n Q s) \<Longrightarrow> wp (if b then m else n) Q s"
  by simp

lemma wp_option [wp_rules]:
  "(x = None \<Longrightarrow> wp m Q s) \<Longrightarrow> (\<And>y. x = Some y \<Longrightarrow> wp (f y) Q s) \<Longrightarrow>
     wp (case x of None \<Rightarrow> m | Some y \<Rightarrow> f y) Q s"
  by (cases x) simp_all

lemma wp_sum [wp_rules]:
  "(\<And>y. x = Inl y \<Longrightarrow> wp (f y) Q s) \<Longrightarrow> (\<And>y. x = Inr y \<Longrightarrow> wp (g y) Q s) \<Longrightarrow>
     wp (case x of Inl y \<Rightarrow> f y | Inr y \<Rightarrow> g y) Q s"
  by (cases x) simp_all

lemma wp_prod [wp_rules]: "(\<And>a b. x = (a, b) \<Longrightarrow> wp (f a b) Q s) \<Longrightarrow> wp (case x of (a, b) \<Rightarrow> f a b) Q s"
  by (cases x) simp

lemma wp_ready [wp_rules]:
  "(x = MountReady \<Longrightarrow> wp m Q s) \<Longrightarrow> (\<And>y. x = NotReady y \<Longrightarrow> wp (f y) Q s) \<Longrightarrow>
     (\<And>y. x = ReadyPanic y \<Longrightarrow> wp (g y) Q s) \<Longrightarrow>
     wp (case x of MountReady \<Rightarrow> m | NotReady y \<Rightarrow> f y | ReadyPanic y \<Rightarrow> g y) Q s"
  by (cases x) simp_all

lemma wp_outcome [wp_rules]:
  "(\<And>y. x = Reply y \<Longrightarrow> wp (f y) Q s) \<Longrightarrow> (\<And>y. x = Failed y \<Longrightarrow> wp (g y) Q s) \<Longrightarrow>
     (\<And>y. x = Panicked y \<Longrightarrow> wp (k y) Q s) \<Longrightarrow>
     wp (case x of Reply y \<Rightarrow> f y | Failed y \<Rightarrow> g y | Panicked y \<Rightarrow> k y) Q s"
  by (cases x) simp_all

lemma wp_let [wp_rules]: "wp (f x) Q s \<Longrightarrow> wp (let y = x in f y) Q s"
  by (simp add: Let_def)

subsection \<open>The part of the state that the host cannot reach\<close>

text \<open>Locks, stored contexts, configuration and contexts.\<close>

definition core :: "'w node_state \<Rightarrow> volume_locks \<times> (string, mount_context) gomap option
    \<times> config_storage \<times> context_id set \<times> nat" where
  "core s = (volumeLocks s, mountContexts s, storage s, live s, next_context s)"

abbreviation keeps_core :: "('w, 'a) node_prog \<Rightarrow> bool" where
  "keeps_core m \<equiv> keeps (\<lambda>s t. core t = core s) m"

lemma core_simps [simp]:
  "core (s\<lparr>world := w\<rparr>) = core s" "core (s\<lparr>g_cacheDir := d\<rparr>) = core s"
  "core (s\<lparr>g_tempDir := d\<rparr>) = core s" "core (s\<lparr>g_logDebug := b\<rparr>) = core s"
  "core (s\<lparr>g_passConfigKey := b\<rparr>) = core s" "core (s\<lparr>g_atexit := n\<rparr>) = core s"
  by (simp_all add: core_def)

lemma core_eqD:
  "core t = core s \<Longrightarrow> volumeLocks t = volumeLocks s \<and> mountContexts t = mountContexts s
     \<and> storage t = storage s \<and> live t = live s \<and> next_context t = next_context s"
  by (simp add: core_def)

lemma wp_core: "keeps_core m \<Longrightarrow> (\<And>x t. core t = core s \<Longrightarrow> Q x t) \<Longrightarrow> wp m Q s"
  by (rule wp_keeps)

end
