(* ===== verification/Sample_Host.thy ===== *)
theory Sample_Host
  imports Node_State
begin

text \<open>
  A small machine that implements the host: directories, a mount table, a clock that sleep
  advances, and an rclone with three mount methods and a handful of options.  As the real one, it refuses to mount twice on one directory unless
  \<open>allow_non_empty\<close> is set.  The examples
  run on it, and it shows that what is assumed of the host can hold.
\<close>

record sample_world =
  sw_dirs :: "string list"
  sw_mounts :: "string list"
  sw_clock :: int
  sw_fs :: nat
  sw_uploads :: "64 word list"

definition sample_exists :: "string \<Rightarrow> sample_world \<Rightarrow> os_error option" where
  "sample_exists d w = (if d \<in> set (sw_dirs w) then None else Some (ErrNotExist ''no such directory''))"

definition sample_set_mount :: "getter \<Rightarrow> mount_options \<Rightarrow> string + mount_options" where
  "sample_set_mount g o1 =
     Inr (o1\<lparr>mo_DeviceName := (case g ''devname'' of Some v \<Rightarrow> v | None \<Rightarrow> mo_DeviceName o1),
             mo_Daemon := (case g ''daemon'' of Some v \<Rightarrow> v = ''true'' | None \<Rightarrow> mo_Daemon o1),
             mo_DaemonWait := (case g ''daemon_wait'' of Some v \<Rightarrow> (if v = ''0'' then 0 else 60)
                               | None \<Rightarrow> mo_DaemonWait o1),
             mo_others := (case g ''allow_non_empty'' of Some v \<Rightarrow> [(''allow_non_empty'', v)]
                           | None \<Rightarrow> mo_others o1)\<rparr>)"

definition sample_set_vfs :: "getter \<Rightarrow> vfs_options \<Rightarrow> string + vfs_options" where
  "sample_set_vfs g o1 =
     (case g ''read_only'' of
        None \<Rightarrow> Inr o1
      | Some v \<Rightarrow> if v \<in> {''true'', ''false''} then Inr (o1\<lparr>vo_ReadOnly := (v = ''true'')\<rparr>)
                 else Inl ''invalid boolean'')"

text \<open>\<open>UpdateRemote\<close> writes the values; a key \<open>token\<close> makes it fail after that.\<close>

definition sample_update ::
    "string \<Rightarrow> params \<Rightarrow> config_storage \<Rightarrow> sample_world \<Rightarrow> string option \<times> config_storage \<times> sample_world" where
  "sample_update name p st w =
     (if get p ''token'' = None then None else Some ''token rejected'',
      fold (\<lambda>(k, v) st. SetSectionValue st name k v) p st, w)"

definition sample_stats :: "64 word \<Rightarrow> rc_params" where
  "sample_stats n =
     [(''inUse'', GoInt32 1),
      (''metadataCache'', GoParams [(''dirs'', GoInt 2), (''files'', GoInt 3)]),
      (''diskCache'', GoParams [(''uploadsInProgress'', GoInt n), (''uploadsQueued'', GoInt 0),
         (''files'', GoInt 1), (''erroredFiles'', GoInt 0), (''bytesUsed'', GoInt64 4096),
         (''outOfSpace'', GoBool False)])]"

definition sample_host :: "sample_world host" where
  "sample_host =
     \<lparr>h_fuel = 5,
      h_stat = (\<lambda>d w. (sample_exists d w, w)),
      h_access = (\<lambda>d w. (sample_exists d w, w)),
      h_IsLikelyNotMountPoint = (\<lambda>d w.
        (case sample_exists d w of Some e \<Rightarrow> Inl e | None \<Rightarrow> Inr (d \<notin> set (sw_mounts w)), w)),
      h_IsMountPoint = (\<lambda>d w.
        (case sample_exists d w of Some e \<Rightarrow> Inl e | None \<Rightarrow> Inr (d \<in> set (sw_mounts w)), w)),
      h_MkdirAll = (\<lambda>d w. (None, w\<lparr>sw_dirs := d # sw_dirs w\<rparr>)),
      h_Chmod = (\<lambda>d w. (sample_exists d w, w)),
      h_ReadDir = (\<lambda>d w. (sample_exists d w, w)),
      h_Remove = (\<lambda>d w.
        case sample_exists d w of Some e \<Rightarrow> (Some e, w)
        | None \<Rightarrow> if d \<in> set (sw_mounts w) then (Some (ErrOther ''device or resource busy''), w)
                  else (None, w\<lparr>sw_dirs := removeAll d (sw_dirs w)\<rparr>)),
      h_Unmount = (\<lambda>d w. (None, w\<lparr>sw_mounts := removeAll d (sw_mounts w)\<rparr>)),
      h_UnmountWithForce = Some (\<lambda>d t w. (None, w\<lparr>sw_mounts := removeAll d (sw_mounts w)\<rparr>)),
      h_CanSafelySkipMountPointCheck = False,
      h_Statfs = (\<lambda>d w. (case sample_exists d w of Some e \<Rightarrow> Inl e
                         | None \<Rightarrow> Inr \<lparr>Bsize = 4096, Blocks = 100, Bfree = 60, Bavail = 50, Files = 10, Ffree = 4\<rparr>, w)),
      h_Now = (\<lambda>w. (sw_clock w, w)),
      h_Sleep = (\<lambda>t w. w\<lparr>sw_clock := sw_clock w + t, sw_uploads := tl (sw_uploads w)\<rparr>),
      h_Abs = (\<lambda>d w. (Inr d, w)),
      h_Setenv = (\<lambda>k v w. (None, w)),
      h_UpdateRemote = sample_update,
      h_NewFs = (\<lambda>ci path st w.
        (if HasSection st (hd (SplitN2 path '':'')) then Inr (sw_fs w) else Inl ''didn't find section in config file'',
         w\<lparr>sw_fs := sw_fs w + 1\<rparr>)),
      h_GlobalConfig = \<lparr>ci_values = [], ci_DisableFeatures = []\<rparr>,
      h_ConfigOptions = [''transfers'', ''checkers''],
      h_SetConfig = (\<lambda>g ci. Inr ci),
      h_Reload = (\<lambda>ci w. (None, w)),
      h_MountOptions = [''daemon'', ''daemon_wait'', ''devname'', ''allow_other'', ''allow_non_empty''],
      h_MountDefault = (\<lambda>k. if k = ''daemon_wait'' then Some ''60'' else None),
      h_SetMount = sample_set_mount,
      h_VFSOptions = [''vfs_cache_mode'', ''read_only'', ''uid'', ''gid''],
      h_VFSDefault = (\<lambda>k. if k = ''read_only'' then Some ''false'' else None),
      h_SetVFS = sample_set_vfs,
      h_supportedMountTypes = [''mount'', ''cmount'', ''mount2''],
      h_mountFns = [''mount'', ''mount2''],
      h_DeviceName = (\<lambda>f d. d),
      h_VolumeName = (\<lambda>f v. if v = '''' then ''volume'' else v),
      h_StartDaemon = (\<lambda>w. (Inr (Some 42), w)),
      h_NewVFS = (\<lambda>f o1 w. (f, w)),
      h_MountFn = (\<lambda>t v d o1 w.
        if d \<in> set (sw_mounts w) \<and> get (mo_others o1) ''allow_non_empty'' \<noteq> Some ''true''
        then (Some ''directory already mounted'', w)
        else (None, w\<lparr>sw_mounts := d # sw_mounts w\<rparr>)),
      h_UnmountFn = (\<lambda>v w. (None, w)),
      h_VFSStats = (\<lambda>v w. (sample_stats (case sw_uploads w of [] \<Rightarrow> 0 | n # _ \<Rightarrow> n), w)),
      h_WaitMountReady = (\<lambda>d t p w. (if d \<in> set (sw_mounts w) then MountReady else NotReady ''mount not ready'', w)),
      h_Interrupt = (\<lambda>p w. (None, w))\<rparr>"

definition sample_start :: sample_world where
  "sample_start = \<lparr>sw_dirs = [''/data''], sw_mounts = [], sw_clock = 0, sw_fs = 0, sw_uploads = []\<rparr>"

definition sample_mounted :: "string \<Rightarrow> sample_world \<Rightarrow> bool" where
  "sample_mounted d w \<longleftrightarrow> d \<in> set (sw_mounts w) \<and> d \<in> set (sw_dirs w)"

text \<open>The process after its start.\<close>

definition new_node_state :: "'w \<Rightarrow> 'w node_state" where
  "new_node_state w =
     \<lparr>volumeLocks = NewVolumeLocks, mountContexts = None, storage = newDefaultStorage,
      live = {}, next_context = 0, g_cacheDir = '''', g_tempDir = '''', g_logDebug = False,
      g_passConfigKey = False, g_atexit = 0, world = w\<rparr>"

end
