(* ===== verification/Config_Load.thy ===== *)
theory Config_Load
  imports Sample_Host
begin

text \<open>
  Loading the configuration of a volume into rclone's memory and removing it again:
  \<open>loadRcloneConfig\<close> and \<open>cleanupConfigRemotes\<close> of \<open>pkg/rclone/nodeserver.go\<close>.  \<open>rngs\<close> and
  \<open>rng\<close> are the visiting orders of the map of remotes and of a map of parameters.
\<close>

section \<open>Definitions\<close>

definition UpdateRemote :: "'w host \<Rightarrow> string \<Rightarrow> params \<Rightarrow> ('w, string option) node_prog" where
  "UpdateRemote h name keyValues = State (\<lambda>s.
     case h_UpdateRemote h name keyValues (storage s) (world s) of
       (e, st, w) \<Rightarrow> (e, s\<lparr>storage := st, world := w\<rparr>))"

fun load_keys ::
    "'w host \<Rightarrow> (params \<Rightarrow> params) \<Rightarrow> params \<Rightarrow> string \<Rightarrow> params \<Rightarrow> ('w, go_error option) node_prog" where
  "load_keys h rng p name [] = return None"
| "load_keys h rng p name ((key, val) # es) = do {
     modify (\<lambda>s. s\<lparr>storage := SetSectionValue (storage s) name key val\<rparr>);
     r \<leftarrow> (if key = ''type'' \<and> p \<noteq> [] then
            let remoteParams = extractRemoteTypeParams (rng p) val in
            if remoteParams \<noteq> [] then UpdateRemote h name remoteParams else return None
          else return None);
     case r of
       Some e \<Rightarrow> return (Some (StatusError Internal (''failed to update remote: '' @ e)))
     | None \<Rightarrow> load_keys h rng p name es }"

fun load_remotes ::
    "'w host \<Rightarrow> (params \<Rightarrow> params) \<Rightarrow> params \<Rightarrow> string list \<Rightarrow> (string, params) gomap
       \<Rightarrow> ('w, go_error + string list) node_prog" where
  "load_remotes h rng p remotes [] = return (Inr remotes)"
| "load_remotes h rng p remotes ((name, remoteData) # rs) = do {
     r \<leftarrow> load_keys h rng p name (rng remoteData);
     case r of
       Some e \<Rightarrow> return (Inl e)
     | None \<Rightarrow> load_remotes h rng p (remotes @ [name]) rs }"

text \<open>Running out of stack in the parser kills the process: the outcome \<open>Panicked\<close>.\<close>

definition loadRcloneConfig ::
    "'w host \<Rightarrow> (params \<Rightarrow> params) \<Rightarrow> ((string, params) gomap \<Rightarrow> (string, params) gomap)
       \<Rightarrow> publish_volume_params \<Rightarrow> ('w, string list outcome) node_prog" where
  "loadRcloneConfig h rng rngs pvp =
     (if configData pvp = '''' then return (Reply [])
      else case parseAllConfigRemotes (h_fuel h) (configData pvp) of
        None \<Rightarrow> return (Panicked ''stack overflow'')
      | Some (Inl err) \<Rightarrow>
          return (Failed (StatusError InvalidArgument (''failed to parse configData: '' @ err)))
      | Some (Inr allRemotes) \<Rightarrow> do {
          r \<leftarrow> load_remotes h rng (pvp_params pvp) [] (rngs allRemotes);
          case r of Inl e \<Rightarrow> return (Failed e) | Inr remotes \<Rightarrow> return (Reply remotes) })"

definition cleanupConfigRemotes :: "string list \<Rightarrow> ('w, unit) node_prog" where
  "cleanupConfigRemotes remotes =
     (if remotes = [] then return ()
      else modify (\<lambda>s. s\<lparr>storage := fold (\<lambda>name st. DeleteSection st name) remotes (storage s)\<rparr>))"

section \<open>What loading changes\<close>

text \<open>
  The documented behaviour of \<open>config.UpdateRemote\<close>: it edits the section it is given, which
  exists, and no other.
\<close>

definition updates_own_section :: "'w host \<Rightarrow> bool" where
  "updates_own_section h \<longleftrightarrow>
     (\<forall>name p st w. same_outside {name} st (fst (snd (h_UpdateRemote h name p st w)))
        \<and> (HasSection st name \<longrightarrow> HasSection (fst (snd (h_UpdateRemote h name p st w))) name))"

lemma run_UpdateRemote:
  assumes "updates_own_section h" and "run_state (UpdateRemote h name p) s = (e, t)"
  shows "same_outside {name} (storage s) (storage t)"
    and "HasSection (storage s) name \<Longrightarrow> HasSection (storage t) name"
  using assms unfolding updates_own_section_def UpdateRemote_def
  by (auto split: prod.splits) (metis fst_conv snd_conv)+

text \<open>Loading acts on the store and the world only.\<close>

lemma loading_keeps:
  assumes "preorder_rel R" and "\<And>s w st. R s (s\<lparr>storage := st, world := w\<rparr>)"
    and "\<And>s st. R s (s\<lparr>storage := st\<rparr>)"
  shows "keeps R (load_keys h rng p name es)"
    and "keeps R (load_remotes h rng p rs ms)"
    and "keeps R (loadRcloneConfig h rng rngs pvp)"
    and "keeps R (cleanupConfigRemotes rs)"
proof -
  have u: "keeps R (UpdateRemote h n q)" for n q
    using assms(2) by (auto simp: keeps_def UpdateRemote_def split: prod.splits)
  show k: "keeps R (load_keys h rng p name es)" for name es
    by (induction es) (auto simp only: load_keys.simps intro!: keeps_rules keeps_modify assms u)
  show l: "keeps R (load_remotes h rng p rs ms)" for p rs ms
  proof (induction ms arbitrary: rs)
    case (Cons m ms)
    have "keeps R (load_keys h rng p name es)" for name es
      by (induction es) (auto simp only: load_keys.simps intro!: keeps_rules keeps_modify assms u)
    with Cons show ?case by (cases m) (auto simp only: load_remotes.simps intro!: keeps_rules assms)
  qed (auto simp only: load_remotes.simps intro!: keeps_rules assms)
  show "keeps R (loadRcloneConfig h rng rngs pvp)"
    unfolding loadRcloneConfig_def by (intro keeps_rules assms l)
  show "keeps R (cleanupConfigRemotes rs)"
    unfolding cleanupConfigRemotes_def by (intro keeps_rules keeps_modify assms)
qed


section \<open>Frame\<close>

lemma load_keys_frame:
  assumes "updates_own_section h" and "run_state (load_keys h rng p name es) s = (r, t)"
  shows "same_outside {name} (storage s) (storage t)
    \<and> (HasSection (storage s) name \<or> es \<noteq> [] \<longrightarrow> HasSection (storage t) name)"
  using assms(2)
proof (induction es arbitrary: s)
  case (Cons e es)
  obtain key val where e: "e = (key, val)" by (cases e)
  let ?s = "s\<lparr>storage := SetSectionValue (storage s) name key val\<rparr>"
  let ?m = "if key = ''type'' \<and> p \<noteq> [] then
       let remoteParams = extractRemoteTypeParams (rng p) val in
       if remoteParams \<noteq> [] then UpdateRemote h name remoteParams else return None
     else return None"
  obtain x u where u: "run_state ?m ?s = (x, u)" by (cases "run_state ?m ?s")
  have "same_outside {name} (storage s) (storage ?s)" and "HasSection (storage ?s) name"
    by (simp_all add: same_outside_set cs.has_upd)
  moreover from u have "same_outside {name} (storage ?s) (storage u)
      \<and> (HasSection (storage ?s) name \<longrightarrow> HasSection (storage u) name)"
    using run_UpdateRemote [OF assms(1)] by (fastforce simp: Let_def split: if_splits)
  ultimately have 1: "same_outside {name} (storage s) (storage u)" "HasSection (storage u) name"
    using same_outside_trans by blast+
  show ?case
  proof (cases x)
    case None
    then have "run_state (load_keys h rng p name es) u = (r, t)"
      using Cons.prems u e by simp
    from Cons.IH [OF this] 1 show ?thesis using same_outside_trans by blast
  next
    case (Some y)
    then have "t = u" using Cons.prems u e by simp
    with 1 show ?thesis by simp
  qed
qed simp

lemma load_keys_error:
  "run_state (load_keys h rng p name es) s = (Some e, t) \<Longrightarrow> es \<noteq> []"
  by (cases es) auto

lemma load_remotes_frame:
  assumes "updates_own_section h" and "run_state (load_remotes h rng p rs ms) s = (r, t)"
  shows "same_outside (fst ` set ms) (storage s) (storage t)
    \<and> (case r of Inl e \<Rightarrow> \<exists>n \<in> fst ` set ms. HasSection (storage t) n
       | Inr ns \<Rightarrow> ns = rs @ keys ms)"
  using assms(2)
proof (induction ms arbitrary: s rs)
  case (Cons m ms)
  obtain name d where m: "m = (name, d)" by (cases m)
  obtain x u where u: "run_state (load_keys h rng p name (rng d)) s = (x, u)"
    by (cases "run_state (load_keys h rng p name (rng d)) s")
  from load_keys_frame [OF assms(1) u]
  have 1: "same_outside (fst ` set (m # ms)) (storage s) (storage u)"
    and 2: "rng d \<noteq> [] \<longrightarrow> HasSection (storage u) name"
    using m by (auto intro: same_outside_mono)
  show ?case
  proof (cases x)
    case None
    then have "run_state (load_remotes h rng p (rs @ [name]) ms) u = (r, t)"
      using Cons.prems u m by simp
    from Cons.IH [OF this] have
      3: "same_outside (fst ` set (m # ms)) (storage u) (storage t)" and
      4: "case r of Inl e \<Rightarrow> \<exists>n \<in> fst ` set ms. HasSection (storage t) n
       | Inr ns \<Rightarrow> ns = (rs @ [name]) @ keys ms"
      by (auto intro: same_outside_mono)
    from 4 have "case r of Inl e \<Rightarrow> \<exists>n \<in> fst ` set (m # ms). HasSection (storage t) n
       | Inr ns \<Rightarrow> ns = rs @ keys (m # ms)"
      using m by (auto split: sum.splits)
    with same_outside_trans [OF 1 3] show ?thesis by simp
  next
    case (Some y)
    then have "t = u" and "r = Inl y" using Cons.prems u m by simp_all
    moreover have "rng d \<noteq> []" using load_keys_error u Some by blast
    ultimately show ?thesis using 1 2 m by auto
  qed
qed auto

lemma cleanup_storage:
  "storage (snd (run_state (cleanupConfigRemotes rs) s)) = cs.remove_all (storage s) rs"
  by (simp add: cleanupConfigRemotes_def cs.remove_all_def)


section \<open>Loading and cleaning up\<close>

lemma load_config_cases:
  assumes "run_state (loadRcloneConfig h rng rngs pvp) s = (r, t)" and "configData pvp \<noteq> ''''"
    and "parseAllConfigRemotes (h_fuel h) (configData pvp) = Some (Inr m)"
  obtains e where "r = Failed e"
      and "run_state (load_remotes h rng (pvp_params pvp) [] (rngs m)) s = (Inl e, t)"
    | ns where "r = Reply ns"
      and "run_state (load_remotes h rng (pvp_params pvp) [] (rngs m)) s = (Inr ns, t)"
proof -
  obtain x u where u: "run_state (load_remotes h rng (pvp_params pvp) [] (rngs m)) s = (x, u)"
    by (cases "run_state (load_remotes h rng (pvp_params pvp) [] (rngs m)) s")
  show thesis
  proof (cases x)
    case (Inl e)
    then show ?thesis using that(1) [of e] u assms by (simp add: loadRcloneConfig_def)
  next
    case (Inr ns)
    then show ?thesis using that(2) [of ns] u assms by (simp add: loadRcloneConfig_def)
  qed
qed

lemma load_then_cleanup_store:
  assumes "updates_own_section h" and "range_order rngs" and "configData pvp \<noteq> ''''"
    and "parseAllConfigRemotes (h_fuel h) (configData pvp) = Some (Inr m)"
    and "run_state (loadRcloneConfig h rng rngs pvp) s = (Reply remotes, t)"
  shows "set remotes = fst ` set m
    \<and> same_outside (fst ` set m) (storage s) (storage t)
    \<and> same_outside (fst ` set m) (storage s) (storage (snd (run_state (cleanupConfigRemotes remotes) t)))"
proof -
  from assms(5,3,4)
  have "run_state (load_remotes h rng (pvp_params pvp) [] (rngs m)) s = (Inr remotes, t)"
    by (rule load_config_cases) simp_all
  from load_remotes_frame [OF assms(1) this] range_order_set [OF assms(2), of m]
  have 1: "same_outside (fst ` set m) (storage s) (storage t)" and 2: "set remotes = fst ` set m"
    by simp_all
  have "same_outside (fst ` set m) (storage t) (storage (snd (run_state (cleanupConfigRemotes remotes) t)))"
    using 2 by (auto simp: same_outside_def cleanup_storage cs.has_remove_all cs.look_remove_all)
  from same_outside_trans [OF 1 this] 1 2 show ?thesis by simp
qed

text \<open>
  Loading a volume's configuration and removing it again, as a failed publish or an
  unpublish does, leaves no section of the volume's own remotes behind and does not touch
  the section of any other remote, whatever the visiting orders.  It rests on
  \<open>config.UpdateRemote\<close> editing the remote it is given and no other.
\<close>

theorem load_then_cleanup:
  assumes "updates_own_section h" and "range_order rngs" and "configData pvp \<noteq> ''''"
    and "parseAllConfigRemotes (h_fuel h) (configData pvp) = Some (Inr m)"
    and "run_state (loadRcloneConfig h rng rngs pvp) s = (Reply remotes, t)"
    and "run_state (cleanupConfigRemotes remotes) t = ((), u)"
  shows "set remotes = fst ` set m
    \<and> same_outside (fst ` set m) (storage s) (storage u)
    \<and> (\<forall>n \<in> fst ` set m. \<not> HasSection (storage u) n \<and> (\<forall>k. StoreValue (storage u) n k = None))"
  using load_then_cleanup_store [OF assms(1-5)] assms(6) cleanup_storage [of remotes t]
  by (auto simp: cs.has_remove_all cs.look_remove_all)

lemma load_keys_plain:
  assumes "\<forall>v. (''type'', v) \<in> set es \<longrightarrow> p = [] \<or> extractRemoteTypeParams (rng p) v = []"
  shows "run_state (load_keys h rng p name es) s
    = (None, s\<lparr>storage := cs.upd_all (storage s) name es\<rparr>)"
  using assms
proof (induction es arbitrary: s)
  case (Cons e es)
  obtain key val where e: "e = (key, val)" by (cases e)
  have "(if key = ''type'' \<and> p \<noteq> [] then
       let remoteParams = extractRemoteTypeParams (rng p) val in
       if remoteParams \<noteq> [] then UpdateRemote h name remoteParams else return None
     else return None) = return None"
    using Cons.prems e by (auto simp: Let_def)
  then show ?case using Cons e by simp
qed simp


definition overlaid :: "(string, params) gomap \<Rightarrow> config_storage \<Rightarrow> string \<Rightarrow> string \<Rightarrow> string option" where
  "overlaid m st n k =
     (case get m n of
        None \<Rightarrow> StoreValue st n k
      | Some d \<Rightarrow> (case get d k of None \<Rightarrow> StoreValue st n k | Some v \<Rightarrow> Some v))"

definition no_backend_params :: "(params \<Rightarrow> params) \<Rightarrow> params \<Rightarrow> (string, params) gomap \<Rightarrow> bool" where
  "no_backend_params rng p m \<longleftrightarrow>
     (\<forall>d \<in> snd ` set m. \<forall>v. (''type'', v) \<in> set d \<longrightarrow> p = [] \<or> extractRemoteTypeParams (rng p) v = [])"

lemma load_remotes_plain:
  assumes "range_order rng" and "wf_map ms" and "\<forall>d \<in> snd ` set ms. wf_map d"
    and "no_backend_params rng p ms"
  shows "\<exists>t. run_state (load_remotes h rng p rs ms) s = (Inr (rs @ keys ms), t)
    \<and> (\<forall>n k. StoreValue (storage t) n k = overlaid ms (storage s) n k)"
  using assms(2-)
proof (induction ms arbitrary: s rs)
  case Nil
  then show ?case by (simp add: overlaid_def)
next
  case (Cons m ms)
  obtain name d where m: "m = (name, d)" by (cases m)
  let ?u = "s\<lparr>storage := cs.upd_all (storage s) name (rng d)\<rparr>"
  have wd: "wf_map d" and new: "get ms name = None" and wf: "wf_map ms"
    using Cons.prems m by (auto simp: wf_map_def map_of_eq_None_iff)
  have "\<forall>v. (''type'', v) \<in> set (rng d) \<longrightarrow> p = [] \<or> extractRemoteTypeParams (rng p) v = []"
    using Cons.prems(3) m range_order_set [OF assms(1), of d] by (simp add: no_backend_params_def)
  note k = load_keys_plain [of "rng d" p rng h name s, OF this]
  have "no_backend_params rng p ms" using Cons.prems(3) by (simp add: no_backend_params_def)
  then obtain t where t: "run_state (load_remotes h rng p (rs @ [name]) ms) ?u = (Inr ((rs @ [name]) @ keys ms), t)"
    and vals: "\<forall>n k. StoreValue (storage t) n k = overlaid ms (storage ?u) n k"
    using Cons.IH [of "rs @ [name]" ?u] Cons.prems(2) wf by auto
  have "StoreValue (storage t) n k = overlaid (m # ms) (storage s) n k" for n k
    using vals m new wd range_order_wf [OF assms(1), of d] range_order_get [OF assms(1) wd]
    by (auto simp: overlaid_def cs.look_upd_all split: option.splits)
  then show ?case using t k m by auto
qed

text \<open>
  C24: Without backend options among the parameters, loading writes exactly the parsed
  sections: every key of the configuration has the value of the text, and every other key of
  every section keeps the value it had, so a section that is already in memory (of another
  mount with a remote of the same name) is merged with, not replaced.
\<close>

theorem loaded_values:
  assumes "range_order rng" and "range_order rngs" and "configData pvp \<noteq> ''''"
    and "parseAllConfigRemotes (h_fuel h) (configData pvp) = Some (Inr m)"
    and "no_backend_params rng (pvp_params pvp) m"
  shows "\<exists>t. run_state (loadRcloneConfig h rng rngs pvp) s = (Reply (keys (rngs m)), t)
    \<and> (\<forall>n k. StoreValue (storage t) n k = overlaid m (storage s) n k)"
proof -
  have wf: "wf_map m" and wfi: "\<forall>d \<in> snd ` set m. wf_map d"
    using parse_wf [OF assms(4)] parse_inner_wf [OF assms(4)] by (auto simp: wf_map_def)
  have set: "set (rngs m) = set m" using assms(2) by (rule range_order_set)
  have "no_backend_params rng (pvp_params pvp) (rngs m)" and "wf_map (rngs m)"
    and "\<forall>d \<in> snd ` set (rngs m). wf_map d"
    using assms(5) wfi wf range_order_wf [OF assms(2), of m] by (simp_all add: no_backend_params_def set)
  from load_remotes_plain [OF assms(1) this(2,3,1), of h "[]" s]
  obtain t where "run_state (load_remotes h rng (pvp_params pvp) [] (rngs m)) s = (Inr (keys (rngs m)), t)"
    and vals: "\<forall>n k. StoreValue (storage t) n k = overlaid (rngs m) (storage s) n k" by auto
  then have "run_state (loadRcloneConfig h rng rngs pvp) s = (Reply (keys (rngs m)), t)"
    using assms(3,4) by (simp add: loadRcloneConfig_def)
  then show ?thesis using vals range_order_get [OF assms(2) wf] by (simp add: overlaid_def)
qed

text \<open>
  C36: When \<open>UpdateRemote\<close> refuses the parameters, the publish call fails but the section that
  was being loaded stays in memory: the error path returns no list of remotes, and the
  clean-up is registered only after a successful load.
\<close>

theorem failed_load_leaves_section:
  assumes "updates_own_section h" and "range_order rngs" and "configData pvp \<noteq> ''''"
    and "parseAllConfigRemotes (h_fuel h) (configData pvp) = Some (Inr m)"
    and "run_state (loadRcloneConfig h rng rngs pvp) s = (Failed e, t)"
  shows "\<exists>n. n \<in> fst ` set m \<and> HasSection (storage t) n"
  using assms(5,3,4)
proof (rule load_config_cases)
  fix e assume "run_state (load_remotes h rng (pvp_params pvp) [] (rngs m)) s = (Inl e, t)"
  from load_remotes_frame [OF assms(1) this] range_order_set [OF assms(2), of m]
  show ?thesis by auto
qed simp

section \<open>Examples\<close>

lemma same_outside_fold:
  "same_outside {name} st (fold (\<lambda>(k, v) st. SetSectionValue st name k v) p st)
   \<and> (HasSection st name \<longrightarrow> HasSection (fold (\<lambda>(k, v) st. SetSectionValue st name k v) p st) name)"
  using cs.has_upd_all [of st name p name]
proof -
  have "same_outside {name} st (fold (\<lambda>(k, v) st. SetSectionValue st name k v) p st)"
  proof (induction p arbitrary: st)
    case (Cons e p)
    show ?case
      by (cases e) (auto intro: same_outside_trans [OF same_outside_set Cons])
  qed simp
  then show ?thesis using cs.has_upd_all [of st name p name] by (simp add: cs.upd_all_def)
qed

lemma sample_updates_own_section: "updates_own_section sample_host"
  using same_outside_fold
  by (simp add: updates_own_section_def sample_host_def sample_update_def)

definition sample_pvp :: publish_volume_params where
  "sample_pvp = \<lparr>remoteName = ''crypt'', remotePath = '''',
     configData = ''[crypt]\<newline>type = crypt\<newline>remote = s3:b\<newline>[s3]\<newline>type = s3\<newline>'',
     remoteType = '''', pvp_params = [(''vfs_cache_mode'', ''full'')]\<rparr>"

definition sample_remotes :: "(string, params) gomap" where
  "sample_remotes = [(''crypt'', [(''type'', ''crypt''), (''remote'', ''s3:b'')]), (''s3'', [(''type'', ''s3'')])]"

lemma sample_parse: "parseAllConfigRemotes (h_fuel sample_host) (configData sample_pvp) = Some (Inr sample_remotes)"
  by code_simp

theorem loaded_values_witness:
  "\<exists>t. run_state (loadRcloneConfig sample_host rev rev sample_pvp) (new_node_state sample_start)
      = (Reply [''s3'', ''crypt''], t) \<and> StoreValue (storage t) ''crypt'' ''remote'' = Some ''s3:b''"
proof -
  have "no_backend_params rev (pvp_params sample_pvp) sample_remotes"
    by (simp add: no_backend_params_def sample_remotes_def sample_pvp_def) code_simp
  moreover have "configData sample_pvp \<noteq> ''''" by code_simp
  ultimately show ?thesis
    using loaded_values [OF range_order_rev range_order_rev _ sample_parse, of "new_node_state sample_start"]
    by (auto simp: overlaid_def sample_remotes_def)
qed


theorem load_then_cleanup_witness:
  "\<not> HasSection (storage (snd (run_state (cleanupConfigRemotes [''crypt'', ''s3''])
       (snd (run_state (loadRcloneConfig sample_host (\<lambda>m. m) (\<lambda>m. m) sample_pvp)
          (new_node_state sample_start)))))) ''s3''"
proof -
  let ?r = "run_state (loadRcloneConfig sample_host (\<lambda>m. m) (\<lambda>m. m) sample_pvp) (new_node_state sample_start)"
  have "fst ?r = Reply [''crypt'', ''s3'']" and "configData sample_pvp \<noteq> ''''" by code_simp+
  then show ?thesis
    using load_then_cleanup [OF sample_updates_own_section range_order_id _ sample_parse,
        of "\<lambda>m. m" "new_node_state sample_start" "[''crypt'', ''s3'']" "snd ?r"
           "snd (run_state (cleanupConfigRemotes [''crypt'', ''s3'']) (snd ?r))"]
    by (simp add: prod_eq_iff sample_remotes_def)
qed

definition sample_pvp_token :: publish_volume_params where
  "sample_pvp_token = sample_pvp\<lparr>pvp_params := [(''s3_token'', ''abc'')]\<rparr>"

theorem failed_load_leaves_section_witness:
  "\<exists>n. n \<in> {''crypt'', ''s3''} \<and> HasSection (storage
       (snd (run_state (loadRcloneConfig sample_host (\<lambda>m. m) (\<lambda>m. m) sample_pvp_token)
          (new_node_state sample_start)))) n"
proof -
  let ?r = "run_state (loadRcloneConfig sample_host (\<lambda>m. m) (\<lambda>m. m) sample_pvp_token) (new_node_state sample_start)"
  have "fst ?r = Failed (StatusError Internal ''failed to update remote: token rejected'')"
    and "configData sample_pvp_token \<noteq> ''''" by code_simp+
  moreover have "parseAllConfigRemotes (h_fuel sample_host) (configData sample_pvp_token) = Some (Inr sample_remotes)"
    by code_simp
  ultimately show ?thesis
    using failed_load_leaves_section [OF sample_updates_own_section range_order_id, of sample_pvp_token
        sample_remotes "\<lambda>m. m" "new_node_state sample_start"
        "StatusError Internal ''failed to update remote: token rejected''" "snd ?r"]
    by (auto simp: prod_eq_iff sample_remotes_def)
qed

definition sample_pvp_region :: publish_volume_params where
  "sample_pvp_region = \<lparr>remoteName = ''s3'', remotePath = '''',
     configData = ''[s3]\<newline>type = s3\<newline>region = eu\<newline>'', remoteType = '''',
     pvp_params = [(''s3_region'', ''us'')]\<rparr>"

text \<open>
  An option given both in the configuration text and as a parameter of the backend has
  either value: the parameters are written when the key \<open>type\<close> is visited, and the keys that
  the runtime visits after it overwrite them.
\<close>

theorem config_or_parameter_is_random:
  "StoreValue (storage (snd (run_state (loadRcloneConfig sample_host (\<lambda>m. m) (\<lambda>m. m) sample_pvp_region)
      (new_node_state sample_start)))) ''s3'' ''region'' = Some ''eu''
   \<and> StoreValue (storage (snd (run_state (loadRcloneConfig sample_host rev rev sample_pvp_region)
      (new_node_state sample_start)))) ''s3'' ''region'' = Some ''us''"
  by code_simp

end
