(* ===== verification/Mount_Options.thy ===== *)
theory Mount_Options
  imports Sample_Host
begin

text \<open>
  From the merged parameters and mount flags of a volume to the options of rclone,
  \<open>pkg/rclone/nodeserver.go\<close>: the process-wide settings and the configuration of the mount's
  context (\<open>setRcloneConfigFlags\<close>), the mount options (\<open>extractMountOptions\<close>), the options of
  the virtual file system (\<open>extractVFSOptions\<close>) and the mount method (\<open>resolveMountMethod\<close>).
  The option tables of rclone, the defaults that its flags and environment give, and the
  conversion of texts to option values (\<open>configstruct.Set\<close>) come from the host.
\<close>

section \<open>Definitions\<close>

fun config_map_loop :: "string list \<Rightarrow> params \<Rightarrow> params \<Rightarrow> params" where
  "config_map_loop options configMap [] = configMap"
| "config_map_loop options configMap ((key, val) # es) =
     config_map_loop options (if key \<in> set options then put key val configMap else configMap) es"

definition setRcloneConfigFlags ::
    "'w host \<Rightarrow> (params \<Rightarrow> params) \<Rightarrow> config_info \<Rightarrow> params
       \<Rightarrow> ('w, go_error + config_info) node_prog" where
  "setRcloneConfigFlags h rng ci params0 = do {
     e1 \<leftarrow> (case get params0 ''cache_dir'' of
              None \<Rightarrow> return None
            | Some cacheDir \<Rightarrow> do {
                r \<leftarrow> outside (h_Abs h cacheDir);
                case r of
                  Inl e \<Rightarrow> return (Some (StatusError Internal
                             (''failed to set cache directory: '' @ os_error_text e)))
                | Inr dir \<Rightarrow> do { modify (\<lambda>s. s\<lparr>g_cacheDir := dir\<rparr>); return None } });
     case e1 of Some e \<Rightarrow> return (Inl e) | None \<Rightarrow> do {
     e2 \<leftarrow> (case get params0 ''temp_dir'' of
              None \<Rightarrow> return None
            | Some tempDir \<Rightarrow> do {
                r \<leftarrow> outside (h_Abs h tempDir);
                case r of
                  Inl e \<Rightarrow> return (Some (StatusError Internal
                             (''failed to set temp directory: '' @ os_error_text e)))
                | Inr dir \<Rightarrow> do {
                    x \<leftarrow> outside (h_Setenv h ''TMPDIR'' dir);
                    case x of
                      Some e \<Rightarrow> return (Some (StatusError Internal
                                 (''failed to set temp directory: '' @ os_error_text e)))
                    | None \<Rightarrow> do { modify (\<lambda>s. s\<lparr>g_tempDir := dir\<rparr>); return None } } });
     case e2 of Some e \<Rightarrow> return (Inl e) | None \<Rightarrow> do {
     _ \<leftarrow> (case get params0 ''log_level'' of
             None \<Rightarrow> return ()
           | Some logLevel \<Rightarrow> modify (\<lambda>s. s\<lparr>g_logDebug := True\<rparr>));
     ci1 \<leftarrow> return (case get params0 ''disable'' of
             None \<Rightarrow> ci
           | Some disableFeatures \<Rightarrow> ci\<lparr>ci_DisableFeatures := Split disableFeatures (CHR '','')\<rparr>);
     configMap \<leftarrow> return (config_map_loop (h_ConfigOptions h) [] (rng params0));
     case h_SetConfig h (get configMap) ci1 of
       Inl e \<Rightarrow> return (Inl (PlainError (''failed to update global config: '' @ e)))
     | Inr ci2 \<Rightarrow> do {
         r \<leftarrow> outside (h_Reload h ci2);
         case r of
           Some e \<Rightarrow> return (Inl (PlainError (''failed to reload config changes: '' @ e)))
         | None \<Rightarrow> return (Inr ci2) } } } }"

text \<open>
  The loop over the option table that both \<open>extractMountOptions\<close> and \<open>extractVFSOptions\<close>
  have: the default of each option, then the parameter of that name.
\<close>

fun mutable_map_loop :: "getter \<Rightarrow> params \<Rightarrow> params \<Rightarrow> string list \<Rightarrow> params" where
  "mutable_map_loop configMap params0 mutableMap [] = mutableMap"
| "mutable_map_loop configMap params0 mutableMap (name # opts) =
     (let m1 = (case configMap name of Some v \<Rightarrow> put name v mutableMap | None \<Rightarrow> mutableMap);
          m2 = (case get params0 name of Some v \<Rightarrow> put name v m1 | None \<Rightarrow> m1)
      in mutable_map_loop configMap params0 m2 opts)"

definition new_mount_options :: mount_options where
  "new_mount_options = \<lparr>mo_DeviceName = '''', mo_VolumeName = '''', mo_Daemon = False,
     mo_DaemonWait = 0, mo_others = []\<rparr>"

definition new_vfs_options :: vfs_options where
  "new_vfs_options = \<lparr>vo_ReadOnly = False, vo_others = []\<rparr>"

definition extractMountOptions :: "'w host \<Rightarrow> params \<Rightarrow> string + mount_options" where
  "extractMountOptions h params0 =
     (case h_SetMount h (h_MountDefault h) new_mount_options of
        Inl e \<Rightarrow> Inl (''failed to load mount options: '' @ e)
      | Inr mountOpts \<Rightarrow>
          let mutableMap = mutable_map_loop (h_MountDefault h) params0 [] (h_MountOptions h) in
          case h_SetMount h (get mutableMap) mountOpts of
            Inl e \<Rightarrow> Inl (''failed to update mount options: '' @ e)
          | Inr mountOpts2 \<Rightarrow> Inr mountOpts2)"

definition extractVFSOptions :: "'w host \<Rightarrow> params \<Rightarrow> string + vfs_options" where
  "extractVFSOptions h params0 =
     (case h_SetVFS h (h_VFSDefault h) new_vfs_options of
        Inl e \<Rightarrow> Inl (''failed to load VFS options: '' @ e)
      | Inr vfsOpts \<Rightarrow>
          let mutableMap = mutable_map_loop (h_VFSDefault h) params0 [] (h_VFSOptions h) in
          case h_SetVFS h (get mutableMap) vfsOpts of
            Inl e \<Rightarrow> Inl (''failed to update VFS options: '' @ e)
          | Inr vfsOpts2 \<Rightarrow> Inr vfsOpts2)"

fun first_method :: "string list \<Rightarrow> string list \<Rightarrow> string \<times> string option" where
  "first_method mountFns [] = ('''', None)"
| "first_method mountFns (t # ts) =
     (if t \<in> set mountFns then (t, Some t) else first_method mountFns ts)"

definition ResolveMountMethod :: "'w host \<Rightarrow> string \<Rightarrow> string \<times> string option" where
  "ResolveMountMethod h mountType =
     (if mountType \<noteq> ''''
      then (mountType, if mountType \<in> set (h_mountFns h) then Some mountType else None)
      else first_method (h_mountFns h) (h_supportedMountTypes h))"

definition resolveMountMethod :: "'w host \<Rightarrow> params \<Rightarrow> string + (string \<times> string)" where
  "resolveMountMethod h params0 =
     (case get params0 ''mount_type'' of
        Some mountType \<Rightarrow>
          (case ResolveMountMethod h mountType of
             (resolvedType, Some mountFn) \<Rightarrow> Inr (resolvedType, mountFn)
           | (_, None) \<Rightarrow> Inl (''specified mount type '' @ [CHR 0x27] @ mountType @ [CHR 0x27] @ '' not available''))
      | None \<Rightarrow>
          (case ResolveMountMethod h '''' of
             (mountType, Some mountFn) \<Rightarrow> Inr (mountType, mountFn)
           | (_, None) \<Rightarrow> Inl ''no mount methods available''))"

section \<open>Options\<close>

lemma get_mutable_map_loop:
  "get (mutable_map_loop d p m ns) k =
     (if k \<in> set ns then (case get p k of Some v \<Rightarrow> Some v | None \<Rightarrow>
        (case d k of Some v \<Rightarrow> Some v | None \<Rightarrow> get m k)) else get m k)"
  by (induction d p m ns rule: mutable_map_loop.induct)
    (auto simp: Let_def get_put split: option.splits)

text \<open>What the options of a volume are: the parameter if there is one, else the default.\<close>

definition effective :: "getter \<Rightarrow> string list \<Rightarrow> params \<Rightarrow> getter" where
  "effective defaults names p k =
     (if k \<in> set names then (case get p k of Some v \<Rightarrow> Some v | None \<Rightarrow> defaults k) else None)"

lemma mutable_map_effective: "get (mutable_map_loop d p [] ns) = effective d ns p"
  by (intro ext) (auto simp: get_mutable_map_loop effective_def split: option.splits)

text \<open>
  The options that rclone's mount and its virtual file system are configured with are, for
  every option in their tables, the volume's own value where it gives one and rclone's
  default otherwise; parameters that are not in the table are ignored.
\<close>

theorem options_override_defaults:
  "extractMountOptions h p =
     (case h_SetMount h (h_MountDefault h) new_mount_options of
        Inl e \<Rightarrow> Inl (''failed to load mount options: '' @ e)
      | Inr o1 \<Rightarrow> map_sum (\<lambda>e. ''failed to update mount options: '' @ e) id
                  (h_SetMount h (effective (h_MountDefault h) (h_MountOptions h) p) o1))
   \<and> extractVFSOptions h p =
     (case h_SetVFS h (h_VFSDefault h) new_vfs_options of
        Inl e \<Rightarrow> Inl (''failed to load VFS options: '' @ e)
      | Inr o1 \<Rightarrow> map_sum (\<lambda>e. ''failed to update VFS options: '' @ e) id
                  (h_SetVFS h (effective (h_VFSDefault h) (h_VFSOptions h) p) o1))"
  by (simp add: extractMountOptions_def extractVFSOptions_def mutable_map_effective Let_def
      split: sum.splits)

section \<open>The mount method\<close>

lemma first_method_spec:
  "first_method fns ts = (case filter (\<lambda>t. t \<in> set fns) ts of [] \<Rightarrow> ('''', None) | t # _ \<Rightarrow> (t, Some t))"
  by (induction ts) auto

text \<open>
  The mount method is the one the volume names, or an error when rclone has none of that
  name; without one it is the first of rclone's list that is available.
\<close>

theorem resolveMountMethod_choice:
  "resolveMountMethod h p = Inr (t, f) \<longleftrightarrow>
     f = t \<and> t \<in> set (h_mountFns h) \<and>
     (case get p ''mount_type'' of
        Some m \<Rightarrow> (if m = '''' then \<exists>us. filter (\<lambda>t. t \<in> set (h_mountFns h)) (h_supportedMountTypes h) = t # us
                   else m = t)
      | None \<Rightarrow> \<exists>us. filter (\<lambda>t. t \<in> set (h_mountFns h)) (h_supportedMountTypes h) = t # us)"
proof -
  have mem: "t \<in> set fns" if "filter (\<lambda>t. t \<in> set fns) ts = t # us" for fns ts t and us :: "string list"
    using that by (metis filter_eq_Cons_iff)
  show ?thesis
    by (auto simp: resolveMountMethod_def ResolveMountMethod_def first_method_spec
        split: option.splits list.splits if_splits dest: mem)
qed

section \<open>The configuration of the context and the globals of the process\<close>

lemma get_config_map_loop:
  "wf_map es \<Longrightarrow> get (config_map_loop opts m es) k =
     (if k \<in> set opts then (case get es k of Some v \<Rightarrow> Some v | None \<Rightarrow> get m k) else get m k)"
proof (induction opts m es rule: config_map_loop.induct)
  case (2 opts m k1 v1 es)
  then have "get es k1 = None" and "wf_map es" by (auto simp: wf_map_def map_of_eq_None_iff)
  then show ?case using 2(1) by (auto simp: get_put split: option.splits)
qed simp

lemma config_map_values:
  assumes "range_order rng" and "wf_map p"
  shows "get (config_map_loop opts [] (rng p)) = effective Map.empty opts p"
  using assms range_order_wf [OF assms(1), of p] range_order_get [OF assms]
  by (intro ext) (auto simp: get_config_map_loop effective_def split: option.splits)

lemma setRcloneConfigFlags_keeps:
  assumes "preorder_rel R" and "\<And>s w. R s (s\<lparr>world := w\<rparr>)"
    and "\<And>s d. R s (s\<lparr>g_cacheDir := d\<rparr>)" and "\<And>s d. R s (s\<lparr>g_tempDir := d\<rparr>)"
    and "\<And>s. R s (s\<lparr>g_logDebug := True\<rparr>)"
  shows "keeps R (setRcloneConfigFlags h rng ci p)"
  unfolding setRcloneConfigFlags_def
  by (intro keeps_rules assms keeps_outside keeps_modify)

end
