(* ===== verification/Mount_Cleanup.thy ===== *)
theory Mount_Cleanup
  imports Sample_Host
begin

text \<open>
  The removal of a mount point that the unpublish handler ends with:
  \<open>CleanupMountPoint\<close> and \<open>CleanupMountWithForce\<close> of
  \<open>vendor/k8s.io/mount-utils/mount_helper_common.go\<close> with the functions they call.
\<close>

section \<open>Definitions\<close>

definition PathExists :: "'w host \<Rightarrow> string \<Rightarrow> ('w, bool \<times> os_error option) node_prog" where
  "PathExists h path = do {
     r \<leftarrow> outside (h_stat h path);
     case r of
       None \<Rightarrow> return (True, None)
     | Some e \<Rightarrow>
         if IsNotExist e then do {
           a \<leftarrow> outside (h_access h path);
           case a of
             None \<Rightarrow> return (True, Some (ErrCorrupted ''stale NFS file handle''))
           | Some _ \<Rightarrow> return (False, None) }
         else if IsCorruptedMnt (Some e) then return (True, Some e)
         else return (False, Some e) }"

definition removePathIfNotMountPoint :: "'w host \<Rightarrow> string \<Rightarrow> bool \<Rightarrow> ('w, bool \<times> os_error option) node_prog" where
  "removePathIfNotMountPoint h mountPath extensive = do {
     r \<leftarrow> (if extensive
           then do { m \<leftarrow> outside (h_IsMountPoint h mountPath);
                     return (case m of Inl e \<Rightarrow> (True, Some e) | Inr isMnt \<Rightarrow> (\<not> isMnt, None)) }
           else do { m \<leftarrow> outside (h_IsLikelyNotMountPoint h mountPath);
                     return (case m of Inl e \<Rightarrow> (True, Some e) | Inr notMnt \<Rightarrow> (notMnt, None)) });
     case snd r of
       Some e \<Rightarrow> if IsNotExist e then return (True, None) else return (fst r, Some e)
     | None \<Rightarrow>
         if fst r then do { x \<leftarrow> outside (h_Remove h mountPath); return (True, x) }
         else return (False, None) }"

definition removePath :: "'w host \<Rightarrow> string \<Rightarrow> ('w, os_error option) node_prog" where
  "removePath h mountPath = do {
     r \<leftarrow> outside (h_Remove h mountPath);
     case r of
       Some e \<Rightarrow> if IsNotExist e then return None else return (Some e)
     | None \<Rightarrow> return None }"

text \<open>The part the two functions share, with the unmount operation of each.\<close>

definition cleanup_with ::
    "'w host \<Rightarrow> ('w \<Rightarrow> os_error option \<times> 'w) \<Rightarrow> string \<Rightarrow> bool \<Rightarrow> bool \<Rightarrow> ('w, os_error option) node_prog" where
  "cleanup_with h umount mountPath extensive corruptedMnt =
     (if corruptedMnt \<or> h_CanSafelySkipMountPointCheck h then do {
        u \<leftarrow> outside umount;
        case u of Some e \<Rightarrow> return (Some e) | None \<Rightarrow> removePath h mountPath }
      else do {
        r \<leftarrow> removePathIfNotMountPoint h mountPath extensive;
        if snd r \<noteq> None \<or> fst r then return (snd r)
        else do {
          u \<leftarrow> outside umount;
          case u of
            Some e \<Rightarrow> return (Some e)
          | None \<Rightarrow> do {
              r2 \<leftarrow> removePathIfNotMountPoint h mountPath extensive;
              if fst r2 then return (snd r2)
              else return (Some (ErrOther (''failed to cleanup mount point '' @ mountPath))) } } })"

definition CleanupMountPoint :: "'w host \<Rightarrow> string \<Rightarrow> bool \<Rightarrow> ('w, os_error option) node_prog" where
  "CleanupMountPoint h mountPath extensive = do {
     p \<leftarrow> PathExists h mountPath;
     if \<not> fst p \<and> snd p = None then return None
     else if snd p \<noteq> None \<and> \<not> IsCorruptedMnt (snd p)
     then return (Some (ErrOther (''Error checking path: '' @ (case snd p of None \<Rightarrow> '''' | Some e \<Rightarrow> os_error_text e))))
     else cleanup_with h (h_Unmount h mountPath) mountPath extensive (IsCorruptedMnt (snd p)) }"

definition CleanupMountWithForce ::
    "'w host \<Rightarrow> (string \<Rightarrow> nat \<Rightarrow> 'w \<Rightarrow> os_error option \<times> 'w) \<Rightarrow> string \<Rightarrow> bool \<Rightarrow> nat
       \<Rightarrow> ('w, os_error option) node_prog" where
  "CleanupMountWithForce h force mountPath extensive umountTimeout = do {
     p \<leftarrow> PathExists h mountPath;
     if \<not> fst p \<and> snd p = None then return None
     else if snd p \<noteq> None \<and> \<not> IsCorruptedMnt (snd p)
     then return (Some (ErrOther (''Error checking path: '' @ (case snd p of None \<Rightarrow> '''' | Some e \<Rightarrow> os_error_text e))))
     else cleanup_with h (force mountPath umountTimeout) mountPath extensive (IsCorruptedMnt (snd p)) }"

section \<open>Cleaning up acts on the world only\<close>

lemma cleanup_keeps [keeps_rules]:
  assumes "preorder_rel R" and "\<And>s w. R s (s\<lparr>world := w\<rparr>)"
  shows "keeps R (CleanupMountPoint h p b)" and "keeps R (CleanupMountWithForce h f p b n)"
proof -
  have c: "keeps R (cleanup_with h u p b c)" for u c
    unfolding cleanup_with_def removePathIfNotMountPoint_def removePath_def
    by (intro keeps_rules keeps_outside assms)
  show "keeps R (CleanupMountPoint h p b)" and "keeps R (CleanupMountWithForce h f p b n)"
    unfolding CleanupMountPoint_def CleanupMountWithForce_def PathExists_def
    by (intro keeps_rules keeps_outside assms c)+
qed


section \<open>After a successful clean-up nothing is mounted\<close>

text \<open>
  What the operating system promises of a path: the mount check tells the truth, a path
  that does not exist is not mounted, and a directory can be removed only when nothing is
  mounted on it.
\<close>

definition mounter_laws :: "'w host \<Rightarrow> (string \<Rightarrow> 'w \<Rightarrow> bool) \<Rightarrow> bool" where
  "mounter_laws h mounted \<longleftrightarrow>
     (\<forall>p w b w'. h_IsMountPoint h p w = (Inr b, w') \<longrightarrow> mounted p w' = b)
     \<and> (\<forall>p w e w'. h_IsMountPoint h p w = (Inl e, w') \<longrightarrow> IsNotExist e \<longrightarrow> \<not> mounted p w')
     \<and> (\<forall>p w e w' e' w''. h_stat h p w = (Some e, w') \<longrightarrow> IsNotExist e \<longrightarrow>
          h_access h p w' = (Some e', w'') \<longrightarrow> \<not> mounted p w'')
     \<and> (\<forall>p w w'. h_Remove h p w = (None, w') \<longrightarrow> \<not> mounted p w')
     \<and> (\<forall>p w e w'. h_Remove h p w = (Some e, w') \<longrightarrow> IsNotExist e \<longrightarrow> \<not> mounted p w')"

lemma removePath_unmounted:
  assumes "mounter_laws h mounted" and "run_state (removePath h p) s = (None, t)"
  shows "\<not> mounted p (world t)"
  using assms by (auto simp: removePath_def mounter_laws_def split: prod.splits option.splits if_splits)

lemma removePathIfNot_unmounted:
  assumes "mounter_laws h mounted" and "run_state (removePathIfNotMountPoint h p True) s = ((True, None), t)"
  shows "\<not> mounted p (world t)"
proof -
  obtain r w where m: "h_IsMountPoint h p (world s) = (r, w)" by (cases "h_IsMountPoint h p (world s)")
  show ?thesis
  proof (cases r)
    case (Inl e)
    then have "IsNotExist e \<and> world t = w"
      using assms(2) m by (auto simp: removePathIfNotMountPoint_def split: if_splits)
    then show ?thesis using assms(1) m Inl unfolding mounter_laws_def by blast
  next
    case (Inr b)
    obtain x w2 where x: "h_Remove h p w = (x, w2)" by (cases "h_Remove h p w")
    then have "\<not> b \<and> x = None \<and> world t = w2"
      using assms(2) m Inr by (auto simp: removePathIfNotMountPoint_def split: if_splits)
    then show ?thesis using assms(1) x unfolding mounter_laws_def by blast
  qed
qed

lemma cleanup_with_unmounted:
  assumes "mounter_laws h mounted" and "run_state (cleanup_with h u p True c) s = (None, t)"
  shows "\<not> mounted p (world t)"
proof (cases "c \<or> h_CanSafelySkipMountPointCheck h")
  case True
  then show ?thesis using assms removePath_unmounted [OF assms(1)]
    by (auto simp: cleanup_with_def split: prod.splits option.splits)
next
  case False
  obtain b e s1 where r: "run_state (removePathIfNotMountPoint h p True) s = ((b, e), s1)"
    by (metis surj_pair)
  show ?thesis
  proof (cases "e \<noteq> None \<or> b")
    case True
    have fs: "run_state (cleanup_with h u p True c) s = (e, s1)"
      using False r True by (auto simp: cleanup_with_def)
    with assms(2) have "e = None" and "t = s1" by simp_all
    moreover from this True have b by simp
    ultimately show ?thesis using removePathIfNot_unmounted [OF assms(1)] r by simp
  next
    case nb: False
    obtain x w where x: "u (world s1) = (x, w)" by (cases "u (world s1)")
    obtain b2 e2 s2 where r2: "run_state (removePathIfNotMountPoint h p True) (s1\<lparr>world := w\<rparr>) = ((b2, e2), s2)"
      by (metis surj_pair)
    have "x = None \<and> b2 \<and> e2 = None \<and> t = s2"
      using assms(2) False r nb x r2 by (auto simp: cleanup_with_def split: if_splits option.splits)
    then show ?thesis using removePathIfNot_unmounted [OF assms(1)] r2 by simp
  qed
qed

lemma PathExists_absent:
  assumes "mounter_laws h mounted" and "run_state (PathExists h p) s = ((False, None), t)"
  shows "\<not> mounted p (world t)"
  using assms unfolding mounter_laws_def
  by (auto simp: PathExists_def split: prod.splits option.splits if_splits) 

lemma cleanup_unmounted:
  assumes "mounter_laws h mounted"
  shows "run_state (CleanupMountPoint h p True) s = (None, t) \<Longrightarrow> \<not> mounted p (world t)"
    and "run_state (CleanupMountWithForce h f p True n) s = (None, t) \<Longrightarrow> \<not> mounted p (world t)"
proof -
  obtain b e s1 where r: "run_state (PathExists h p) s = ((b, e), s1)" by (metis surj_pair)
  note laws = PathExists_absent [OF assms] cleanup_with_unmounted [OF assms]
  show "run_state (CleanupMountPoint h p True) s = (None, t) \<Longrightarrow> \<not> mounted p (world t)"
    using r laws by (auto simp: CleanupMountPoint_def split: if_splits option.splits)
  show "run_state (CleanupMountWithForce h f p True n) s = (None, t) \<Longrightarrow> \<not> mounted p (world t)"
    using r laws by (auto simp: CleanupMountWithForce_def split: if_splits option.splits)
qed

end
