(* ===== verification/Vfs_Sync.thy ===== *)
theory Vfs_Sync
  imports Sample_Host
begin

text \<open>
  The wait for the uploads of the disk cache before an unmount, \<open>waitForVFSCacheSync\<close> of
  \<open>pkg/rclone/nodeserver.go\<close>.  Times are in seconds.  The loop ends because the retry counter
  is bounded; the counter it returns is the one the code logs.
\<close>

section \<open>Definitions\<close>

definition maxRetries :: nat where
  "maxRetries = 5"

definition sync_timeout :: int where
  "sync_timeout = 120"

definition int_or_zero :: "go_value option \<Rightarrow> 64 word" where
  "int_or_zero v = (case as_int v of Some i \<Rightarrow> i | None \<Rightarrow> 0)"

definition all_clear :: "rc_params \<Rightarrow> bool" where
  "all_clear stats =
     (case as_params (get stats ''diskCache'') of
        Some diskCache \<Rightarrow>
          \<not> (0 <s int_or_zero (get diskCache ''uploadsInProgress'')
             \<or> 0 <s int_or_zero (get diskCache ''uploadsQueued''))
      | None \<Rightarrow> False)"

definition sleepDuration :: "nat \<Rightarrow> int" where
  "sleepDuration retryCount = (if 10 < int retryCount * 2 then 10 else int retryCount * 2)"

definition VFS_Stats :: "'w host \<Rightarrow> vfs_handle \<Rightarrow> ('w, rc_params) node_prog" where
  "VFS_Stats h v = outside (h_VFSStats h v)"

function sync_loop :: "'w host \<Rightarrow> vfs_handle \<Rightarrow> int \<Rightarrow> nat \<Rightarrow> ('w, nat) node_prog" where
  "sync_loop h v timeout retryCount = do {
     t \<leftarrow> outside (h_Now h);
     if t < timeout \<and> retryCount < maxRetries then do {
       stats \<leftarrow> VFS_Stats h v;
       if all_clear stats then return retryCount
       else do {
         outside (\<lambda>w. ((), h_Sleep h (sleepDuration (retryCount + 1)) w));
         sync_loop h v timeout (retryCount + 1) } }
     else return retryCount }"
  by pat_completeness auto
termination
  by (relation "measure (\<lambda>(h, v, timeout, retryCount). maxRetries - retryCount)") auto

declare sync_loop.simps [simp del]

definition waitForVFSCacheSync :: "'w host \<Rightarrow> mount_context option \<Rightarrow> ('w, unit outcome) node_prog" where
  "waitForVFSCacheSync h mc0 =
     (case mc0 of
        None \<Rightarrow> return (Reply ())
      | Some mc \<Rightarrow>
          (case mc_mountPoint mc of
             None \<Rightarrow> return (Reply ())
           | Some mp \<Rightarrow>
               (case mp_VFS mp of
                  None \<Rightarrow> return (Panicked ''nil pointer dereference'')
                | Some v \<Rightarrow> do {
                    stats \<leftarrow> VFS_Stats h v;
                    case as_params (get stats ''diskCache'') of
                      None \<Rightarrow> return (Reply ())
                    | Some _ \<Rightarrow> do {
                        now \<leftarrow> outside (h_Now h);
                        _ \<leftarrow> sync_loop h v (now + sync_timeout) 0;
                        return (Reply ()) } })))"

section \<open>The wait only reads and sleeps\<close>

lemma keeps_Stats [keeps_rules]:
  "(\<And>s w. R s (s\<lparr>world := w\<rparr>)) \<Longrightarrow> keeps R (VFS_Stats h v)"
  unfolding VFS_Stats_def by (rule keeps_outside)

lemma sync_loop_keeps:
  assumes "preorder_rel R" and "\<And>s w. R s (s\<lparr>world := w\<rparr>)"
  shows "keeps R (sync_loop h v timeout n)"
proof (induction "maxRetries - n" arbitrary: n rule: less_induct)
  case less
  show ?case
    by (subst sync_loop.simps)
      (intro keeps_rules keeps_outside assms less; auto simp: maxRetries_def)
qed

lemma waitForVFSCacheSync_keeps [keeps_rules]:
  assumes "preorder_rel R" and "\<And>s w. R s (s\<lparr>world := w\<rparr>)"
  shows "keeps R (waitForVFSCacheSync h mc)"
  unfolding waitForVFSCacheSync_def
  by (intro keeps_rules keeps_outside sync_loop_keeps assms)

section \<open>How long it waits\<close>

text \<open>A clock that sleeping advances and that reading statistics does not.\<close>

definition clocked :: "'w host \<Rightarrow> ('w \<Rightarrow> int) \<Rightarrow> bool" where
  "clocked h c \<longleftrightarrow> (\<forall>w. h_Now h w = (c w, w)) \<and> (\<forall>t w. c (h_Sleep h t w) = c w + t)
     \<and> (\<forall>v w. c (snd (h_VFSStats h v w)) = c w)"

text \<open>The seconds left to sleep after \<open>n\<close> retries.\<close>

fun budget :: "nat \<Rightarrow> int" where
  "budget n = (\<Sum>i = n + 1..5. sleepDuration i)"

lemma budget_step: "n < 5 \<Longrightarrow> budget n = sleepDuration (n + 1) + budget (n + 1)"
  by (simp add: sum.atLeast_Suc_atMost)

lemma budget_0: "budget 0 = 30"
  by (simp add: numeral_eq_Suc sleepDuration_def)

lemma budget_nonneg: "0 \<le> budget n"
  by (simp add: sum_nonneg sleepDuration_def)

declare budget.simps [simp del]

lemma sync_loop_time:
  assumes "clocked h c" and "run_state (sync_loop h v timeout n) s = (r, t)" and "n \<le> 5"
  shows "c (world s) \<le> c (world t) \<and> c (world t) \<le> c (world s) + budget n \<and> n \<le> r \<and> r \<le> 5"
  using assms(2,3)
proof (induction "maxRetries - n" arbitrary: n s rule: less_induct)
  case less
  have now: "h_Now h w = (c w, w)" and slept: "c (h_Sleep h x w) = c w + x"
    and stats: "c (snd (h_VFSStats h v w)) = c w" for w x
    using assms(1) by (simp_all add: clocked_def)
  obtain st w where st: "h_VFSStats h v (world s) = (st, w)" by (cases "h_VFSStats h v (world s)")
  then have cw: "c w = c (world s)" using stats [of "world s"] by simp
  show ?case
  proof (cases "c (world s) < timeout \<and> n < maxRetries \<and> \<not> all_clear st")
    case True
    let ?s = "s\<lparr>world := h_Sleep h (sleepDuration (n + 1)) w\<rparr>"
    have "run_state (sync_loop h v timeout (n + 1)) ?s = (r, t)"
      using less.prems(1) True now st by (subst (asm) sync_loop.simps) (simp add: VFS_Stats_def)
    moreover have "maxRetries - (n + 1) < maxRetries - n" using True by (auto simp: maxRetries_def)
    ultimately have "c (world ?s) \<le> c (world t) \<and> c (world t) \<le> c (world ?s) + budget (n + 1) \<and> n + 1 \<le> r \<and> r \<le> 5"
      using less.hyps [of "n + 1" ?s] True by (auto simp: maxRetries_def)
    moreover have "0 \<le> sleepDuration (n + 1)" by (simp add: sleepDuration_def)
    ultimately show ?thesis
      using True budget_step [of n] cw slept by (simp add: maxRetries_def)
  next
    case False
    then have "r = n \<and> c (world t) = c (world s)"
      using less.prems(1) now st cw by (subst (asm) sync_loop.simps) (auto simp: VFS_Stats_def split: if_splits)
    then show ?thesis using less.prems(2) budget_nonneg [of n] by simp
  qed
qed


text \<open>
  C32: The wait before an unmount ends: it takes at most thirty seconds of sleep, whatever the
  cache reports, so an unpublish is never blocked by an upload that makes no progress.  (The
  deadline of two minutes in the code is never the reason.)
\<close>

theorem sync_wait_bounded:
  assumes "clocked h c"
    and "run_state (waitForVFSCacheSync h mc) s = (r, t)"
  shows "c (world s) \<le> c (world t) \<and> c (world t) \<le> c (world s) + 30"
proof (cases "\<exists>m mp v. mc = Some m \<and> mc_mountPoint m = Some mp \<and> mp_VFS mp = Some v")
  case True
  then obtain m mp v where mc: "mc = Some m" "mc_mountPoint m = Some mp" "mp_VFS mp = Some v" by blast
  have now: "h_Now h w = (c w, w)" and stats: "c (snd (h_VFSStats h v w)) = c w" for w
    using assms(1) by (simp_all add: clocked_def)
  obtain st w where st: "h_VFSStats h v (world s) = (st, w)" by (cases "h_VFSStats h v (world s)")
  then have cw: "c w = c (world s)" using stats [of "world s"] by simp
  show ?thesis
  proof (cases "as_params (get st ''diskCache'')")
    case None
    then show ?thesis using assms(2) mc st cw by (auto simp: waitForVFSCacheSync_def VFS_Stats_def)
  next
    case (Some p)
    obtain n u where n: "run_state (sync_loop h v (c w + sync_timeout) 0) (s\<lparr>world := w\<rparr>) = (n, u)"
      by (cases "run_state (sync_loop h v (c w + sync_timeout) 0) (s\<lparr>world := w\<rparr>)")
    then have "t = u"
      using assms(2) mc st Some now by (simp add: waitForVFSCacheSync_def VFS_Stats_def)
    with sync_loop_time [OF assms(1) n] cw budget_0 show ?thesis by simp
  qed
qed (use assms(2) in \<open>auto simp: waitForVFSCacheSync_def split: option.splits\<close>)

lemma sample_clocked: "clocked sample_host sw_clock"
  by (simp add: clocked_def sample_host_def)

definition sample_mount :: mount_point where
  "sample_mount = \<lparr>mp_MountPoint = ''/pods/p/mount'', mp_MountedOn = 0, mp_MountOpt = \<lparr>mo_DeviceName = ''s3:'',
     mo_VolumeName = ''s3'', mo_Daemon = False, mo_DaemonWait = 60, mo_others = []\<rparr>,
     mp_VFSOpt = \<lparr>vo_ReadOnly = False, vo_others = []\<rparr>, mp_Fs = 0, mp_VFS = Some 0,
     mp_MountFn = ''mount'', mp_UnmountFn = Some 0\<rparr>"

definition sample_context :: mount_context where
  "sample_context = \<lparr>mc_mountPoint = Some sample_mount, mc_remoteName = ''s3'', mc_remotes = [''s3''],
     mc_cancel = Some 0, mc_ctx = Some 0\<rparr>"

definition uploading :: "64 word list \<Rightarrow> sample_world node_state" where
  "uploading ns = new_node_state (sample_start\<lparr>sw_uploads := ns\<rparr>)"

theorem sync_wait_bounded_witness:
  "sw_clock (world (snd (run_state (waitForVFSCacheSync sample_host (Some sample_context)) (uploading [3, 2, 1])))) \<le> 30"
  using sync_wait_bounded [OF sample_clocked, of "Some sample_context" "uploading [3, 2, 1]"
      "fst (run_state (waitForVFSCacheSync sample_host (Some sample_context)) (uploading [3, 2, 1]))"
      "snd (run_state (waitForVFSCacheSync sample_host (Some sample_context)) (uploading [3, 2, 1]))"]
  by (simp add: uploading_def new_node_state_def sample_start_def)

text \<open>What a run of the loop means: either it saw a report without pending uploads, or it gave up.\<close>

lemma sync_loop_result:
  assumes "clocked h c" and "run_state (sync_loop h v timeout n) s = (r, t)" and "n \<le> 5"
    and "c (world s) + budget n < timeout"
  shows "r = 5 \<or> (\<exists>w. all_clear (fst (h_VFSStats h v w)) \<and> world t = snd (h_VFSStats h v w))"
  using assms(2-4)
proof (induction "maxRetries - n" arbitrary: n s rule: less_induct)
  case less
  have now: "h_Now h w = (c w, w)" and slept: "c (h_Sleep h x w) = c w + x"
    and stats: "c (snd (h_VFSStats h v w)) = c w" for w x
    using assms(1) by (simp_all add: clocked_def)
  obtain st w where st: "h_VFSStats h v (world s) = (st, w)" by (cases "h_VFSStats h v (world s)")
  then have cw: "c w = c (world s)" using stats [of "world s"] by simp
  have early: "c (world s) < timeout" using less.prems(3) budget_nonneg [of n] by simp
  consider "n = 5" | "n < 5" "all_clear st" | "n < 5" "\<not> all_clear st" using less.prems(2) by linarith
  then show ?case
  proof cases
    case 1
    then show ?thesis
      using less.prems(1) now by (subst (asm) sync_loop.simps) (simp add: maxRetries_def)
  next
    case 2
    then have "world t = w"
      using less.prems(1) now st early by (subst (asm) sync_loop.simps) (auto simp: VFS_Stats_def maxRetries_def)
    then show ?thesis using 2 st by (metis fst_conv snd_conv)
  next
    case 3
    let ?s = "s\<lparr>world := h_Sleep h (sleepDuration (n + 1)) w\<rparr>"
    have "run_state (sync_loop h v timeout (n + 1)) ?s = (r, t)"
      using less.prems(1) 3 now st early
      by (subst (asm) sync_loop.simps) (simp add: VFS_Stats_def maxRetries_def)
    moreover have "c (world ?s) + budget (n + 1) < timeout"
      using less.prems(3) budget_step [of n] cw slept 3 by simp
    ultimately show ?thesis using less.hyps [of "n + 1" ?s] 3 by (auto simp: maxRetries_def)
  qed
qed

text \<open>
  The driver stops waiting for one of two reasons only: the cache reported that no upload
  is in progress or queued, or five retries were used up.  The second reason ends the wait
  with uploads pending, and the unmount goes ahead.
\<close>

theorem sync_ends_clear_or_exhausted:
  assumes "clocked h c"
    and "run_state (sync_loop h v (c (world s) + sync_timeout) 0) s = (r, t)"
  shows "r = maxRetries
    \<or> (\<exists>w. all_clear (fst (h_VFSStats h v w)) \<and> world t = snd (h_VFSStats h v w))"
  using sync_loop_result [OF assms] by (simp add: budget_0 sync_timeout_def maxRetries_def)

theorem sync_ends_clear_or_exhausted_witness:
  "fst (run_state (sync_loop sample_host 0 120 0) (uploading [3, 1])) = maxRetries
   \<or> (\<exists>w. all_clear (fst (h_VFSStats sample_host 0 w)))"
  using sync_ends_clear_or_exhausted [OF sample_clocked, of 0 "uploading [3, 1]"
      "fst (run_state (sync_loop sample_host 0 120 0) (uploading [3, 1]))"
      "snd (run_state (sync_loop sample_host 0 120 0) (uploading [3, 1]))"]
  by (auto simp: uploading_def new_node_state_def sample_start_def sync_timeout_def)

text \<open>
  Uploads that need longer than thirty seconds are abandoned: with a cache that keeps
  reporting an upload the driver sleeps two, four, six, eight and ten seconds (a linear
  back-off; the comment in the code calls it exponential) and then unmounts.
\<close>

theorem sync_gives_up:
  "run_state (sync_loop sample_host 0 120 0) (uploading (replicate 60 1))
     = (maxRetries, (uploading (replicate 55 1))\<lparr>world := \<lparr>sw_dirs = [''/data''], sw_mounts = [],
          sw_clock = 30, sw_fs = 0, sw_uploads = replicate 55 1\<rparr>\<rparr>)"
  by code_simp

end
