(* ===== verification/Node_Server.thy ===== *)
theory Node_Server
  imports Config_Load Mount_Options Mount_Cleanup Vfs_Sync
begin

text \<open>
  The node service of \<open>pkg/rclone/nodeserver.go\<close>: the stored mount contexts, the preparation
  of the target directory, creating and mounting the file system, the daemon, unmounting, and
  the handlers \<open>NodePublishVolume\<close> and \<open>NodeUnpublishVolume\<close> with their lock.  A run of a
  handler is one request; \<open>Node_Interleaving\<close> has the interleaving of requests.
\<close>

section \<open>The stored mount contexts\<close>

definition getMountContext :: "'w node_state \<Rightarrow> string \<Rightarrow> mount_context option" where
  "getMountContext s targetPath =
     (case mountContexts s of None \<Rightarrow> None | Some m \<Rightarrow> get m targetPath)"

definition setMountContext :: "'w node_state \<Rightarrow> string \<Rightarrow> mount_context \<Rightarrow> 'w node_state" where
  "setMountContext s targetPath mc =
     (let m = (case mountContexts s of None \<Rightarrow> [] | Some m \<Rightarrow> m)
      in s\<lparr>mountContexts := Some (put targetPath mc m)\<rparr>)"

definition deleteMountContext :: "'w node_state \<Rightarrow> string \<Rightarrow> 'w node_state" where
  "deleteMountContext s targetPath =
     s\<lparr>mountContexts := map_option (delete_key targetPath) (mountContexts s)\<rparr>"

interpretation ctx: key_table getMountContext setMountContext deleteMountContext
  by unfold_locales
    (auto simp: getMountContext_def setMountContext_def deleteMountContext_def Let_def go_map
      split: option.splits)

section \<open>The target directory\<close>

definition prepareTargetDirectory :: "'w host \<Rightarrow> string \<Rightarrow> string \<Rightarrow> ('w, go_error option) node_prog" where
  "prepareTargetDirectory h targetPath volumeID = do {
     r \<leftarrow> outside (h_IsLikelyNotMountPoint h targetPath);
     early \<leftarrow> (case r of
         Inl e \<Rightarrow>
           if IsNotExist e then do {
             m \<leftarrow> outside (h_MkdirAll h targetPath);
             case m of
               Some e2 \<Rightarrow> return (Inl (Some (StatusError Internal (os_error_text e2))))
             | None \<Rightarrow> return (Inr True) }
           else return (Inl (Some (StatusError Internal (os_error_text e))))
       | Inr notMnt \<Rightarrow> if \<not> notMnt then return (Inl None) else return (Inr notMnt));
     case early of
       Inl result \<Rightarrow> return result
     | Inr notMnt \<Rightarrow> do {
         _ \<leftarrow> outside (h_Chmod h targetPath);
         if \<not> notMnt then do {
           d \<leftarrow> outside (h_ReadDir h targetPath);
           case d of
             None \<Rightarrow> return None
           | Some _ \<Rightarrow> do {
               u \<leftarrow> outside (h_Unmount h targetPath);
               case u of
                 Some e \<Rightarrow> return (Some (StatusError Internal
                             (''corrupted mount could not be cleaned up: '' @ os_error_text e)))
               | None \<Rightarrow> return None } }
         else return None } }"

section \<open>Contexts and mount points\<close>

definition WithCancel :: "('w, context_id) node_prog" where
  "WithCancel = State (\<lambda>s. (next_context s,
     s\<lparr>live := insert (next_context s) (live s), next_context := Suc (next_context s)\<rparr>))"

definition cancel :: "context_id \<Rightarrow> ('w, unit) node_prog" where
  "cancel c = modify (\<lambda>s. s\<lparr>live := live s - {c}\<rparr>)"

definition NewMountPoint ::
    "string \<Rightarrow> string \<Rightarrow> fs_handle \<Rightarrow> mount_options \<Rightarrow> vfs_options \<Rightarrow> mount_point" where
  "NewMountPoint mountFn mountPoint f mountOpt vfsOpt =
     \<lparr>mp_MountPoint = mountPoint, mp_MountedOn = 0, mp_MountOpt = mountOpt, mp_VFSOpt = vfsOpt,
      mp_Fs = f, mp_VFS = None, mp_MountFn = mountFn, mp_UnmountFn = None\<rparr>"

text \<open>
  \<open>MountPoint.Mount\<close>: with the daemon option the mount is left to a child process, and this
  process keeps a mount point without a virtual file system and without unmount function.
\<close>

definition mount_fuse :: "'w host \<Rightarrow> mount_point \<Rightarrow> ('w, string + (pid option \<times> mount_point)) node_prog" where
  "mount_fuse h m = do {
     v \<leftarrow> outside (h_NewVFS h (mp_Fs m) (mp_VFSOpt m));
     e \<leftarrow> outside (h_MountFn h (mp_MountFn m) v (mp_MountPoint m) (mp_MountOpt m));
     case e of
       Some err \<Rightarrow> return (Inl (''failed to mount FUSE fs: '' @ err))
     | None \<Rightarrow> do {
         t \<leftarrow> outside (h_Now h);
         return (Inr (None, m\<lparr>mp_VFS := Some v, mp_UnmountFn := Some v, mp_MountedOn := t\<rparr>)) } }"

definition Mount :: "'w host \<Rightarrow> mount_point \<Rightarrow> ('w, string + (pid option \<times> mount_point)) node_prog" where
  "Mount h m0 =
     (let m = m0\<lparr>mp_MountOpt := (mp_MountOpt m0)
                  \<lparr>mo_VolumeName := h_VolumeName h (mp_Fs m0) (mo_VolumeName (mp_MountOpt m0)),
                   mo_DeviceName := h_DeviceName h (mp_Fs m0) (mo_DeviceName (mp_MountOpt m0))\<rparr>\<rparr>
      in if mo_Daemon (mp_MountOpt m) then do {
           d \<leftarrow> outside (h_StartDaemon h);
           case d of
             Inl e \<Rightarrow> return (Inl e)
           | Inr (Some p) \<Rightarrow> return (Inr (Some p, m))
           | Inr None \<Rightarrow> mount_fuse h m }
         else mount_fuse h m)"

definition handleRcloneDaemon ::
    "'w host \<Rightarrow> mount_point \<Rightarrow> pid option \<Rightarrow> mount_options \<Rightarrow> context_id \<Rightarrow> ('w, unit outcome) node_prog" where
  "handleRcloneDaemon h m mountDaemon mountOpts c = do {
     (if mo_Daemon mountOpts then modify (\<lambda>s. s\<lparr>g_passConfigKey := True\<rparr>) else return ());
     if mo_DaemonWait mountOpts \<le> 0 then return (Reply ())
     else do {
       modify (\<lambda>s. s\<lparr>g_atexit := g_atexit s + 1\<rparr>);
       r \<leftarrow> outside (h_WaitMountReady h (mp_MountPoint m) (mo_DaemonWait mountOpts) mountDaemon);
       result \<leftarrow> (case r of
           MountReady \<Rightarrow> return (Reply ())
         | NotReady err \<Rightarrow>
             (case mountDaemon of
                None \<Rightarrow> return (Panicked ''nil pointer dereference'')
              | Some p \<Rightarrow> do {
                  _ \<leftarrow> outside (h_Interrupt h p);
                  cancel c;
                  return (Failed (StatusError Internal (''failed to wait for mount: '' @ err))) })
         | ReadyPanic msg \<Rightarrow> return (Panicked msg));
       modify (\<lambda>s. s\<lparr>g_atexit := g_atexit s - 1\<rparr>);
       return result } }"

text \<open>An error after the context exists cancels it.\<close>

definition fail_cancelled :: "context_id \<Rightarrow> go_error \<Rightarrow> ('w, 'a outcome) node_prog" where
  "fail_cancelled c e = do { cancel c; return (Failed e) }"

definition createAndMountFilesystem ::
    "'w host \<Rightarrow> (params \<Rightarrow> params) \<Rightarrow> string \<Rightarrow> string \<Rightarrow> string list \<Rightarrow> params
       \<Rightarrow> ('w, (mount_point \<times> context_id) outcome) node_prog" where
  "createAndMountFilesystem h rng fsPath targetPath mountOptions params0 = do {
     c \<leftarrow> WithCancel;
     ci \<leftarrow> return (h_GlobalConfig h);
     case extractVolumeMountOptions mountOptions of
       Inl e \<Rightarrow> fail_cancelled c (StatusError Internal (''failed to parse volume mount options: '' @ e))
     | Inr volumeMountOpts \<Rightarrow> do {
     opts \<leftarrow> return (mergeCopy (rng params0) (rng volumeMountOpts));
     f \<leftarrow> setRcloneConfigFlags h rng ci opts;
     case f of
       Inl e \<Rightarrow> fail_cancelled c e
     | Inr ci2 \<Rightarrow> do {
     st \<leftarrow> gets storage;
     rcloneFs \<leftarrow> outside (h_NewFs h ci2 fsPath st);
     case rcloneFs of
       Inl e \<Rightarrow> fail_cancelled c (StatusError Internal (''failed to initialize filesystem: '' @ e))
     | Inr fsys \<Rightarrow>
     (case extractMountOptions h opts of
       Inl e \<Rightarrow> fail_cancelled c (StatusError Internal (''failed to parse mount options: '' @ e))
     | Inr mountOpts0 \<Rightarrow>
     (case extractVFSOptions h opts of
       Inl e \<Rightarrow> fail_cancelled c (StatusError Internal (''failed to parse VFS options: '' @ e))
     | Inr vfsOpts \<Rightarrow>
     (case resolveMountMethod h opts of
       Inl e \<Rightarrow> fail_cancelled c (StatusError InvalidArgument (''mount method resolution failed: '' @ e))
     | Inr (mountType, mountFn) \<Rightarrow> do {
     mountOpts \<leftarrow> return (if mo_DeviceName mountOpts0 = ''''
                        then mountOpts0\<lparr>mo_DeviceName := fsPath\<rparr> else mountOpts0);
     m \<leftarrow> Mount h (NewMountPoint mountFn targetPath fsys mountOpts vfsOpts);
     case m of
       Inl e \<Rightarrow> fail_cancelled c (StatusError Internal (''failed to mount: '' @ e))
     | Inr (mountDaemon, mountPoint) \<Rightarrow> do {
     d \<leftarrow> handleRcloneDaemon h mountPoint mountDaemon mountOpts c;
     case d of
       Failed e \<Rightarrow> fail_cancelled c e
     | Panicked msg \<Rightarrow> return (Panicked msg)
     | Reply _ \<Rightarrow> return (Reply (mountPoint, c)) } }))) } } }"


section \<open>Unmounting\<close>

definition Unmount :: "'w host \<Rightarrow> mount_point \<Rightarrow> ('w, string option outcome) node_prog" where
  "Unmount h m =
     (case mp_UnmountFn m of
        None \<Rightarrow> return (Panicked ''nil function call'')
      | Some v \<Rightarrow> do { e \<leftarrow> outside (h_UnmountFn h v); return (Reply e) })"

definition release_mount :: "'w host \<Rightarrow> mount_context \<Rightarrow> mount_point \<Rightarrow> ('w, unit outcome) node_prog" where
  "release_mount h mc mp = do {
     w \<leftarrow> waitForVFSCacheSync h (Some mc);
     case w of
       Panicked msg \<Rightarrow> return (Panicked msg)
     | Failed e \<Rightarrow> return (Failed e)
     | Reply _ \<Rightarrow> do {
         u \<leftarrow> Unmount h mp;
         case u of
           Panicked msg \<Rightarrow> return (Panicked msg)
         | Failed e \<Rightarrow> return (Failed e)
         | Reply _ \<Rightarrow> do {
             (case mc_cancel mc of None \<Rightarrow> return () | Some c \<Rightarrow> cancel c);
             (if mc_remotes mc \<noteq> []
              then modify (\<lambda>s. s\<lparr>storage := fold (\<lambda>name st. DeleteSection st name) (mc_remotes mc) (storage s)\<rparr>)
              else return ());
             return (Reply ()) } } }"

definition unmountVolume ::
    "'w host \<Rightarrow> mount_context option \<Rightarrow> string \<Rightarrow> ('w, os_error option outcome) node_prog" where
  "unmountVolume h mc targetPath = do {
     r \<leftarrow> (case mc of
             None \<Rightarrow> return (Reply ())
           | Some m \<Rightarrow> (case mc_mountPoint m of
                         None \<Rightarrow> return (Reply ())
                       | Some mp \<Rightarrow> release_mount h m mp));
     case r of
       Panicked msg \<Rightarrow> return (Panicked msg)
     | Failed e \<Rightarrow> return (Failed e)
     | Reply _ \<Rightarrow> do {
         err \<leftarrow> (case h_UnmountWithForce h of
                  Some forceUnmounter \<Rightarrow> CleanupMountWithForce h forceUnmounter targetPath True 30
                | None \<Rightarrow> CleanupMountPoint h targetPath True);
         return (Reply err) } }"

section \<open>The handlers\<close>

text \<open>The part of a handler between \<open>TryAcquire\<close> and the deferred \<open>Release\<close>.\<close>

definition volume_busy :: "string \<Rightarrow> go_error" where
  "volume_busy volumeID = StatusError Aborted
     (''An operation with the given Volume ID '' @ volumeID @ '' already exists'')"

definition with_lock ::
    "string \<Rightarrow> string \<Rightarrow> ('w, 'a outcome) node_prog \<Rightarrow> ('w, 'a outcome) node_prog" where
  "with_lock volumeID lockKey body = do {
     vl \<leftarrow> gets volumeLocks;
     (let (acquired, vl2) = TryAcquire vl lockKey in do {
        modify (\<lambda>s. s\<lparr>volumeLocks := vl2\<rparr>);
        if \<not> acquired then return (Failed (volume_busy volumeID))
        else do {
          r \<leftarrow> body;
          modify (\<lambda>s. s\<lparr>volumeLocks := Release (volumeLocks s) lockKey\<rparr>);
          return r } }) }"

text \<open>The body of \<open>NodePublishVolume\<close> once the lock is held.\<close>

definition publish_mount ::
    "'w host \<Rightarrow> (params \<Rightarrow> params) \<Rightarrow> publish_request \<Rightarrow> publish_volume_params \<Rightarrow> string list
       \<Rightarrow> ('w, unit outcome) node_prog" where
  "publish_mount h rng req pvp remotes = do {
     fsPath \<leftarrow> return (buildFsPath (remoteName pvp) (remotePath pvp));
     r \<leftarrow> createAndMountFilesystem h rng fsPath (pr_target_path req) (request_mount_options req) (pvp_params pvp);
     case r of
       Failed e \<Rightarrow> do { cleanupConfigRemotes remotes; return (Failed e) }
     | Panicked msg \<Rightarrow> do { cleanupConfigRemotes remotes; return (Panicked msg) }
     | Reply (mountPoint, c) \<Rightarrow> do {
         modify (\<lambda>s. setMountContext s (pr_target_path req)
           \<lparr>mc_mountPoint = Some mountPoint, mc_remoteName = remoteName pvp, mc_remotes = remotes,
            mc_cancel = Some c, mc_ctx = Some c\<rparr>);
         return (Reply ()) } }"

definition publish_body ::
    "'w host \<Rightarrow> (params \<Rightarrow> params) \<Rightarrow> ((string, params) gomap \<Rightarrow> (string, params) gomap)
       \<Rightarrow> publish_request \<Rightarrow> ('w, unit outcome) node_prog" where
  "publish_body h rng rngs req =
     (let params0 = add_mount_group req (mergeVolumeParameters rng req) in
      case extractPublishParams (rng params0) of
        Inl e \<Rightarrow> return (Failed e)
      | Inr pvp0 \<Rightarrow> do {
          p \<leftarrow> prepareTargetDirectory h (pr_target_path req) (pr_volume_id req);
          case p of
            Some e \<Rightarrow> if error_text e = '''' then return (Reply ()) else return (Failed e)
          | None \<Rightarrow>
              (case generateConfigData rng pvp0 of
                 Inl e \<Rightarrow> return (Failed e)
               | Inr pvp \<Rightarrow> do {
                   l \<leftarrow> loadRcloneConfig h rng rngs pvp;
                   case l of
                     Failed e \<Rightarrow> return (Failed e)
                   | Panicked msg \<Rightarrow> return (Panicked msg)
                   | Reply remotes \<Rightarrow> publish_mount h rng req pvp remotes }) })"

definition NodePublishVolume ::
    "'w host \<Rightarrow> (params \<Rightarrow> params) \<Rightarrow> ((string, params) gomap \<Rightarrow> (string, params) gomap)
       \<Rightarrow> publish_request \<Rightarrow> ('w, unit outcome) node_prog" where
  "NodePublishVolume h rng rngs req =
     (case validatePublishVolumeRequest req of
        Some e \<Rightarrow> return (Failed e)
      | None \<Rightarrow> with_lock (pr_volume_id req) (lock_key (pr_volume_id req) (pr_target_path req))
                 (publish_body h rng rngs req))"

definition unpublish_body :: "'w host \<Rightarrow> unpublish_request \<Rightarrow> ('w, unit outcome) node_prog" where
  "unpublish_body h req = do {
     mc \<leftarrow> gets (\<lambda>s. getMountContext s (ur_target_path req));
     r \<leftarrow> unmountVolume h mc (ur_target_path req);
     case r of
       Panicked msg \<Rightarrow> return (Panicked msg)
     | Failed e \<Rightarrow> return (Failed e)
     | Reply (Some err) \<Rightarrow> return (Failed (StatusError Internal
         (''failed to unmount target '' @ go_quote (ur_target_path req) @ '': '' @ os_error_text err)))
     | Reply None \<Rightarrow> do {
         modify (\<lambda>s. deleteMountContext s (ur_target_path req));
         return (Reply ()) } }"

definition NodeUnpublishVolume :: "'w host \<Rightarrow> unpublish_request \<Rightarrow> ('w, unit outcome) node_prog" where
  "NodeUnpublishVolume h req =
     (case validateUnpublishVolumeRequest req of
        Some e \<Rightarrow> return (Failed e)
      | None \<Rightarrow> with_lock (ur_volume_id req) (lock_key (ur_volume_id req) (ur_target_path req))
                 (unpublish_body h req))"

lemmas node_defs = getMountContext_def setMountContext_def deleteMountContext_def


section \<open>Effects of the operations\<close>

lemma setRcloneConfigFlags_core: "keeps_core (setRcloneConfigFlags h rng ci p)"
  by (rule setRcloneConfigFlags_keeps) simp_all

lemma prepareTargetDirectory_core: "keeps_core (prepareTargetDirectory h t v)"
  unfolding prepareTargetDirectory_def
  by (intro keeps_rules keeps_outside) simp_all

lemma mount_fuse_core: "keeps_core (mount_fuse h m)"
  unfolding mount_fuse_def by (intro keeps_rules keeps_outside) simp_all

lemma Mount_core: "keeps_core (Mount h m)"
  unfolding Mount_def by (intro keeps_rules keeps_outside mount_fuse_core) simp_all

lemma unmount_cleanup_core:
  "keeps_core (waitForVFSCacheSync h mc)" "keeps_core (CleanupMountPoint h p b)"
  "keeps_core (CleanupMountWithForce h f p b n)"
  by (intro waitForVFSCacheSync_keeps cleanup_keeps; simp)+

lemmas core_ops = setRcloneConfigFlags_core prepareTargetDirectory_core Mount_core unmount_cleanup_core

lemma wp_handleRcloneDaemon:
  "wp (handleRcloneDaemon h m d o1 c) (\<lambda>r t.
     core t = core (s\<lparr>live := (case r of Failed e \<Rightarrow> live s - {c} | _ \<Rightarrow> live s)\<rparr>)) s"
  unfolding handleRcloneDaemon_def cancel_def
  by (intro wp_rules) (simp_all add: core_def)

definition mount_effect ::
    "'w node_state \<Rightarrow> string \<Rightarrow> (mount_point \<times> context_id) outcome \<Rightarrow> 'w node_state \<Rightarrow> bool" where
  "mount_effect s target r t \<longleftrightarrow>
     volumeLocks t = volumeLocks s \<and> mountContexts t = mountContexts s \<and> storage t = storage s
     \<and> next_context t = Suc (next_context s)
     \<and> (case r of
          Reply (m, c) \<Rightarrow> c = next_context s \<and> live t = insert c (live s)
        | Failed e \<Rightarrow> live t = live s - {next_context s}
        | Panicked msg \<Rightarrow> live t = insert (next_context s) (live s))"

lemma wp_WithCancel [wp_rules]:
  "Q (next_context s) (s\<lparr>live := insert (next_context s) (live s), next_context := Suc (next_context s)\<rparr>) \<Longrightarrow>
     wp WithCancel Q s"
  by (simp add: wp_def WithCancel_def)

lemma wp_fail_cancelled [wp_rules]:
  "Q (Failed e) (s\<lparr>live := live s - {c}\<rparr>) \<Longrightarrow> wp (fail_cancelled c e) Q s"
  by (simp add: wp_def fail_cancelled_def cancel_def)

lemma wp_createAndMountFilesystem:
  "wp (createAndMountFilesystem h rng fp target os p) (mount_effect s target) s"
  unfolding createAndMountFilesystem_def
  apply (intro wp_rules)
     apply (simp add: mount_effect_def)
    apply (rule wp_core [OF setRcloneConfigFlags_core])
    apply (intro wp_rules)
           apply (auto simp: mount_effect_def core_def) [5]
      apply (rule wp_core [OF Mount_core])
      apply (intro wp_rules)
       apply (auto simp: mount_effect_def core_def) [1]
      apply (rule wp_weaken [OF wp_handleRcloneDaemon])
      apply (intro wp_rules)
        apply (auto simp: mount_effect_def core_def) 
  done


text \<open>The handlers leave the lock table as they found it.\<close>

lemma wp_with_lock:
  assumes "keeps (\<lambda>s t. volumeLocks t = volumeLocks s) body"
  shows "keeps (\<lambda>s t. volumeLocks t = volumeLocks s) (with_lock v k body)"
proof (rule keepsI)
  fix s x t
  assume run: "run_state (with_lock v k body) s = (x, t)"
  show "volumeLocks t = volumeLocks s"
  proof (cases "fst (TryAcquire (volumeLocks s) k)")
    case True
    then obtain l where l: "TryAcquire (volumeLocks s) k = (True, l)" by (metis prod.collapse)
    obtain r u where r: "run_state body (s\<lparr>volumeLocks := l\<rparr>) = (r, u)"
      by (cases "run_state body (s\<lparr>volumeLocks := l\<rparr>)")
    then have "volumeLocks u = l" using keeps_run [OF assms r] by simp
    moreover have "t = u\<lparr>volumeLocks := Release (volumeLocks u) k\<rparr>"
      using run l r by (simp add: with_lock_def Let_def)
    ultimately show ?thesis using bracket_restores [OF True] l by simp
  next
    case False
    then have "TryAcquire (volumeLocks s) k = (False, volumeLocks s)"
      using vl.acquire_result [of "volumeLocks s" k] vl.acquire_busy [of "volumeLocks s" k]
      by (metis prod.collapse)
    then show ?thesis using run by (auto simp: with_lock_def Let_def)
  qed
qed

lemma setMountContext_parts [simp]:
  "volumeLocks (setMountContext s t mc) = volumeLocks s" "storage (setMountContext s t mc) = storage s"
  "live (setMountContext s t mc) = live s" "next_context (setMountContext s t mc) = next_context s"
  "world (setMountContext s t mc) = world s"
  by (simp_all add: setMountContext_def Let_def)

lemma deleteMountContext_parts [simp]:
  "volumeLocks (deleteMountContext s t) = volumeLocks s" "storage (deleteMountContext s t) = storage s"
  "live (deleteMountContext s t) = live s" "next_context (deleteMountContext s t) = next_context s"
  "world (deleteMountContext s t) = world s"
  by (simp_all add: deleteMountContext_def)

lemma createAndMount_locks: "keeps (\<lambda>s t. volumeLocks t = volumeLocks s) (createAndMountFilesystem h rng fp tg os p)"
  using wpD [OF wp_createAndMountFilesystem] by (intro keepsI) (simp add: mount_effect_def, blast)

lemma publish_body_locks: "keeps (\<lambda>s t. volumeLocks t = volumeLocks s) (publish_body h rng rngs req)"
proof -
  have p: "keeps (\<lambda>s t. volumeLocks t = volumeLocks s) (prepareTargetDirectory h tg v)" for tg v
    by (rule keeps_mono [OF prepareTargetDirectory_core]) (simp add: core_def)
  show ?thesis
    unfolding publish_body_def publish_mount_def
    by (intro keeps_rules keeps_modify preorder_same p createAndMount_locks loading_keeps) simp_all
qed

lemma unpublish_body_locks: "keeps (\<lambda>s t. volumeLocks t = volumeLocks s) (unpublish_body h req)"
proof -
  have "keeps (\<lambda>s t. volumeLocks t = volumeLocks s) m"
    if "keeps_core m" for m :: "('w, 'b) node_prog"
    by (rule keeps_mono [OF that]) (simp add: core_def)
  note u = this [OF unmount_cleanup_core(1)] this [OF unmount_cleanup_core(2)] this [OF unmount_cleanup_core(3)]
  show ?thesis
    unfolding unpublish_body_def unmountVolume_def release_mount_def Unmount_def cancel_def
    by (intro keeps_rules keeps_modify keeps_outside preorder_same u) simp_all
qed

lemma NodePublish_locks: "keeps (\<lambda>s t. volumeLocks t = volumeLocks s) (NodePublishVolume h rng rngs req)"
  unfolding NodePublishVolume_def
  by (intro keeps_rules preorder_same wp_with_lock publish_body_locks)

lemma NodeUnpublish_locks: "keeps (\<lambda>s t. volumeLocks t = volumeLocks s) (NodeUnpublishVolume h ureq)"
  unfolding NodeUnpublishVolume_def
  by (intro keeps_rules preorder_same wp_with_lock unpublish_body_locks)

text \<open>
  Whatever happens in a publish or unpublish call, error, panic or success, the lock of
  the volume is free again when the call returns, and the call changes no other lock.
\<close>

theorem handlers_release_lock:
  "volumeLocks (snd (run_state (NodePublishVolume h rng rngs req) s)) = volumeLocks s
   \<and> volumeLocks (snd (run_state (NodeUnpublishVolume h ureq) s)) = volumeLocks s"
  using NodePublish_locks [of h rng rngs req] NodeUnpublish_locks [of h ureq] by (simp add: keeps_def)

text \<open>
  A publish call for a volume and target whose lock is held answers \<open>Aborted\<close> and changes
  nothing, neither the process nor the world.
\<close>

theorem busy_publish_aborts:
  assumes "validatePublishVolumeRequest req = None"
    and "held (volumeLocks s) (lock_key (pr_volume_id req) (pr_target_path req))"
  shows "run_state (NodePublishVolume h rng rngs req) s = (Failed (volume_busy (pr_volume_id req)), s)"
  using assms by (simp add: NodePublishVolume_def with_lock_def TryAcquire_def held_def Let_def)


theorem busy_publish_aborts_witness:
  "run_state (NodePublishVolume sample_host rev rev sample_publish)
      ((new_node_state sample_start)\<lparr>volumeLocks := \<lparr>locks = {''s3#pvc-1-/pods/p/mount''}\<rparr>\<rparr>)
    = (Failed (volume_busy ''s3#pvc-1''),
       (new_node_state sample_start)\<lparr>volumeLocks := \<lparr>locks = {''s3#pvc-1-/pods/p/mount''}\<rparr>\<rparr>)"
  using busy_publish_aborts [of sample_publish
      "(new_node_state sample_start)\<lparr>volumeLocks := \<lparr>locks = {''s3#pvc-1-/pods/p/mount''}\<rparr>\<rparr>" sample_host rev rev]
  by (simp add: sample_publish_def validatePublishVolumeRequest_def held_def lock_key_def)

lemma with_lock_run:
  assumes "run_state (with_lock v k body) s = (r, t)"
    and "keeps (\<lambda>s t. volumeLocks t = volumeLocks s) body"
  obtains "held (volumeLocks s) k" and "r = Failed (volume_busy v)" and "t = s"
    | l u where "\<not> held (volumeLocks s) k" and "run_state body (s\<lparr>volumeLocks := l\<rparr>) = (r, u)"
      and "t = u\<lparr>volumeLocks := volumeLocks s\<rparr>"
proof (cases "held (volumeLocks s) k")
  case True
  then have "run_state (with_lock v k body) s = (Failed (volume_busy v), s)"
    by (simp add: with_lock_def TryAcquire_def held_def Let_def)
  with True show ?thesis using assms(1) that(1) by simp
next
  case False
  define l where "l = snd (TryAcquire (volumeLocks s) k)"
  have l: "TryAcquire (volumeLocks s) k = (True, l)"
    using False vl.acquire_result [of "volumeLocks s" k] by (simp add: l_def prod_eq_iff)
  obtain x u where u: "run_state body (s\<lparr>volumeLocks := l\<rparr>) = (x, u)"
    by (cases "run_state body (s\<lparr>volumeLocks := l\<rparr>)")
  have "x = r" and t: "t = u\<lparr>volumeLocks := Release (volumeLocks u) k\<rparr>"
    using assms(1) l u by (simp_all add: with_lock_def Let_def)
  moreover have "Release (volumeLocks u) k = volumeLocks s"
    using keeps_run [OF assms(2) u] bracket_restores [of "volumeLocks s" k] l by simp
  ultimately show ?thesis using that(2) False u by simp
qed

section \<open>What a publish call does\<close>

definition published_context ::
    "mount_point \<Rightarrow> string \<Rightarrow> string list \<Rightarrow> context_id \<Rightarrow> mount_context" where
  "published_context m name remotes c =
     \<lparr>mc_mountPoint = Some m, mc_remoteName = name, mc_remotes = remotes, mc_cancel = Some c, mc_ctx = Some c\<rparr>"

definition publish_effect :: "publish_request \<Rightarrow> 'w node_state \<Rightarrow> unit outcome \<Rightarrow> 'w node_state \<Rightarrow> bool" where
  "publish_effect req s r t \<longleftrightarrow>
     (case r of
        Reply _ \<Rightarrow> (\<exists>m name remotes.
            mountContexts t = mountContexts (setMountContext s (pr_target_path req)
                                  (published_context m name remotes (next_context s))))
          \<and> live t = insert (next_context s) (live s) \<and> next_context t = Suc (next_context s)
      | Failed e \<Rightarrow> mountContexts t = mountContexts s \<and> next_context s \<le> next_context t
          \<and> (live t = live s \<or> live t = live s - {next_context s})
      | Panicked msg \<Rightarrow> mountContexts t = mountContexts s \<and> next_context s \<le> next_context t
          \<and> live s \<subseteq> live t)"

lemma wp_prepareTargetDirectory:
  "wp (prepareTargetDirectory h tg v)
     (\<lambda>r t. core t = core s \<and> (\<forall>e. r = Some e \<longrightarrow> (\<exists>m. e = StatusError Internal m))) s"
  unfolding prepareTargetDirectory_def by (intro wp_rules) auto

text \<open>The part of the state that loading a configuration keeps.\<close>

definition unloaded :: "'w node_state \<Rightarrow> volume_locks \<times> (string, mount_context) gomap option
    \<times> context_id set \<times> nat" where
  "unloaded s = (volumeLocks s, mountContexts s, live s, next_context s)"

lemma unloaded_simps [simp]:
  "unloaded (s\<lparr>storage := st\<rparr>) = unloaded s" "unloaded (s\<lparr>storage := st, world := w\<rparr>) = unloaded s"
  by (simp_all add: unloaded_def)

lemma loadRcloneConfig_unloaded: "keeps (\<lambda>s t. unloaded t = unloaded s) (loadRcloneConfig h rng rngs pvp)"
  by (rule loading_keeps) simp_all

lemma cleanupConfigRemotes_unloaded: "keeps (\<lambda>s t. unloaded t = unloaded s) (cleanupConfigRemotes rs)"
  by (rule loading_keeps) simp_all

lemma setMountContext_cong:
  "mountContexts s = mountContexts t \<Longrightarrow> mountContexts (setMountContext s p mc) = mountContexts (setMountContext t p mc)"
  by (simp add: setMountContext_def Let_def)

lemma wp_publish_mount: "wp (publish_mount h rng req pvp remotes) (publish_effect req s) s"
  unfolding publish_mount_def
  apply (intro wp_rules)
  apply (rule wp_weaken [OF wp_createAndMountFilesystem])
  apply (intro wp_rules wp_keeps [OF cleanupConfigRemotes_unloaded])
    apply (auto simp: mount_effect_def publish_effect_def unloaded_def published_context_def
      intro: setMountContext_cong)
  done

lemma publish_effect_from:
  "publish_effect req u r t \<Longrightarrow> unloaded u = unloaded s \<Longrightarrow> publish_effect req s r t"
  by (auto simp: publish_effect_def unloaded_def setMountContext_def Let_def split: outcome.splits)

lemma publish_effect_failed:
  "unloaded t = unloaded s \<Longrightarrow> publish_effect req s (Failed e) t"
  "unloaded t = unloaded s \<Longrightarrow> publish_effect req s (Panicked m) t"
  by (auto simp: publish_effect_def unloaded_def)

lemma core_unloaded: "core t = core s \<Longrightarrow> unloaded t = unloaded s"
  by (simp add: core_def unloaded_def)

lemma wp_publish_body:
  fixes s :: "'w node_state"
  shows "wp (publish_body h rng rngs req) (publish_effect req s) s"
proof -
  have mounted: "wp (publish_mount h rng req pvp remotes) (publish_effect req s) u"
    if "unloaded u = unloaded s" for pvp remotes u
    by (rule wp_weaken [OF wp_publish_mount]) (rule publish_effect_from [OF _ that])
  have load: "wp (State_Monad.bind (loadRcloneConfig h rng rngs pvp) (\<lambda>l. case l of
        Reply remotes \<Rightarrow> publish_mount h rng req pvp remotes
      | Failed e \<Rightarrow> return (Failed e) | Panicked msg \<Rightarrow> return (Panicked msg))) (publish_effect req s) u"
    if u: "unloaded u = unloaded s" for pvp u
    by (intro wp_rules wp_keeps [OF loadRcloneConfig_unloaded] mounted publish_effect_failed)
      (simp_all add: u)
  have prep: "wp (State_Monad.bind (prepareTargetDirectory h tg v) (\<lambda>p. case p of
        Some e \<Rightarrow> if error_text e = '''' then return (Reply ()) else return (Failed e)
      | None \<Rightarrow> (case generateConfigData rng pvp0 of
                 Inl e \<Rightarrow> return (Failed e)
               | Inr pvp \<Rightarrow> State_Monad.bind (loadRcloneConfig h rng rngs pvp) (\<lambda>l. case l of
                     Reply remotes \<Rightarrow> publish_mount h rng req pvp remotes
                   | Failed e \<Rightarrow> return (Failed e) | Panicked msg \<Rightarrow> return (Panicked msg)))))
      (publish_effect req s) s" for tg v pvp0
  proof (rule wp_bind, rule wp_weaken [OF wp_prepareTargetDirectory], elim conjE)
    fix x and t :: "'w node_state"
    assume t: "core t = core s" and e: "\<forall>e. x = Some e \<longrightarrow> (\<exists>m. e = StatusError Internal m)"
    note u = core_unloaded [OF t]
    show "wp (case x of
        Some e \<Rightarrow> if error_text e = '''' then return (Reply ()) else return (Failed e)
      | None \<Rightarrow> (case generateConfigData rng pvp0 of
                 Inl e \<Rightarrow> return (Failed e)
               | Inr pvp \<Rightarrow> State_Monad.bind (loadRcloneConfig h rng rngs pvp) (\<lambda>l. case l of
                     Reply remotes \<Rightarrow> publish_mount h rng req pvp remotes
                   | Failed e \<Rightarrow> return (Failed e) | Panicked msg \<Rightarrow> return (Panicked msg)))) (publish_effect req s) t"
    proof (cases x)
      case None
      have "wp (return (Failed e)) (publish_effect req s) t" for e
        by (intro wp_return publish_effect_failed u)
      then show ?thesis using None load [OF u] by (auto split: sum.split)
    next
      case (Some y)
      then have "error_text y \<noteq> ''''" using e by auto
      then show ?thesis using Some by (auto intro!: wp_return publish_effect_failed u)
    qed
  qed
  have "wp (return (Failed e)) (publish_effect req s) s" for e
    by (intro wp_rules publish_effect_failed refl)
  then show ?thesis
    unfolding publish_body_def Let_def using prep by (auto split: sum.splits)
qed


lemma NodePublish_effect:
  assumes "run_state (NodePublishVolume h rng rngs req) s = (r, t)"
  shows "publish_effect req s r t"
proof (cases "validatePublishVolumeRequest req")
  case None
  with assms have "run_state (with_lock (pr_volume_id req) (lock_key (pr_volume_id req) (pr_target_path req))
      (publish_body h rng rngs req)) s = (r, t)" by (simp add: NodePublishVolume_def)
  from this publish_body_locks show ?thesis
  proof (rule with_lock_run)
    assume "r = Failed (volume_busy (pr_volume_id req))" and "t = s"
    then show ?thesis by (simp add: publish_effect_def)
  next
    fix l u
    assume u: "run_state (publish_body h rng rngs req) (s\<lparr>volumeLocks := l\<rparr>) = (r, u)"
      and t: "t = u\<lparr>volumeLocks := volumeLocks s\<rparr>"
    from u have "publish_effect req (s\<lparr>volumeLocks := l\<rparr>) r u" by (rule wpD [OF wp_publish_body])
    then show ?thesis unfolding t
      by (auto simp: publish_effect_def setMountContext_def Let_def split: outcome.splits)
  qed
qed (use assms in \<open>auto simp: NodePublishVolume_def publish_effect_def\<close>)

section \<open>What an unpublish call does\<close>

text \<open>The live contexts and the store after the mount of a context is released.\<close>

definition released_live :: "mount_context option \<Rightarrow> context_id set \<Rightarrow> context_id set" where
  "released_live mc L =
     (case mc of None \<Rightarrow> L
      | Some m \<Rightarrow> (case (mc_mountPoint m, mc_cancel m) of (Some _, Some c) \<Rightarrow> L - {c} | _ \<Rightarrow> L))"

definition released_store :: "mount_context option \<Rightarrow> config_storage \<Rightarrow> config_storage" where
  "released_store mc st =
     (case mc of None \<Rightarrow> st
      | Some m \<Rightarrow> (case mc_mountPoint m of Some _ \<Rightarrow> cs.remove_all st (mc_remotes m) | None \<Rightarrow> st))"

definition unpublish_effect :: "unpublish_request \<Rightarrow> 'w node_state \<Rightarrow> unit outcome \<Rightarrow> 'w node_state \<Rightarrow> bool" where
  "unpublish_effect req s r t \<longleftrightarrow>
     next_context t = next_context s \<and>
     (let mc = getMountContext s (ur_target_path req) in
      case r of
        Reply _ \<Rightarrow> mountContexts t = mountContexts (deleteMountContext s (ur_target_path req))
          \<and> live t = released_live mc (live s) \<and> storage t = released_store mc (storage s)
      | Failed e \<Rightarrow> mountContexts t = mountContexts s
          \<and> (live t = released_live mc (live s) \<and> storage t = released_store mc (storage s)
             \<or> live t = live s \<and> storage t = storage s)
      | Panicked m \<Rightarrow> mountContexts t = mountContexts s \<and> live t = live s \<and> storage t = storage s)"

lemma waitForVFSCacheSync_not_failed:
  "wp (waitForVFSCacheSync h mc) (\<lambda>r t. core t = core s \<and> (\<forall>e. r \<noteq> Failed e)) s"
proof -
  have k: "keeps_core (sync_loop h v d n)" for v d n by (rule sync_loop_keeps) simp_all
  show ?thesis
    unfolding waitForVFSCacheSync_def VFS_Stats_def
    by (intro wp_rules wp_keeps [OF k]) auto
qed

lemma wp_release_mount:
  assumes "mc_mountPoint m = Some mp"
  shows "wp (release_mount h m mp) (\<lambda>r t. volumeLocks t = volumeLocks s \<and> mountContexts t = mountContexts s
      \<and> next_context t = next_context s \<and>
      (case r of
         Reply _ \<Rightarrow> live t = released_live (Some m) (live s) \<and> storage t = released_store (Some m) (storage s)
       | Failed e \<Rightarrow> False
       | Panicked msg \<Rightarrow> live t = live s \<and> storage t = storage s)) s"
proof -
  have u: "wp (Unmount h mp) (\<lambda>r t. core t = core u \<and> (\<forall>e. r \<noteq> Failed e)) u" for u :: "'a node_state"
    unfolding Unmount_def by (intro wp_rules) auto
  show ?thesis
    unfolding release_mount_def cancel_def
    apply (rule wp_bind, rule wp_weaken [OF waitForVFSCacheSync_not_failed])
    apply (intro wp_rules)
      apply (rule wp_weaken [OF u])
      apply (intro wp_rules)
           apply (auto simp: core_def released_live_def released_store_def assms cs.remove_all_def)
    done
qed

lemma unmount_cleanup_wp:
  "wp (case h_UnmountWithForce h of
         Some f \<Rightarrow> CleanupMountWithForce h f tg True 30 | None \<Rightarrow> CleanupMountPoint h tg True)
     (\<lambda>r t. core t = core s) s"
  by (intro wp_rules wp_core [OF unmount_cleanup_core(2)] wp_core [OF unmount_cleanup_core(3)])


lemma wp_unmountVolume:
  fixes s :: "'w node_state"
  shows "wp (unmountVolume h mc tg) (\<lambda>r t. volumeLocks t = volumeLocks s \<and> mountContexts t = mountContexts s
      \<and> next_context t = next_context s \<and>
      (case r of
         Reply _ \<Rightarrow> live t = released_live mc (live s) \<and> storage t = released_store mc (storage s)
       | Failed e \<Rightarrow> False
       | Panicked msg \<Rightarrow> live t = live s \<and> storage t = storage s)) s"
    (is "wp _ ?Q s")
proof -
  have finish: "wp (State_Monad.bind (case h_UnmountWithForce h of
         Some f \<Rightarrow> CleanupMountWithForce h f tg True 30 | None \<Rightarrow> CleanupMountPoint h tg True)
       (\<lambda>err. return (Reply err))) ?Q u"
    if "volumeLocks u = volumeLocks s" "mountContexts u = mountContexts s" "next_context u = next_context s"
      "live u = released_live mc (live s)" "storage u = released_store mc (storage s)" for u
    by (rule wp_bind, rule wp_weaken [OF unmount_cleanup_wp], rule wp_return)
      (use that in \<open>simp add: core_def\<close>)
  show ?thesis
  proof (cases "\<exists>m mp. mc = Some m \<and> mc_mountPoint m = Some mp")
    case True
    then obtain m mp where m: "mc = Some m" "mc_mountPoint m = Some mp" by blast
    show ?thesis
      unfolding unmountVolume_def m option.case
      apply (rule wp_bind, rule wp_weaken [OF wp_release_mount [OF m(2)]])
      apply (intro wp_outcome wp_return finish [unfolded m])
            apply auto
      done
  next
    case False
    then have "unmountVolume h mc tg = State_Monad.bind (case h_UnmountWithForce h of
         Some f \<Rightarrow> CleanupMountWithForce h f tg True 30 | None \<Rightarrow> CleanupMountPoint h tg True)
       (\<lambda>err. return (Reply err))"
      by (cases mc) (simp_all add: unmountVolume_def)
    moreover have "released_live mc (live s) = live s" and "released_store mc (storage s) = storage s"
      using False by (auto simp: released_live_def released_store_def split: option.splits)
    ultimately show ?thesis using finish [of s] by simp
  qed
qed

lemma wp_unpublish_body: "wp (unpublish_body h req) (unpublish_effect req s) s"
  unfolding unpublish_body_def
  apply (intro wp_bind wp_gets)
  apply (rule wp_weaken [OF wp_unmountVolume])
  apply (intro wp_rules)
     apply (auto simp: unpublish_effect_def Let_def deleteMountContext_def)
  done

lemma NodeUnpublish_effect:
  assumes "run_state (NodeUnpublishVolume h req) s = (r, t)"
  shows "unpublish_effect req s r t"
proof (cases "validateUnpublishVolumeRequest req")
  case None
  with assms have "run_state (with_lock (ur_volume_id req) (lock_key (ur_volume_id req) (ur_target_path req))
      (unpublish_body h req)) s = (r, t)" by (simp add: NodeUnpublishVolume_def)
  from this unpublish_body_locks show ?thesis
  proof (rule with_lock_run)
    assume "r = Failed (volume_busy (ur_volume_id req))" and "t = s"
    then show ?thesis by (simp add: unpublish_effect_def Let_def)
  next
    fix l u
    assume u: "run_state (unpublish_body h req) (s\<lparr>volumeLocks := l\<rparr>) = (r, u)"
      and t: "t = u\<lparr>volumeLocks := volumeLocks s\<rparr>"
    from u have "unpublish_effect req (s\<lparr>volumeLocks := l\<rparr>) r u" by (rule wpD [OF wp_unpublish_body])
    then show ?thesis unfolding t
      by (auto simp: unpublish_effect_def getMountContext_def deleteMountContext_def Let_def split: outcome.splits)
  qed
qed (use assms in \<open>auto simp: NodeUnpublishVolume_def unpublish_effect_def Let_def\<close>)

end
