(* ===== verification/Node_Properties.thy ===== *)
theory Node_Properties
  imports Node_Server
begin

text \<open>
  Properties of the node service: the invariant of the stored mount contexts over every
  sequence of calls, what a failed publish leaves, what a publish followed by an unpublish
  restores, and the situations the driver handles badly, as runs of the handlers.
\<close>

section \<open>Sequences of calls\<close>

text \<open>
  The calls that return, in any order, with the world changing in between.  With
  \<open>once = True\<close> no target is published while a context is stored for it.
\<close>

inductive node_step :: "'w host \<Rightarrow> bool \<Rightarrow> 'w node_state \<Rightarrow> 'w node_state \<Rightarrow> bool" for h once where
  publish: "run_state (NodePublishVolume h rng rngs req) s = (r, t) \<Longrightarrow> (\<And>m. r \<noteq> Panicked m) \<Longrightarrow>
     (once \<Longrightarrow> getMountContext s (pr_target_path req) = None) \<Longrightarrow> node_step h once s t"
| unpublish: "run_state (NodeUnpublishVolume h ureq) s = (r, t) \<Longrightarrow> (\<And>m. r \<noteq> Panicked m) \<Longrightarrow>
     node_step h once s t"
| environment: "node_step h once s (s\<lparr>world := w\<rparr>)"

inductive reachable_node :: "'w host \<Rightarrow> bool \<Rightarrow> 'w node_state \<Rightarrow> bool" for h once where
  start: "reachable_node h once (new_node_state w)"
| step: "reachable_node h once s \<Longrightarrow> node_step h once s t \<Longrightarrow> reachable_node h once t"

inductive_cases node_stepE: "node_step h once s t"

text \<open>
  Every stored context has its mount point and its own context, created before and shared
  with no other target.
\<close>

definition contexts_inv :: "'w node_state \<Rightarrow> bool" where
  "contexts_inv s \<longleftrightarrow>
     (\<forall>tg mc. getMountContext s tg = Some mc \<longrightarrow>
        mc_mountPoint mc \<noteq> None \<and> (\<exists>c. mc_cancel mc = Some c \<and> c < next_context s))
     \<and> (\<forall>tg tg' mc mc'. getMountContext s tg = Some mc \<longrightarrow> getMountContext s tg' = Some mc' \<longrightarrow>
          mc_cancel mc = mc_cancel mc' \<longrightarrow> tg = tg')
     \<and> (\<forall>c \<in> live s. c < next_context s)"

text \<open>Every context that still runs belongs to a stored mount.\<close>

definition no_leak :: "'w node_state \<Rightarrow> bool" where
  "no_leak s \<longleftrightarrow> (\<forall>c \<in> live s. \<exists>tg mc. getMountContext s tg = Some mc \<and> mc_cancel mc = Some c)"

lemma getMountContext_cong: "mountContexts t = mountContexts s \<Longrightarrow> getMountContext t = getMountContext s"
  by (intro ext) (simp add: getMountContext_def)

lemma contexts_inv_mono:
  assumes inv: "contexts_inv s"
    and g: "\<And>tg mc. getMountContext t tg = Some mc \<Longrightarrow> getMountContext s tg = Some mc"
    and n: "next_context s \<le> next_context t" and l: "live t \<subseteq> live s"
  shows "contexts_inv t"
proof -
  have "mc_mountPoint mc \<noteq> None \<and> (\<exists>c. mc_cancel mc = Some c \<and> c < next_context t)"
    if "getMountContext t tg = Some mc" for tg mc
  proof -
    from inv g [OF that] obtain c where "mc_mountPoint mc \<noteq> None" "mc_cancel mc = Some c" "c < next_context s"
      unfolding contexts_inv_def by blast
    then show ?thesis using n by auto
  qed
  moreover have "tg = tg'" if "getMountContext t tg = Some a" "getMountContext t tg' = Some b"
    "mc_cancel a = mc_cancel b" for tg tg' a b
    using inv g [OF that(1)] g [OF that(2)] that(3) unfolding contexts_inv_def by blast
  moreover have "c < next_context t" if "c \<in> live t" for c
  proof -
    have "c < next_context s" using inv l that unfolding contexts_inv_def by blast
    then show ?thesis using n by simp
  qed
  ultimately show ?thesis unfolding contexts_inv_def by blast
qed

lemma publish_contexts_inv:
  assumes "publish_effect req s r t" and "\<And>m. r \<noteq> Panicked m" and inv: "contexts_inv s"
  shows "contexts_inv t"
proof (cases r)
  case (Reply x)
  then obtain m name remotes where
    mc: "mountContexts t = mountContexts (setMountContext s (pr_target_path req)
           (published_context m name remotes (next_context s)))"
    and l: "live t = insert (next_context s) (live s)" "next_context t = Suc (next_context s)"
    using assms(1) by (auto simp: publish_effect_def)
  note g = getMountContext_cong [OF mc]
  have "tg = tg'" if "getMountContext t tg = Some a" "getMountContext t tg' = Some b" "mc_cancel a = mc_cancel b" for tg tg' a b
  proof (rule ctx.store_keeps_injective [where f = mc_cancel and v = a and w = b])
    show "j = k" if "getMountContext s j = Some v" "getMountContext s k = Some w" "mc_cancel v = mc_cancel w" for j k v w
      using inv that by (auto simp: contexts_inv_def)
    show "mc_cancel v \<noteq> mc_cancel (published_context m name remotes (next_context s))"
      if "getMountContext s j = Some v" for j v
      using inv that by (force simp: contexts_inv_def published_context_def)
  qed (use that g in simp_all)
  moreover have "mc_mountPoint a \<noteq> None \<and> (\<exists>c. mc_cancel a = Some c \<and> c < next_context t)"
    if a: "getMountContext t tg = Some a" for tg a
  proof (cases "tg = pr_target_path req")
    case True
    then show ?thesis using a l(2) by (simp add: g ctx.lookup_store published_context_def) auto
  next
    case False
    then have "getMountContext s tg = Some a" using a by (simp add: g ctx.lookup_store)
    with inv obtain c where "mc_mountPoint a \<noteq> None" "mc_cancel a = Some c" "c < next_context s"
      unfolding contexts_inv_def by blast
    then show ?thesis using l(2) by auto
  qed
  moreover have "\<forall>c \<in> live t. c < next_context t"
  proof
    fix c assume "c \<in> live t"
    then have "c = next_context s \<or> c \<in> live s" using l(1) by simp
    then have "c \<le> next_context s" using inv unfolding contexts_inv_def by (metis le_less)
    then show "c < next_context t" using l(2) by simp
  qed
  ultimately show ?thesis unfolding contexts_inv_def by blast
next
  case (Failed e)
  then have m: "mountContexts t = mountContexts s" and n: "next_context s \<le> next_context t" "live t \<subseteq> live s"
    using assms(1) by (auto simp: publish_effect_def)
  from getMountContext_cong [OF m] have "getMountContext t tg = Some mc \<Longrightarrow> getMountContext s tg = Some mc" for tg mc
    by (simp only:)
  from contexts_inv_mono [OF inv this n] show ?thesis by blast
next
  case (Panicked m)
  then show ?thesis using assms(2) by simp
qed

lemma unpublish_contexts_inv:
  assumes "unpublish_effect req s r t" and "\<And>m. r \<noteq> Panicked m" and inv: "contexts_inv s"
  shows "contexts_inv t"
proof -
  have sub: "released_live mc L \<subseteq> L" for mc L
    by (auto simp: released_live_def split: option.splits)
  have n: "next_context t = next_context s" and l: "live t \<subseteq> live s"
    and g: "getMountContext t = getMountContext s \<or> getMountContext t = getMountContext (deleteMountContext s (ur_target_path req))"
    using assms(1,2) sub by (auto simp: unpublish_effect_def Let_def split: outcome.splits intro: getMountContext_cong)
  from g have "getMountContext t tg = Some mc \<Longrightarrow> getMountContext s tg = Some mc" for tg mc
    by (auto simp: ctx.lookup_drop split: if_splits)
  from contexts_inv_mono [OF inv this _ l] n show ?thesis by auto
qed

lemma publish_no_leak:
  assumes "publish_effect req s r t" and "\<And>m. r \<noteq> Panicked m"
    and "getMountContext s (pr_target_path req) = None" and nl: "no_leak s"
  shows "no_leak t"
proof (cases r)
  case (Reply x)
  then obtain m name remotes where
    mc: "mountContexts t = mountContexts (setMountContext s (pr_target_path req)
           (published_context m name remotes (next_context s)))"
    and l: "live t = insert (next_context s) (live s)"
    using assms(1) by (auto simp: publish_effect_def)
  note g = getMountContext_cong [OF mc]
  have "\<exists>tg mc. getMountContext t tg = Some mc \<and> mc_cancel mc = Some c" if "c \<in> live t" for c
  proof (cases "c = next_context s")
    case True
    then show ?thesis
      by (intro exI [of _ "pr_target_path req"]) (simp add: g ctx.lookup_store published_context_def)
  next
    case False
    then have "c \<in> live s" using that l by simp
    then obtain tg a where a: "getMountContext s tg = Some a" "mc_cancel a = Some c"
      using nl unfolding no_leak_def by blast
    with assms(3) have "tg \<noteq> pr_target_path req" by auto
    with a show ?thesis by (intro exI [of _ tg]) (simp add: g ctx.lookup_store)
  qed
  then show ?thesis unfolding no_leak_def by blast
next
  case (Failed e)
  then have m: "mountContexts t = mountContexts s" and l: "live t \<subseteq> live s"
    using assms(1) by (auto simp: publish_effect_def)
  show ?thesis using nl l unfolding no_leak_def getMountContext_cong [OF m] by blast
next
  case (Panicked m)
  then show ?thesis using assms(2) by simp
qed

lemma released_live_stored:
  assumes "contexts_inv s" and "getMountContext s tg = Some mc"
  shows "\<exists>c. mc_cancel mc = Some c \<and> released_live (Some mc) L = L - {c}"
proof -
  from assms obtain c where "mc_mountPoint mc \<noteq> None" "mc_cancel mc = Some c"
    unfolding contexts_inv_def by blast
  then show ?thesis by (auto simp: released_live_def split: option.splits)
qed

lemma unpublish_no_leak:
  assumes "unpublish_effect req s r t" and "\<And>m. r \<noteq> Panicked m"
    and inv: "contexts_inv s" and nl: "no_leak s"
  shows "no_leak t"
proof -
  let ?tg = "ur_target_path req"
  have sub: "released_live mc L \<subseteq> L" for mc L
    by (auto simp: released_live_def split: option.splits)
  have "(mountContexts t = mountContexts s \<and> live t \<subseteq> live s)
      \<or> (mountContexts t = mountContexts (deleteMountContext s ?tg)
         \<and> live t = released_live (getMountContext s ?tg) (live s))"
    using assms(1,2) sub by (auto simp: unpublish_effect_def Let_def split: outcome.splits)
  then consider "mountContexts t = mountContexts s" "live t \<subseteq> live s"
    | "mountContexts t = mountContexts (deleteMountContext s ?tg)"
      "live t = released_live (getMountContext s ?tg) (live s)" by blast
  then show ?thesis
  proof cases
    case 1
    then show ?thesis using nl unfolding no_leak_def getMountContext_cong [OF 1(1)] by blast
  next
    case 2
    have "\<exists>tg mc. getMountContext t tg = Some mc \<and> mc_cancel mc = Some c" if c: "c \<in> live t" for c
    proof -
      have "c \<in> live s" using c 2(2) sub by blast
      then obtain tg a where a: "getMountContext s tg = Some a" "mc_cancel a = Some c"
        using nl unfolding no_leak_def by blast
      have "tg \<noteq> ?tg"
      proof
        assume "tg = ?tg"
        with a have "live t = live s - {c}"
          using 2(2) released_live_stored [OF inv, of ?tg a "live s"] by auto
        with c show False by simp
      qed
      then show ?thesis using a
        by (intro exI [of _ tg]) (simp add: getMountContext_cong [OF 2(1)] ctx.lookup_drop)
    qed
    then show ?thesis unfolding no_leak_def by blast
  qed
qed

lemma world_parts [simp]: "getMountContext (s\<lparr>world := w\<rparr>) = getMountContext s"
  by (intro ext) (simp add: getMountContext_def)

lemma world_inv: "contexts_inv s \<Longrightarrow> contexts_inv (s\<lparr>world := w\<rparr>)" "no_leak s \<Longrightarrow> no_leak (s\<lparr>world := w\<rparr>)"
  by (simp_all add: contexts_inv_def no_leak_def)

lemma node_step_inv: "node_step h once s t \<Longrightarrow> contexts_inv s \<Longrightarrow> contexts_inv t"
  by (induction rule: node_step.induct)
    (blast intro: publish_contexts_inv [OF NodePublish_effect] unpublish_contexts_inv [OF NodeUnpublish_effect]
      world_inv)+

lemma node_step_no_leak: "node_step h True s t \<Longrightarrow> contexts_inv s \<Longrightarrow> no_leak s \<Longrightarrow> no_leak t"
  by (induction rule: node_step.induct)
    (blast intro: publish_no_leak [OF NodePublish_effect] unpublish_no_leak [OF NodeUnpublish_effect]
      world_inv)+

lemma start_inv: "contexts_inv (new_node_state w)" "no_leak (new_node_state w)"
  by (simp_all add: contexts_inv_def no_leak_def new_node_state_def getMountContext_def)

lemma reachable_inv: "reachable_node h once s \<Longrightarrow> contexts_inv s"
  by (induction rule: reachable_node.induct) (auto intro: start_inv node_step_inv)

lemma reachable_no_leak: "reachable_node h True s \<Longrightarrow> contexts_inv s \<and> no_leak s"
  by (induction rule: reachable_node.induct) (auto intro: start_inv node_step_inv node_step_no_leak)

lemma node_step_locks: "node_step h once s t \<Longrightarrow> volumeLocks t = volumeLocks s"
  by (induction rule: node_step.induct)
    (auto dest: keeps_run [OF NodePublish_locks] keeps_run [OF NodeUnpublish_locks])

lemma reachable_locks: "reachable_node h once s \<Longrightarrow> volumeLocks s = NewVolumeLocks"
  by (induction rule: reachable_node.induct) (auto simp: new_node_state_def dest: node_step_locks)

text \<open>
  After any sequence of publish and unpublish calls that return, successful or not, no lock
  is held, and every stored mount has its mount point and a context of its own: no two
  targets ever share a context, so cancelling one mount never stops another.
\<close>

theorem reachable_contexts:
  assumes "reachable_node h once s"
  shows "volumeLocks s = NewVolumeLocks \<and> contexts_inv s"
  using reachable_locks [OF assms] reachable_inv [OF assms] by simp

text \<open>
  C7: As long as no target is published while it is still published, no mount context leaks:
  every context that was created and not cancelled belongs to a stored mount, also after
  failed publish and failed unpublish calls.
\<close>

theorem no_context_leaks:
  assumes "reachable_node h True s" and "c \<in> live s"
  shows "\<exists>tg mc. getMountContext s tg = Some mc \<and> mc_cancel mc = Some c"
  using reachable_no_leak [OF assms(1)] assms(2) unfolding no_leak_def by blast

section \<open>The remotes of a publish call\<close>

text \<open>The names of the sections in the configuration that a request leads to.\<close>

definition publish_sections :: "'w host \<Rightarrow> (params \<Rightarrow> params) \<Rightarrow> publish_request \<Rightarrow> string set" where
  "publish_sections h rng req =
     (case extractPublishParams (rng (add_mount_group req (mergeVolumeParameters rng req))) of
        Inl e \<Rightarrow> {}
      | Inr pvp0 \<Rightarrow> (case generateConfigData rng pvp0 of
          Inl e \<Rightarrow> {}
        | Inr pvp \<Rightarrow> (case parseAllConfigRemotes (h_fuel h) (configData pvp) of
            Some (Inr m) \<Rightarrow> fst ` set m
          | _ \<Rightarrow> {})))"

text \<open>The remote that a request mounts.\<close>

definition publish_remote :: "(params \<Rightarrow> params) \<Rightarrow> publish_request \<Rightarrow> string" where
  "publish_remote rng req =
     (case extractPublishParams (rng (add_mount_group req (mergeVolumeParameters rng req))) of
        Inl e \<Rightarrow> '''' | Inr pvp \<Rightarrow> remoteName pvp)"

lemma generated_remote: "generateConfigData rng pvp0 = Inr pvp \<Longrightarrow> remoteName pvp = remoteName pvp0"
  by (auto simp: generateConfigData_def Let_def split: if_splits)

lemma generated_nonempty: "generateConfigData rng pvp0 = Inr pvp \<Longrightarrow> configData pvp \<noteq> ''''"
  by (auto simp: generateConfigData_def Let_def split: if_splits)

lemma wp_publish_mount_store:
  "wp (publish_mount h rng req pvp remotes) (\<lambda>r t.
     storage t = (case r of Reply _ \<Rightarrow> storage s | _ \<Rightarrow> cs.remove_all (storage s) remotes)
     \<and> (r = Reply () \<longrightarrow> (\<exists>m c. getMountContext t (pr_target_path req)
           = Some (published_context m (remoteName pvp) remotes c)))) s"
  unfolding publish_mount_def cleanupConfigRemotes_def
  apply (intro wp_rules)
  apply (rule wp_weaken [OF wp_createAndMountFilesystem])
  apply (intro wp_rules)
      apply (auto simp: mount_effect_def cs.remove_all_def ctx.lookup_store published_context_def)
  done

definition store_effect :: "string set \<Rightarrow> string \<Rightarrow> publish_request \<Rightarrow> 'w node_state \<Rightarrow> unit outcome \<Rightarrow> 'w node_state \<Rightarrow> bool" where
  "store_effect ns name req s r t \<longleftrightarrow> same_outside ns (storage s) (storage t)
     \<and> (r = Reply () \<longrightarrow> (\<exists>m remotes c. getMountContext t (pr_target_path req)
           = Some (published_context m name remotes c) \<and> set remotes = ns))"

lemma same_outside_remove_all: "set rs \<subseteq> ns \<Longrightarrow> same_outside ns st (cs.remove_all st rs)"
  by (auto simp: same_outside_def cs.has_remove_all cs.look_remove_all)

text \<open>Loading writes only the sections of the configuration and answers their names.\<close>

lemma wp_load_sections:
  fixes s :: "'w node_state"
  assumes "updates_own_section h" and "range_order rngs" and "configData pvp \<noteq> ''''"
  shows "wp (loadRcloneConfig h rng rngs pvp) (\<lambda>l u.
     (let ns = (case parseAllConfigRemotes (h_fuel h) (configData pvp) of Some (Inr m) \<Rightarrow> fst ` set m | _ \<Rightarrow> {}) in
      same_outside ns (storage s) (storage u) \<and> (\<forall>remotes. l = Reply remotes \<longrightarrow> set remotes = ns))) s"
proof (rule wpI)
  fix l and u :: "'w node_state"
  assume l: "run_state (loadRcloneConfig h rng rngs pvp) s = (l, u)"
  show "let ns = (case parseAllConfigRemotes (h_fuel h) (configData pvp) of Some (Inr m) \<Rightarrow> fst ` set m | _ \<Rightarrow> {}) in
      same_outside ns (storage s) (storage u) \<and> (\<forall>remotes. l = Reply remotes \<longrightarrow> set remotes = ns)"
  proof (cases "\<exists>m. parseAllConfigRemotes (h_fuel h) (configData pvp) = Some (Inr m)")
    case True
    then obtain m where m: "parseAllConfigRemotes (h_fuel h) (configData pvp) = Some (Inr m)" by blast
    from l assms(3) m obtain r where
      "run_state (load_remotes h rng (pvp_params pvp) [] (rngs m)) s = (r, u)"
      by (rule load_config_cases)
    from load_remotes_frame [OF assms(1) this] range_order_set [OF assms(2), of m]
    have "same_outside (fst ` set m) (storage s) (storage u)" by simp
    moreover have "set remotes = fst ` set m" if "l = Reply remotes" for remotes
      using load_then_cleanup_store [OF assms m] l that by blast
    ultimately show ?thesis using m by simp
  next
    case False
    then have "(\<forall>x. l \<noteq> Reply x) \<and> storage u = storage s"
      using l assms(3) by (auto simp: loadRcloneConfig_def split: option.splits sum.splits)
    then show ?thesis by (auto simp: Let_def)
  qed
qed

lemma wp_load_and_mount:
  fixes s :: "'w node_state"
  assumes "updates_own_section h" and "range_order rngs" and "configData pvp \<noteq> ''''"
  shows "wp (State_Monad.bind (loadRcloneConfig h rng rngs pvp) (\<lambda>l. case l of
          Failed e \<Rightarrow> return (Failed e) | Panicked msg \<Rightarrow> return (Panicked msg)
        | Reply remotes \<Rightarrow> publish_mount h rng req pvp remotes))
     (store_effect (case parseAllConfigRemotes (h_fuel h) (configData pvp) of
            Some (Inr m) \<Rightarrow> fst ` set m | _ \<Rightarrow> {}) (remoteName pvp) req s) s"
    (is "wp _ (store_effect ?ns ?nm req s) s")
proof (rule wp_bind, rule wp_weaken [OF wp_load_sections [OF assms]], unfold Let_def, elim conjE)
  fix l and u :: "'w node_state"
  assume frame: "same_outside ?ns (storage s) (storage u)"
    and remotes: "\<forall>remotes. l = Reply remotes \<longrightarrow> set remotes = ?ns"
  show "wp (case l of Failed e \<Rightarrow> return (Failed e) | Panicked msg \<Rightarrow> return (Panicked msg)
        | Reply remotes \<Rightarrow> publish_mount h rng req pvp remotes) (store_effect ?ns ?nm req s) u"
  proof (cases l)
    case (Reply remotes)
    have rs: "set remotes = ?ns" using remotes Reply by simp
    have "wp (publish_mount h rng req pvp remotes) (store_effect ?ns ?nm req s) u"
    proof (rule wp_weaken [OF wp_publish_mount_store])
      fix r and t :: "'w node_state"
      assume e: "storage t = (case r of Reply _ \<Rightarrow> storage u | _ \<Rightarrow> cs.remove_all (storage u) remotes)
          \<and> (r = Reply () \<longrightarrow> (\<exists>m c. getMountContext t (pr_target_path req)
             = Some (published_context m (remoteName pvp) remotes c)))"
      have "same_outside ?ns (storage u) (storage t)"
        using e rs same_outside_remove_all [of remotes ?ns] by (auto split: outcome.splits)
      then have "same_outside ?ns (storage s) (storage t)" by (rule same_outside_trans [OF frame])
      then show "store_effect ?ns ?nm req s r t" using e rs unfolding store_effect_def by fastforce
    qed
    then show ?thesis using Reply by simp
  qed (use frame in \<open>auto simp: store_effect_def intro: wp_return\<close>)
qed

lemma store_effect_nothing:
  "storage t = storage s \<Longrightarrow> store_effect ns name req s (Failed e) t"
  "storage t = storage s \<Longrightarrow> store_effect ns name req s (Panicked m) t"
  by (simp_all add: store_effect_def)

lemma store_effect_from: "store_effect ns name req u r t \<Longrightarrow> storage u = storage s \<Longrightarrow> store_effect ns name req s r t"
  by (simp add: store_effect_def)

lemma wp_publish_body_store:
  fixes s :: "'w node_state"
  assumes "updates_own_section h" and "range_order rngs"
  shows "wp (publish_body h rng rngs req) (store_effect (publish_sections h rng req) (publish_remote rng req) req s) s"
proof (cases "extractPublishParams (rng (add_mount_group req (mergeVolumeParameters rng req)))")
  case (Inl e)
  then show ?thesis by (simp add: publish_body_def wp_return store_effect_nothing)
next
  case (Inr pvp0)
  have "wp (case x of
        Some e \<Rightarrow> if error_text e = '''' then return (Reply ()) else return (Failed e)
      | None \<Rightarrow> (case generateConfigData rng pvp0 of
                 Inl e \<Rightarrow> return (Failed e)
               | Inr pvp \<Rightarrow> State_Monad.bind (loadRcloneConfig h rng rngs pvp) (\<lambda>l. case l of
                     Failed e \<Rightarrow> return (Failed e) | Panicked msg \<Rightarrow> return (Panicked msg)
                   | Reply remotes \<Rightarrow> publish_mount h rng req pvp remotes)))
      (store_effect (publish_sections h rng req) (publish_remote rng req) req s) t"
    if t: "core t = core s" and e: "\<forall>e. x = Some e \<longrightarrow> (\<exists>m. e = StatusError Internal m)" for x and t :: "'w node_state"
  proof -
    have st: "storage t = storage s" using t by (simp add: core_def)
    show ?thesis
    proof (cases x)
      case (Some y)
      then have "error_text y \<noteq> ''''" using e by auto
      then show ?thesis using Some st by (auto intro!: wp_return store_effect_nothing)
    next
      case None
      show ?thesis
      proof (cases "generateConfigData rng pvp0")
        case (Inl e)
        then show ?thesis using None st by (auto intro!: wp_return store_effect_nothing)
      next
        case gen: (Inr pvp)
        note w = wp_load_and_mount [OF assms generated_nonempty [OF gen], of rng req t]
        have "publish_sections h rng req = (case parseAllConfigRemotes (h_fuel h) (configData pvp) of
            Some (Inr m) \<Rightarrow> fst ` set m | _ \<Rightarrow> {})"
          using Inr gen by (simp add: publish_sections_def)
        moreover have "publish_remote rng req = remoteName pvp"
          using Inr generated_remote [OF gen] by (simp add: publish_remote_def)
        ultimately show ?thesis using w None gen st
          by (auto intro: wp_weaken store_effect_from)
      qed
    qed
  qed
  then show ?thesis unfolding publish_body_def Inr Let_def sum.case
    by (intro wp_bind wp_weaken [OF wp_prepareTargetDirectory]) blast
qed

lemma NodePublish_store:
  assumes "updates_own_section h" and "range_order rngs"
    and "run_state (NodePublishVolume h rng rngs req) s = (r, t)"
  shows "store_effect (publish_sections h rng req) (publish_remote rng req) req s r t"
proof (cases "validatePublishVolumeRequest req")
  case None
  with assms have "run_state (with_lock (pr_volume_id req) (lock_key (pr_volume_id req) (pr_target_path req))
      (publish_body h rng rngs req)) s = (r, t)" by (simp add: NodePublishVolume_def)
  from this publish_body_locks show ?thesis
  proof (rule with_lock_run)
    assume "r = Failed (volume_busy (pr_volume_id req))" and "t = s"
    then show ?thesis by (simp add: store_effect_nothing)
  next
    fix l u
    assume u: "run_state (publish_body h rng rngs req) (s\<lparr>volumeLocks := l\<rparr>) = (r, u)"
      and t: "t = u\<lparr>volumeLocks := volumeLocks s\<rparr>"
    from u have "store_effect (publish_sections h rng req) (publish_remote rng req) req (s\<lparr>volumeLocks := l\<rparr>) r u"
      by (rule wpD [OF wp_publish_body_store [OF assms(1,2)]])
    then show ?thesis unfolding t by (simp add: store_effect_def getMountContext_def)
  qed
qed (use assms in \<open>auto simp: NodePublishVolume_def store_effect_nothing\<close>)

text \<open>
  C20: A publish call touches only the remotes that its own configuration names: whatever the
  outcome, every other section in rclone's memory is as before.
\<close>

theorem publish_store_frame:
  assumes "updates_own_section h" and "range_order rngs"
    and "run_state (NodePublishVolume h rng rngs req) s = (r, t)"
  shows "same_outside (publish_sections h rng req) (storage s) (storage t)"
  using NodePublish_store [OF assms] by (simp add: store_effect_def)

theorem publish_store_frame_witness:
  "same_outside (publish_sections sample_host (\<lambda>m. m) sample_publish) newDefaultStorage
     (storage (snd (run_state (NodePublishVolume sample_host (\<lambda>m. m) (\<lambda>m. m) sample_publish)
        (new_node_state sample_start))))"
  using publish_store_frame [OF sample_updates_own_section range_order_id, of "\<lambda>m. m" sample_publish
      "new_node_state sample_start"] by (simp add: new_node_state_def prod_eq_iff)

text \<open>
  C6: A mount that fails leaves nothing behind in the process: the remotes that were loaded for
  it are removed again, the context that was created for it is cancelled, and the stored
  contexts are those of before.
\<close>

theorem failed_mount_cleans_up:
  assumes "run_state (publish_mount h rng req pvp remotes) s = (Failed e, t)"
  shows "mountContexts t = mountContexts s
    \<and> (live t = live s \<or> live t = live s - {next_context s})
    \<and> same_outside (set remotes) (storage s) (storage t)
    \<and> (\<forall>n \<in> set remotes. \<not> HasSection (storage t) n)"
proof -
  have "storage t = cs.remove_all (storage s) remotes"
    using wpD [OF wp_publish_mount_store assms] by simp
  moreover have "publish_effect req s (Failed e) t" by (rule wpD [OF wp_publish_mount assms])
  ultimately show ?thesis
    by (simp add: publish_effect_def same_outside_remove_all cs.has_remove_all)
qed

definition sample_pvp_badmount :: publish_volume_params where
  "sample_pvp_badmount = \<lparr>remoteName = ''s3'', remotePath = ''bucket'', configData = '''', remoteType = ''s3'',
     pvp_params = [(''mount_type'', ''nfsmount'')]\<rparr>"

definition sample_loaded :: "sample_world node_state" where
  "sample_loaded = (new_node_state sample_start)\<lparr>storage := \<lparr>sections = [(''s3'', [(''type'', ''s3'')]), (''other'', [])]\<rparr>\<rparr>"

theorem failed_mount_cleans_up_witness:
  "\<not> HasSection (storage (snd (run_state
      (publish_mount sample_host (\<lambda>m. m) sample_publish sample_pvp_badmount [''s3'']) sample_loaded))) ''s3''"
proof -
  let ?r = "run_state (publish_mount sample_host (\<lambda>m. m) sample_publish sample_pvp_badmount [''s3'']) sample_loaded"
  let ?e = "StatusError InvalidArgument ''mount method resolution failed: specified mount type 'nfsmount' not available''"
  have "fst ?r = Failed ?e" by code_simp
  then have "run_state (publish_mount sample_host (\<lambda>m. m) sample_publish sample_pvp_badmount [''s3'']) sample_loaded
      = (Failed ?e, snd ?r)" by (simp add: prod_eq_iff)
  from failed_mount_cleans_up [OF this] show ?thesis by simp
qed

section \<open>Publish and unpublish\<close>

lemma unpublish_reply:
  assumes "run_state (NodeUnpublishVolume h req) s = (Reply (), t)"
  shows "mountContexts t = mountContexts (deleteMountContext s (ur_target_path req))
    \<and> live t = released_live (getMountContext s (ur_target_path req)) (live s)
    \<and> storage t = released_store (getMountContext s (ur_target_path req)) (storage s)"
  using NodeUnpublish_effect [OF assms] by (simp add: unpublish_effect_def Let_def)

lemma publish_reply:
  assumes "run_state (NodePublishVolume h rng rngs req) s = (Reply (), t)"
    and "updates_own_section h" and "range_order rngs"
  obtains m name remotes where "getMountContext t =
        getMountContext (setMountContext s (pr_target_path req) (published_context m name remotes (next_context s)))"
    and "live t = insert (next_context s) (live s)" and "set remotes = publish_sections h rng req"
    and "same_outside (publish_sections h rng req) (storage s) (storage t)"
proof -
  have "publish_effect req s (Reply ()) t" using assms(1) by (rule NodePublish_effect)
  then obtain m name remotes where
    mc: "mountContexts t = mountContexts (setMountContext s (pr_target_path req)
           (published_context m name remotes (next_context s)))"
    and l: "live t = insert (next_context s) (live s)"
    by (auto simp: publish_effect_def)
  note g = getMountContext_cong [OF mc]
  have "store_effect (publish_sections h rng req) (publish_remote rng req) req s (Reply ()) t"
    by (rule NodePublish_store [OF assms(2,3,1)])
  then have "set remotes = publish_sections h rng req"
    and "same_outside (publish_sections h rng req) (storage s) (storage t)"
    by (auto simp: store_effect_def g ctx.lookup_store published_context_def)
  with g l that show thesis by blast
qed

text \<open>
  C2: Publishing a volume and unpublishing it again restores the node: the stored contexts and
  the running contexts are those of before, no remote of the volume is left in rclone's
  memory, and no other remote has changed.
\<close>

theorem publish_unpublish_restores:
  assumes "updates_own_section h" and "range_order rngs" and "contexts_inv s"
    and "getMountContext s (pr_target_path req) = None"
    and "run_state (NodePublishVolume h rng rngs req) s = (Reply (), t)"
    and "ur_target_path ureq = pr_target_path req"
    and "run_state (NodeUnpublishVolume h ureq) t = (Reply (), u)"
  shows "getMountContext u = getMountContext s \<and> live u = live s \<and> volumeLocks u = volumeLocks s
    \<and> same_outside (publish_sections h rng req) (storage s) (storage u)
    \<and> (\<forall>n \<in> publish_sections h rng req. \<not> HasSection (storage u) n)"
proof -
  from assms(5,1,2) obtain m name remotes where
    g: "getMountContext t = getMountContext (setMountContext s (pr_target_path req)
          (published_context m name remotes (next_context s)))"
    and l: "live t = insert (next_context s) (live s)" and rs: "set remotes = publish_sections h rng req"
    and st: "same_outside (publish_sections h rng req) (storage s) (storage t)"
    by (rule publish_reply)
  have at: "getMountContext t (ur_target_path ureq) = Some (published_context m name remotes (next_context s))"
    using assms(6) by (simp add: g ctx.lookup_store)
  note un = unpublish_reply [OF assms(7), unfolded at]
  have "getMountContext u = getMountContext (deleteMountContext t (ur_target_path ureq))"
    using un getMountContext_cong by blast
  then have "getMountContext u = getMountContext s"
    using assms(4,6) by (intro ext) (simp add: ctx.lookup_drop g ctx.lookup_store)
  moreover have "next_context s \<notin> live s" using assms(3) unfolding contexts_inv_def by blast
  then have "live u = live s" using un l by (simp add: released_live_def published_context_def)
  moreover have su: "storage u = cs.remove_all (storage t) remotes"
    using un by (simp add: released_store_def published_context_def)
  then have "same_outside (publish_sections h rng req) (storage t) (storage u)"
    using rs by (simp add: same_outside_remove_all)
  then have "same_outside (publish_sections h rng req) (storage s) (storage u)"
    by (rule same_outside_trans [OF st])
  moreover have "volumeLocks u = volumeLocks s"
    using keeps_run [OF NodePublish_locks assms(5)] keeps_run [OF NodeUnpublish_locks assms(7)] by simp
  ultimately show ?thesis using su rs by (simp add: cs.has_remove_all)
qed

definition sample_unpublish :: unpublish_request where
  "sample_unpublish = \<lparr>ur_volume_id = ''s3#pvc-1'', ur_target_path = ''/pods/p/mount''\<rparr>"

text \<open>
  The node with the sample volume mounted at the given targets, the first of them oldest.
\<close>

definition sample_entry :: "vfs_options \<Rightarrow> params \<Rightarrow> string \<Rightarrow> nat \<Rightarrow> string \<times> mount_context" where
  "sample_entry vo others tg n = (tg, published_context
     \<lparr>mp_MountPoint = tg, mp_MountedOn = 0,
      mp_MountOpt = \<lparr>mo_DeviceName = ''s3:bucket'', mo_VolumeName = ''volume'', mo_Daemon = False,
        mo_DaemonWait = 60, mo_others = others\<rparr>,
      mp_VFSOpt = vo, mp_Fs = n, mp_VFS = Some n, mp_MountFn = ''mount'', mp_UnmountFn = Some n\<rparr>
     ''s3'' [''s3''] n)"

definition sample_node :: "(string \<times> mount_context) list \<Rightarrow> bool \<Rightarrow> nat list \<Rightarrow> nat \<Rightarrow> string list \<Rightarrow> string list
    \<Rightarrow> sample_world node_state" where
  "sample_node entries loaded running n dirs mounts =
     \<lparr>volumeLocks = NewVolumeLocks, mountContexts = Some entries,
      storage = \<lparr>sections = (if loaded then [(''s3'', [(''type'', ''s3''), (''region'', ''eu'')])] else [])\<rparr>,
      live = set running, next_context = n, g_cacheDir = '''', g_tempDir = '''', g_logDebug = False,
      g_passConfigKey = False, g_atexit = 0,
      world = \<lparr>sw_dirs = dirs, sw_mounts = mounts, sw_clock = 0, sw_fs = n, sw_uploads = []\<rparr>\<rparr>"

definition read_only_vfs :: vfs_options where
  "read_only_vfs = \<lparr>vo_ReadOnly = True, vo_others = []\<rparr>"

definition sample_published :: "sample_world node_state" where
  "sample_published = sample_node [sample_entry read_only_vfs [] ''/pods/p/mount'' 0] True [0] 1
     [''/pods/p/mount'', ''/data''] [''/pods/p/mount'']"

lemma sample_publish_run:
  "run_state (NodePublishVolume sample_host (\<lambda>m. m) (\<lambda>m. m) sample_publish) (new_node_state sample_start)
     = (Reply (), sample_published)"
  by code_simp

theorem publish_unpublish_restores_witness:
  "live (snd (run_state (NodeUnpublishVolume sample_host sample_unpublish) sample_published)) = {}"
proof -
  let ?u = "run_state (NodeUnpublishVolume sample_host sample_unpublish) sample_published"
  have "fst ?u = Reply ()" by code_simp
  then have u: "?u = (Reply (), snd ?u)" by (simp add: prod_eq_iff)
  have "getMountContext (new_node_state sample_start) (pr_target_path sample_publish) = None"
    and "ur_target_path sample_unpublish = pr_target_path sample_publish" by code_simp+
  from publish_unpublish_restores [OF sample_updates_own_section range_order_id start_inv(1) this(1)
      sample_publish_run this(2) u]
  show ?thesis by (simp add: new_node_state_def)
qed

lemma reachable_published: "reachable_node sample_host True sample_published"
  by (rule reachable_node.step [OF reachable_node.start], rule node_step.publish [OF sample_publish_run])
    (simp_all add: new_node_state_def getMountContext_def)

theorem reachable_contexts_witness: "volumeLocks sample_published = NewVolumeLocks"
  using reachable_contexts [OF reachable_published] by simp

theorem no_context_leaks_witness:
  "\<exists>tg mc. getMountContext sample_published tg = Some mc \<and> mc_cancel mc = Some 0"
proof (rule no_context_leaks [OF reachable_published])
  show "0 \<in> live sample_published" by code_simp
qed

text \<open>
  C18: An unpublish call that succeeds leaves nothing mounted at the target, whatever was
  mounted there and by whom, and forgets the target's context.  It rests on the mount check
  of the operating system telling the truth and on a directory with a mount on it being
  impossible to remove.
\<close>

theorem unpublish_unmounts:
  assumes "mounter_laws h mounted"
    and "run_state (NodeUnpublishVolume h req) s = (Reply (), t)"
  shows "\<not> mounted (ur_target_path req) (world t) \<and> getMountContext t (ur_target_path req) = None"
proof -
  have m: "mountContexts t = mountContexts (deleteMountContext s (ur_target_path req))"
    using unpublish_reply [OF assms(2)] by blast
  have c: "getMountContext t (ur_target_path req) = None"
    unfolding getMountContext_cong [OF m] by (simp add: ctx.lookup_drop)
  have "validateUnpublishVolumeRequest req = None"
    using assms(2) by (auto simp: NodeUnpublishVolume_def split: option.splits)
  with assms(2) have "run_state (with_lock (ur_volume_id req) (lock_key (ur_volume_id req) (ur_target_path req))
      (unpublish_body h req)) s = (Reply (), t)" by (simp add: NodeUnpublishVolume_def)
  from this unpublish_body_locks have "\<not> mounted (ur_target_path req) (world t)"
  proof (rule with_lock_run)
    fix l u
    assume u: "run_state (unpublish_body h req) (s\<lparr>volumeLocks := l\<rparr>) = (Reply (), u)"
      and t: "t = u\<lparr>volumeLocks := volumeLocks s\<rparr>"
    have "wp (unpublish_body h req) (\<lambda>r t. r = Reply () \<longrightarrow> \<not> mounted (ur_target_path req) (world t))
        (s\<lparr>volumeLocks := l\<rparr>)"
      unfolding unpublish_body_def
    proof (intro wp_bind wp_gets)
      have "wp (unmountVolume h mc tg) (\<lambda>r t. r = Reply None \<longrightarrow> \<not> mounted tg (world t)) s'" for mc tg s'
        unfolding unmountVolume_def
        by (intro wp_rules wpI) (auto dest: cleanup_unmounted [OF assms(1)])
      then show "wp (unmountVolume h (getMountContext (s\<lparr>volumeLocks := l\<rparr>) (ur_target_path req)) (ur_target_path req))
        (\<lambda>x. wp (case x of Reply None \<Rightarrow> State_Monad.bind (modify (\<lambda>s. deleteMountContext s (ur_target_path req)))
                   (\<lambda>_. return (Reply ()))
                | Reply (Some err) \<Rightarrow> return (Failed (StatusError Internal
                   (''failed to unmount target '' @ go_quote (ur_target_path req) @ '': '' @ os_error_text err)))
                | Failed e \<Rightarrow> return (Failed e) | Panicked msg \<Rightarrow> return (Panicked msg))
           (\<lambda>r t. r = Reply () \<longrightarrow> \<not> mounted (ur_target_path req) (world t))) (s\<lparr>volumeLocks := l\<rparr>)"
        by (rule wp_weaken) (intro wp_rules; simp)
    qed
    from wpD [OF this u] show ?thesis unfolding t by simp
  qed simp
  with c show ?thesis by simp
qed

lemma sample_mounter_laws: "mounter_laws sample_host sample_mounted"
  by (auto simp: mounter_laws_def sample_host_def sample_mounted_def sample_exists_def split: if_splits)

theorem unpublish_unmounts_witness:
  "\<not> sample_mounted ''/pods/p/mount''
      (world (snd (run_state (NodeUnpublishVolume sample_host sample_unpublish) sample_published)))"
proof -
  let ?u = "run_state (NodeUnpublishVolume sample_host sample_unpublish) sample_published"
  have "fst ?u = Reply ()" by code_simp
  then have "?u = (Reply (), snd ?u)" by (simp add: prod_eq_iff)
  from unpublish_unmounts [OF sample_mounter_laws this] show ?thesis by (simp add: sample_unpublish_def)
qed

end
