(* ===== verification/Node_Refinement.thy ===== *)
theory Node_Refinement
  imports Node_Properties
begin

text \<open>
  The node service as a mount table: what a client of \<open>NodePublishVolume\<close> and
  \<open>NodeUnpublishVolume\<close> can rely on, and the proof that the handlers implement it.
\<close>

section \<open>The abstract service\<close>

text \<open>
  A table from target paths to what is mounted there: the remote and the sections of rclone's
  configuration that belong to the mount.
\<close>

type_synonym mount_table = "string \<Rightarrow> (string \<times> string set) option"

datatype node_event =
    Published string string "string set"
  | Unpublished string
  | Refused

fun table_step :: "node_event \<Rightarrow> mount_table \<Rightarrow> mount_table" where
  "table_step (Published target remote secs) m = m(target \<mapsto> (remote, secs))"
| "table_step (Unpublished target) m = m(target := None)"
| "table_step Refused m = m"

definition run_table :: "node_event list \<Rightarrow> mount_table \<Rightarrow> mount_table" where
  "run_table es m = fold table_step es m"

section \<open>The handlers as events\<close>

definition table_of :: "'w node_state \<Rightarrow> mount_table" where
  "table_of s target = map_option (\<lambda>mc. (mc_remoteName mc, set (mc_remotes mc))) (getMountContext s target)"

text \<open>A request, with the visiting orders of the run-time for a publish.\<close>

datatype node_request =
    PublishRequest "params \<Rightarrow> params" "(string, params) gomap \<Rightarrow> (string, params) gomap" publish_request
  | UnpublishRequest unpublish_request

fun serve_request :: "'w host \<Rightarrow> node_request \<Rightarrow> ('w, unit outcome) node_prog" where
  "serve_request h (PublishRequest rng rngs req) = NodePublishVolume h rng rngs req"
| "serve_request h (UnpublishRequest req) = NodeUnpublishVolume h req"

fun request_ok :: "node_request \<Rightarrow> bool" where
  "request_ok (PublishRequest rng rngs req) = range_order rngs"
| "request_ok (UnpublishRequest req) = True"

text \<open>The event of a request with its outcome: a failure is no event of the table.\<close>

fun event_of :: "'w host \<Rightarrow> node_request \<Rightarrow> unit outcome \<Rightarrow> node_event" where
  "event_of h (PublishRequest rng rngs req) (Reply _) =
     Published (pr_target_path req) (publish_remote rng req) (publish_sections h rng req)"
| "event_of h (UnpublishRequest req) (Reply _) = Unpublished (ur_target_path req)"
| "event_of h _ _ = Refused"

fun serve_all :: "'w host \<Rightarrow> node_request list \<Rightarrow> 'w node_state \<Rightarrow> node_event list \<times> 'w node_state" where
  "serve_all h [] s = ([], s)"
| "serve_all h (q # qs) s =
     (let (r, t) = run_state (serve_request h q) s; (es, u) = serve_all h qs t in (event_of h q r # es, u))"

section \<open>The simulation\<close>

lemma table_of_cong: "getMountContext t = getMountContext s \<Longrightarrow> table_of t = table_of s"
  by (rule ext) (simp add: table_of_def)

lemma publish_simulates:
  assumes "updates_own_section h" and "range_order rngs"
    and run: "run_state (NodePublishVolume h rng rngs req) s = (r, t)"
  shows "table_of t = table_step (event_of h (PublishRequest rng rngs req) r) (table_of s)"
proof (cases r)
  case (Reply x)
  have "publish_effect req s r t" using run by (rule NodePublish_effect)
  then obtain m name remotes where
    "mountContexts t = mountContexts (setMountContext s (pr_target_path req)
       (published_context m name remotes (next_context s)))"
    using Reply by (auto simp: publish_effect_def)
  note g = getMountContext_cong [OF this]
  have "store_effect (publish_sections h rng req) (publish_remote rng req) req s r t"
    by (rule NodePublish_store [OF assms])
  then have "table_of t (pr_target_path req) = Some (publish_remote rng req, publish_sections h rng req)"
    using Reply by (auto simp: store_effect_def table_of_def published_context_def)
  moreover have "table_of t target = table_of s target" if "target \<noteq> pr_target_path req" for target
    using that by (simp add: table_of_def g ctx.lookup_store)
  ultimately show ?thesis using Reply by auto
next
  case (Failed e)
  then have "mountContexts t = mountContexts s" using NodePublish_effect [OF run] by (simp add: publish_effect_def)
  then show ?thesis using Failed table_of_cong [OF getMountContext_cong] by simp
next
  case (Panicked e)
  then have "mountContexts t = mountContexts s" using NodePublish_effect [OF run] by (simp add: publish_effect_def)
  then show ?thesis using Panicked table_of_cong [OF getMountContext_cong] by simp
qed

lemma unpublish_simulates:
  assumes run: "run_state (NodeUnpublishVolume h req) s = (r, t)"
  shows "table_of t = table_step (event_of h (UnpublishRequest req) r) (table_of s)"
proof (cases r)
  case (Reply x)
  then have "mountContexts t = mountContexts (deleteMountContext s (ur_target_path req))"
    using unpublish_reply [of h req s t] run by simp
  note g = getMountContext_cong [OF this]
  show ?thesis using Reply by (auto simp: table_of_def g ctx.lookup_drop)
next
  case (Failed e)
  then have "mountContexts t = mountContexts s"
    using NodeUnpublish_effect [OF run] by (simp add: unpublish_effect_def Let_def)
  then show ?thesis using Failed table_of_cong [OF getMountContext_cong] by simp
next
  case (Panicked e)
  then have "mountContexts t = mountContexts s"
    using NodeUnpublish_effect [OF run] by (simp add: unpublish_effect_def Let_def)
  then show ?thesis using Panicked table_of_cong [OF getMountContext_cong] by simp
qed

lemma request_simulates:
  assumes "updates_own_section h" and "request_ok q" and "run_state (serve_request h q) s = (r, t)"
  shows "table_of t = table_step (event_of h q r) (table_of s)"
proof (cases q)
  case (PublishRequest rng rngs req)
  then show ?thesis using publish_simulates [of h rngs rng req s r t] assms by simp
next
  case (UnpublishRequest req)
  then show ?thesis using unpublish_simulates [of h req s r t] assms by simp
qed

text \<open>
  C1: The node service implements a mount table.  For every sequence of publish and unpublish
  requests, whatever their outcomes and whatever the host does, the stored contexts are what
  the events of the successful requests make of the table before: a publish enters the remote that the
  request names and the sections of its configuration under its target, an unpublish removes
  the target, and a request that fails changes nothing.
\<close>

theorem node_refines_mount_table:
  assumes "updates_own_section h" and "\<forall>q \<in> set qs. request_ok q"
    and "serve_all h qs s = (es, t)"
  shows "table_of t = run_table es (table_of s)"
  using assms(2,3)
proof (induction qs arbitrary: s es)
  case (Cons q qs)
  obtain r u where run: "run_state (serve_request h q) s = (r, u)" by (cases "run_state (serve_request h q) s")
  obtain es' v where rest: "serve_all h qs u = (es', v)" by (cases "serve_all h qs u")
  have "es = event_of h q r # es'" and "t = v" using Cons.prems(2) run rest by auto
  then show ?case
    using Cons.IH [of u es'] Cons.prems(1) rest request_simulates [OF assms(1) _ run]
    by (simp add: run_table_def)
qed (simp add: run_table_def)

definition sample_requests :: "node_request list" where
  "sample_requests = [PublishRequest (\<lambda>m. m) (\<lambda>m. m) sample_publish, UnpublishRequest sample_unpublish]"

theorem node_refines_mount_table_witness:
  "fst (serve_all sample_host sample_requests (new_node_state sample_start))
     = [Published ''/pods/p/mount'' ''s3'' {''s3''}, Unpublished ''/pods/p/mount'']
   \<and> table_of (snd (serve_all sample_host sample_requests (new_node_state sample_start))) ''/pods/p/mount'' = None"
proof -
  let ?r = "serve_all sample_host sample_requests (new_node_state sample_start)"
  have es: "fst ?r = [Published ''/pods/p/mount'' ''s3'' {''s3''}, Unpublished ''/pods/p/mount'']"
    by code_simp
  have "\<forall>q \<in> set sample_requests. request_ok q" by (simp add: sample_requests_def range_order_id)
  from node_refines_mount_table [OF sample_updates_own_section this prod.collapse [symmetric]]
  have "table_of (snd ?r) = run_table (fst ?r) (table_of (new_node_state sample_start))" .
  then show ?thesis using es by (simp add: run_table_def)
qed

end
