(* ===== verification/Node_Hazards.thy ===== *)
theory Node_Hazards
  imports Node_Properties
begin

text \<open>
  Situations in which the node service does not do what its comments say, each as a property
  of the handlers: a target that is already mounted, two volumes with a remote of one name,
  the daemon option, a mount that is slow to appear, and settings of one volume that act on
  the whole process.
\<close>

section \<open>A target that is already mounted\<close>

text \<open>
  The recovery of a corrupted mount in \<open>prepareTargetDirectory\<close> never runs: neither what
  reading the directory says nor what unmounting it does has any influence on the result or
  the state.  A target that is a mount point is accepted before, and the publish goes on to
  mount a second time, since the handler cannot tell it from a fresh directory.
\<close>

theorem recovery_never_runs:
  "prepareTargetDirectory (h\<lparr>h_ReadDir := rd, h_Unmount := um\<rparr>) tg v = prepareTargetDirectory h tg v
   \<and> (fst (h_IsLikelyNotMountPoint h tg (world s)) = Inr False \<longrightarrow>
        run_state (prepareTargetDirectory h tg v) s
          = (None, s\<lparr>world := snd (h_IsLikelyNotMountPoint h tg (world s))\<rparr>))"
proof
  show "prepareTargetDirectory (h\<lparr>h_ReadDir := rd, h_Unmount := um\<rparr>) tg v = prepareTargetDirectory h tg v"
    by (rule state_ext)
      (auto simp: prepareTargetDirectory_def split: prod.splits sum.splits option.splits)
  show "fst (h_IsLikelyNotMountPoint h tg (world s)) = Inr False \<longrightarrow>
      run_state (prepareTargetDirectory h tg v) s
        = (None, s\<lparr>world := snd (h_IsLikelyNotMountPoint h tg (world s))\<rparr>)"
    by (cases "h_IsLikelyNotMountPoint h tg (world s)") (auto simp: prepareTargetDirectory_def)
qed

theorem recovery_never_runs_witness:
  "run_state (prepareTargetDirectory sample_host ''/pods/p/mount'' ''v'') sample_published = (None, sample_published)"
proof -
  let ?r = "h_IsLikelyNotMountPoint sample_host ''/pods/p/mount'' (world sample_published)"
  have "fst ?r = Inr False" and w: "snd ?r = world sample_published" by code_simp+
  with recovery_never_runs [where h = sample_host and tg = "''/pods/p/mount''" and v = "''v''" and s = sample_published]
  have "run_state (prepareTargetDirectory sample_host ''/pods/p/mount'' ''v'') sample_published
      = (None, sample_published\<lparr>world := world sample_published\<rparr>)" by simp
  then show ?thesis by simp
qed

lemma republish_run:
  "run_state (NodePublishVolume sample_host (\<lambda>m. m) (\<lambda>m. m) sample_publish) sample_published
   = (Failed (StatusError Internal ''failed to mount: failed to mount FUSE fs: directory already mounted''),
      sample_node [sample_entry read_only_vfs [] ''/pods/p/mount'' 0] False [0] 2
        [''/pods/p/mount'', ''/data''] [''/pods/p/mount''])"
  by code_simp

text \<open>
  Publishing a published volume again, which the container storage interface requires to
  succeed without effect, fails, and its error path removes the remote of the mount that is
  still running from rclone's memory.
\<close>

theorem republish_removes_live_remote:
  "let again = run_state (NodePublishVolume sample_host (\<lambda>m. m) (\<lambda>m. m) sample_publish) sample_published in
   fst again = Failed (StatusError Internal ''failed to mount: failed to mount FUSE fs: directory already mounted'')
   \<and> HasSection (storage sample_published) ''s3'' \<and> \<not> HasSection (storage (snd again)) ''s3''
   \<and> sample_mounted ''/pods/p/mount'' (world (snd again))
   \<and> live (snd again) = live sample_published"
  unfolding republish_run Let_def
  by (simp add: sample_published_def sample_node_def HasSection_def sample_mounted_def)

definition sample_stacked :: publish_request where
  "sample_stacked = sample_publish\<lparr>pr_volume_context :=
     pr_volume_context sample_publish @ [(''allow-non-empty'', ''true'')]\<rparr>"

definition stacked_node :: "nat \<Rightarrow> sample_world node_state" where
  "stacked_node n =
     sample_node [sample_entry read_only_vfs [(''allow_non_empty'', ''true'')] ''/pods/p/mount'' n] True
       (rev [0..<Suc n]) (Suc n) [''/pods/p/mount'', ''/data''] (replicate (Suc n) ''/pods/p/mount'')"

lemma stacked_runs:
  "run_state (NodePublishVolume sample_host (\<lambda>m. m) (\<lambda>m. m) sample_stacked) (new_node_state sample_start)
     = (Reply (), stacked_node 0)"
  "run_state (NodePublishVolume sample_host (\<lambda>m. m) (\<lambda>m. m) sample_stacked) (stacked_node 0)
     = (Reply (), stacked_node 1)"
  by code_simp+

text \<open>
  With the option \<open>allow_non_empty\<close> a second publish stacks a second mount on the target
  and overwrites the stored context, so the context of the first mount is never cancelled.
\<close>

theorem republish_leaks_context:
  "let first = snd (run_state (NodePublishVolume sample_host (\<lambda>m. m) (\<lambda>m. m) sample_stacked) (new_node_state sample_start));
       again = run_state (NodePublishVolume sample_host (\<lambda>m. m) (\<lambda>m. m) sample_stacked) first in
   fst again = Reply () \<and> sw_mounts (world (snd again)) = [''/pods/p/mount'', ''/pods/p/mount'']
   \<and> live (snd again) = {0, 1} \<and> \<not> no_leak (snd again)"
proof -
  have "\<not> no_leak (stacked_node 1)"
    by (auto simp: no_leak_def stacked_node_def sample_node_def sample_entry_def getMountContext_def
        published_context_def)
  then show ?thesis
    unfolding Let_def stacked_runs(1) snd_conv stacked_runs(2) fst_conv
    by (auto simp: stacked_node_def sample_node_def)
qed

section \<open>Two volumes, one remote name\<close>

definition sample_other :: publish_request where
  "sample_other = sample_publish\<lparr>pr_volume_id := ''s3#pvc-2'', pr_target_path := ''/pods/q/mount''\<rparr>"

definition sample_two :: "sample_world node_state" where
  "sample_two = sample_node
     [sample_entry read_only_vfs [] ''/pods/p/mount'' 0, sample_entry read_only_vfs [] ''/pods/q/mount'' 1] True
     [0, 1] 2 [''/pods/q/mount'', ''/pods/p/mount'', ''/data''] [''/pods/q/mount'', ''/pods/p/mount'']"

lemma two_volumes_run:
  "run_state (NodePublishVolume sample_host (\<lambda>m. m) (\<lambda>m. m) sample_other) sample_published = (Reply (), sample_two)"
  "run_state (NodeUnpublishVolume sample_host sample_unpublish) sample_two
     = (Reply (), sample_node [sample_entry read_only_vfs [] ''/pods/q/mount'' 1] False [1] 2
         [''/pods/q/mount'', ''/data''] [''/pods/q/mount''])"
  by code_simp+

text \<open>
  Sections are global to the process and named by the user, so two volumes of one storage
  class share them: unpublishing one of them deletes the section that the other, still
  mounted, has loaded.
\<close>

theorem unpublish_deletes_shared_remote:
  "let two = snd (run_state (NodePublishVolume sample_host (\<lambda>m. m) (\<lambda>m. m) sample_other) sample_published);
       one = run_state (NodeUnpublishVolume sample_host sample_unpublish) two in
   fst one = Reply () \<and> sample_mounted ''/pods/q/mount'' (world (snd one))
   \<and> map_option mc_remotes (getMountContext (snd one) ''/pods/q/mount'') = Some [''s3'']
   \<and> HasSection (storage two) ''s3'' \<and> \<not> HasSection (storage (snd one)) ''s3''"
  unfolding Let_def two_volumes_run(1) snd_conv two_volumes_run(2) fst_conv
  by (simp add: sample_two_def sample_node_def HasSection_def sample_mounted_def getMountContext_def
      sample_entry_def published_context_def)

section \<open>Daemon mode and slow mounts\<close>

text \<open>
  C39: A mount made with rclone's \<open>daemon\<close> option has no virtual file system in this process,
  and unpublishing it dereferences a nil pointer: the driver crashes, and since the stored
  context survives only in the dead process the volume is never cleaned up by it.
\<close>

theorem unpublish_of_daemon_mount_panics:
  assumes "validateUnpublishVolumeRequest req = None"
    and "\<not> held (volumeLocks s) (lock_key (ur_volume_id req) (ur_target_path req))"
    and "getMountContext s (ur_target_path req) = Some mc"
    and "mc_mountPoint mc = Some mp" and "mp_VFS mp = None"
  shows "fst (run_state (NodeUnpublishVolume h req) s) = Panicked ''nil pointer dereference''"
  using assms
  by (simp add: NodeUnpublishVolume_def with_lock_def TryAcquire_def held_def unpublish_body_def
      unmountVolume_def release_mount_def waitForVFSCacheSync_def getMountContext_def Let_def)

definition sample_daemon :: publish_request where
  "sample_daemon = sample_publish\<lparr>pr_volume_context :=
     pr_volume_context sample_publish @ [(''daemon'', ''true''), (''daemon-wait'', ''0'')]\<rparr>"

definition daemon_context :: mount_context where
  "daemon_context = published_context
     \<lparr>mp_MountPoint = ''/pods/p/mount'', mp_MountedOn = 0,
      mp_MountOpt = \<lparr>mo_DeviceName = ''s3:bucket'', mo_VolumeName = ''volume'', mo_Daemon = True,
        mo_DaemonWait = 0, mo_others = []\<rparr>,
      mp_VFSOpt = read_only_vfs, mp_Fs = 0, mp_VFS = None, mp_MountFn = ''mount'', mp_UnmountFn = None\<rparr>
     ''s3'' [''s3''] 0"

definition daemon_node :: "sample_world node_state" where
  "daemon_node = (sample_node [(''/pods/p/mount'', daemon_context)] True [0] 1 [''/pods/p/mount'', ''/data''] [])
     \<lparr>g_passConfigKey := True\<rparr>"

lemma daemon_run:
  "run_state (NodePublishVolume sample_host (\<lambda>m. m) (\<lambda>m. m) sample_daemon) (new_node_state sample_start)
     = (Reply (), daemon_node)"
  by code_simp

theorem unpublish_of_daemon_mount_panics_witness:
  "fst (run_state (NodeUnpublishVolume sample_host sample_unpublish)
      (snd (run_state (NodePublishVolume sample_host (\<lambda>m. m) (\<lambda>m. m) sample_daemon) (new_node_state sample_start))))
   = Panicked ''nil pointer dereference''"
  unfolding daemon_run snd_conv
  by (rule unpublish_of_daemon_mount_panics [where mc = daemon_context and mp = "the (mc_mountPoint daemon_context)"])
    (simp_all add: daemon_node_def sample_node_def sample_unpublish_def validateUnpublishVolumeRequest_def
      held_def NewVolumeLocks_def getMountContext_def daemon_context_def published_context_def)

text \<open>
  The wait for the daemon runs for every mount, because the default of \<open>daemon_wait\<close> is not
  zero: for a mount without a daemon, a wait that ends in an error signals a process that
  does not exist, and the driver crashes.
\<close>

theorem late_mount_panics:
  assumes "0 < mo_DaemonWait o1"
    and "h_WaitMountReady h (mp_MountPoint m) (mo_DaemonWait o1) None (world s) = (NotReady err, w)"
  shows "fst (run_state (handleRcloneDaemon h m None o1 c) s) = Panicked ''nil pointer dereference''"
  using assms by (simp add: handleRcloneDaemon_def)

theorem late_mount_panics_witness:
  "fst (run_state (handleRcloneDaemon sample_host sample_mount None (mp_MountOpt sample_mount) 0)
     (new_node_state sample_start)) = Panicked ''nil pointer dereference''"
  by (rule late_mount_panics [where err = "''mount not ready''" and w = sample_start])
    (simp_all add: sample_mount_def sample_host_def new_node_state_def sample_start_def)

section \<open>Settings of the whole process\<close>

text \<open>
  The cache directory of a volume is a setting of the whole process: after a successful
  configuration of a mount it is the one of that volume, for every volume of the node, while
  the comment in the code speaks of an isolated configuration per mount.  Any value of
  \<open>log_level\<close> switches the process to debug output.
\<close>

theorem settings_are_process_wide:
  assumes "run_state (setRcloneConfigFlags h rng ci p) s = (Inr ci2, t)"
  shows "g_cacheDir t = (case get p ''cache_dir'' of None \<Rightarrow> g_cacheDir s
        | Some d \<Rightarrow> (case h_Abs h d (world s) of (Inl e, w) \<Rightarrow> g_cacheDir s | (Inr a, w) \<Rightarrow> a))
    \<and> (g_logDebug t \<longleftrightarrow> g_logDebug s \<or> get p ''log_level'' \<noteq> None)"
proof -
  have "wp (setRcloneConfigFlags h rng ci p) (\<lambda>r t. (\<exists>x. r = Inr x) \<longrightarrow>
      g_cacheDir t = (case get p ''cache_dir'' of None \<Rightarrow> g_cacheDir s
        | Some d \<Rightarrow> (case h_Abs h d (world s) of (Inl e, w) \<Rightarrow> g_cacheDir s | (Inr a, w) \<Rightarrow> a))
      \<and> (g_logDebug t \<longleftrightarrow> g_logDebug s \<or> get p ''log_level'' \<noteq> None)) s"
    unfolding setRcloneConfigFlags_def
    by (intro wp_outside_exact wp_rules) simp_all
  from wpD [OF this assms] show ?thesis by simp
qed

theorem settings_are_process_wide_witness:
  "g_cacheDir (snd (run_state (setRcloneConfigFlags sample_host rev (h_GlobalConfig sample_host)
      [(''cache_dir'', ''/cache/a''), (''log_level'', ''ERROR'')]) sample_published)) = ''/cache/a''"
proof -
  let ?r = "run_state (setRcloneConfigFlags sample_host rev (h_GlobalConfig sample_host)
      [(''cache_dir'', ''/cache/a''), (''log_level'', ''ERROR'')]) sample_published"
  have "fst ?r = Inr (h_GlobalConfig sample_host)" by code_simp
  then have "?r = (Inr (h_GlobalConfig sample_host), snd ?r)" by (simp add: prod_eq_iff)
  from settings_are_process_wide [OF this] show ?thesis by (simp add: sample_host_def)
qed

end
