(* ===== verification/Node_Stats.thy ===== *)
theory Node_Stats
  imports Node_Server
begin

text \<open>
  The rest of the node service of \<open>pkg/rclone/nodeserver.go\<close>: volume statistics in 64-bit
  arithmetic, the health of a mount, and the methods that answer from the driver object or
  not at all.
\<close>

section \<open>Definitions\<close>

datatype usage_unit = BYTES | INODES

record volume_usage =
  vu_Available :: "64 word"
  vu_Total :: "64 word"
  vu_Used :: "64 word"
  vu_Unit :: usage_unit

record volume_condition =
  vc_Abnormal :: bool
  vc_Message :: string

record volume_stats =
  vs_Usage :: "volume_usage list"
  vs_Condition :: volume_condition

fun show_int :: "int \<Rightarrow> string" where
  "show_int i = (if i < 0 then ''-'' @ show_nat (nat (- i)) else show_nat (nat i))"

declare show_int.simps [simp del]

text \<open>
  \<open>errors.(int)\<close> panics when the value has another type; the panic of the run-time is the
  outcome \<open>Panicked\<close>.
\<close>

definition isMountHealthy :: "'w host \<Rightarrow> string \<Rightarrow> ('w, (bool \<times> string) outcome) node_prog" where
  "isMountHealthy h targetPath = do {
     r \<leftarrow> outside (h_ReadDir h targetPath);
     case r of
       Some e \<Rightarrow> return (Reply (False, ''mount point not accessible: '' @ os_error_text e))
     | None \<Rightarrow> do {
         mc \<leftarrow> gets (\<lambda>s. getMountContext s targetPath);
         case mc of
           None \<Rightarrow> return (Reply (True, ''''))
         | Some m \<Rightarrow>
             (case mc_mountPoint m of
                None \<Rightarrow> return (Reply (True, ''''))
              | Some mp \<Rightarrow>
                  (case mp_VFS mp of
                     None \<Rightarrow> return (Reply (True, ''''))
                   | Some v \<Rightarrow> do {
                       stats \<leftarrow> VFS_Stats h v;
                       case get stats ''errors'' of
                         None \<Rightarrow> return (Reply (True, ''''))
                       | Some x \<Rightarrow>
                           (case as_int (Some x) of
                              None \<Rightarrow> return (Panicked ''interface conversion'')
                            | Some n \<Rightarrow>
                                if 0 <s n
                                then return (Reply (False, ''VFS errors detected: '' @ show_int (sint n)))
                                else return (Reply (True, ''''))) })) } }"

definition NodeGetVolumeStats :: "'w host \<Rightarrow> string \<Rightarrow> ('w, volume_stats outcome) node_prog" where
  "NodeGetVolumeStats h volumePath =
     (if volumePath = '''' then return (Failed (StatusError InvalidArgument ''volume path is required''))
      else do {
        r \<leftarrow> outside (h_Statfs h volumePath);
        case r of
          Inl e \<Rightarrow> return (Reply \<lparr>vs_Usage = [],
            vs_Condition = \<lparr>vc_Abnormal = True,
              vc_Message = ''Failed to get filesystem statistics: '' @ os_error_text e\<rparr>\<rparr>)
        | Inr st \<Rightarrow> do {
            let blockSize = Bsize st;
            let totalBytes = Blocks st * blockSize;
            let availableBytes = Bavail st * blockSize;
            let freeBytes = Bfree st * blockSize;
            let usedBytes = totalBytes - freeBytes;
            let totalInodes = Files st;
            let freeInodes = Ffree st;
            let usedInodes = totalInodes - freeInodes;
            let usage = [\<lparr>vu_Available = availableBytes, vu_Total = totalBytes, vu_Used = usedBytes, vu_Unit = BYTES\<rparr>];
            let usage = (if 0 <s totalInodes
              then usage @ [\<lparr>vu_Available = freeInodes, vu_Total = totalInodes, vu_Used = usedInodes, vu_Unit = INODES\<rparr>]
              else usage);
            health \<leftarrow> isMountHealthy h volumePath;
            case health of
              Panicked msg \<Rightarrow> return (Panicked msg)
            | Failed e \<Rightarrow> return (Failed e)
            | Reply (healthy, message) \<Rightarrow> return (Reply \<lparr>vs_Usage = usage,
                vs_Condition = \<lparr>vc_Abnormal = \<not> healthy,
                  vc_Message = (if healthy then ''Volume is healthy and accessible'' else message)\<rparr>\<rparr>) } })"

definition NodeStageVolume :: "'r \<Rightarrow> unit outcome" where
  "NodeStageVolume req = unimplemented"

definition NodeUnstageVolume :: "'r \<Rightarrow> unit outcome" where
  "NodeUnstageVolume req = unimplemented"

definition NodeExpandVolume :: "'r \<Rightarrow> unit outcome" where
  "NodeExpandVolume req = unimplemented"

definition NodeGetInfo :: "driver \<Rightarrow> string outcome" where
  "NodeGetInfo d = Reply (d_nodeID d)"

definition NodeGetCapabilities :: "driver \<Rightarrow> node_capability list outcome" where
  "NodeGetCapabilities d = Reply (d_nscap d)"

section \<open>Health and errors\<close>

text \<open>
  The reports of rclone's \<open>VFS.Stats\<close>: file system, options, use count, metadata cache and,
  with a cache, disk cache, and no other key.
\<close>

definition vfs_stats_keys :: "'w host \<Rightarrow> bool" where
  "vfs_stats_keys h \<longleftrightarrow> (\<forall>v w. fst ` set (fst (h_VFSStats h v w))
     \<subseteq> {''fs'', ''opt'', ''inUse'', ''metadataCache'', ''diskCache''})"

lemma run_isMountHealthy:
  assumes "vfs_stats_keys h"
  shows "\<exists>t. run_state (isMountHealthy h tg) s =
    (Reply (case fst (h_ReadDir h tg (world s)) of
        Some e \<Rightarrow> (False, ''mount point not accessible: '' @ os_error_text e)
      | None \<Rightarrow> (True, '''')), t)"
proof -
  have "get (fst (h_VFSStats h v w)) ''errors'' = None" for v w
    using assms unfolding vfs_stats_keys_def map_of_eq_None_iff by fastforce
  then have "h_VFSStats h v w = (st, w') \<Longrightarrow> get st ''errors'' = None" for v w st w'
    by (metis fst_conv)
  then show ?thesis
    by (cases "h_ReadDir h tg (world s)")
      (auto simp: isMountHealthy_def VFS_Stats_def split: option.splits prod.splits)
qed

lemma volume_stats_run:
  assumes "vfs_stats_keys h" and "volumePath \<noteq> ''''"
  shows "\<exists>vs t. run_state (NodeGetVolumeStats h volumePath) s = (Reply vs, t)
    \<and> (vc_Abnormal (vs_Condition vs) \<longleftrightarrow>
        (\<exists>e. fst (h_Statfs h volumePath (world s)) = Inl e)
        \<or> fst (h_ReadDir h volumePath (snd (h_Statfs h volumePath (world s)))) \<noteq> None)"
proof -
  obtain r w where r: "h_Statfs h volumePath (world s) = (r, w)" by (cases "h_Statfs h volumePath (world s)")
  show ?thesis
  proof (cases r)
    case (Inl e)
    then show ?thesis using r assms(2) by (simp add: NodeGetVolumeStats_def)
  next
    case (Inr st)
    from run_isMountHealthy [OF assms(1), of volumePath "s\<lparr>world := w\<rparr>"]
    obtain t where "run_state (isMountHealthy h volumePath) (s\<lparr>world := w\<rparr>) =
      (Reply (case fst (h_ReadDir h volumePath w) of
          Some e \<Rightarrow> (False, ''mount point not accessible: '' @ os_error_text e)
        | None \<Rightarrow> (True, '''')), t)" by auto
    then show ?thesis using r Inr assms(2)
      by (auto simp: NodeGetVolumeStats_def Let_def split: option.splits)
  qed
qed

text \<open>
  \<open>NodeGetVolumeStats\<close> fails only for an empty path.  For any other path it answers, and
  reports the volume as abnormal exactly when the file system's statistics or the directory
  cannot be read; the check for errors of the virtual file system never applies, because
  rclone's statistics have no key \<open>errors\<close>.
\<close>

theorem volume_stats_condition:
  assumes "vfs_stats_keys h" and "volumePath \<noteq> ''''"
  shows "\<exists>vs t. run_state (NodeGetVolumeStats h volumePath) s = (Reply vs, t)
    \<and> (vc_Abnormal (vs_Condition vs) \<longleftrightarrow>
        (\<exists>e. fst (h_Statfs h volumePath (world s)) = Inl e)
        \<or> fst (h_ReadDir h volumePath (snd (h_Statfs h volumePath (world s)))) \<noteq> None)"
  using assms by (rule volume_stats_run)

lemma sample_vfs_stats_keys: "vfs_stats_keys sample_host"
  by (simp add: vfs_stats_keys_def sample_host_def sample_stats_def)

theorem volume_stats_condition_witness:
  "\<exists>vs t. run_state (NodeGetVolumeStats sample_host ''/gone'') (new_node_state sample_start) = (Reply vs, t)
     \<and> vc_Abnormal (vs_Condition vs)"
proof -
  have "fst (h_Statfs sample_host ''/gone'' (world (new_node_state sample_start))) = Inl (ErrNotExist ''no such directory'')"
    by (simp add: sample_host_def sample_exists_def new_node_state_def sample_start_def)
  then show ?thesis
    using volume_stats_condition [OF sample_vfs_stats_keys, of "''/gone''" "new_node_state sample_start"] by auto
qed

section \<open>The numbers\<close>

lemma sint_small: "unat (w :: 64 word) < 2 ^ 63 \<Longrightarrow> sint w = int (unat w)"
proof -
  assume "unat w < 2 ^ 63"
  then have "int (unat w) < int (2 ^ 63)" by (simp only: of_nat_less_iff)
  then have "int (unat w) < 2 ^ 63" by (simp only: of_nat_power of_nat_numeral)
  moreover have "- (2 ^ 63) \<le> int (unat w)"
    by (rule order_trans [of _ 0]) simp_all
  moreover have "sint w = signed_take_bit 63 (int (unat w))"
    by (simp only: sint_uint uint_nat) simp
  ultimately show ?thesis by (simp only: signed_take_bit_int_eq_self)
qed

lemma unat_times_small:
  "unat a * unat b < 2 ^ 63 \<Longrightarrow> unat (a * b) = unat a * unat (b :: 64 word)"
  by (simp add: unat_word_ariths)

lemma bytes_usage:
  assumes "run_state (NodeGetVolumeStats h p) s = (Reply vs, t)"
    and "fst (h_Statfs h p (world s)) = Inr st"
  shows "hd (vs_Usage vs) = \<lparr>vu_Available = Bavail st * Bsize st, vu_Total = Blocks st * Bsize st,
      vu_Used = Blocks st * Bsize st - Bfree st * Bsize st, vu_Unit = BYTES\<rparr>"
  using assms by (auto simp: NodeGetVolumeStats_def Let_def split: if_splits sum.splits prod.splits outcome.splits)

text \<open>
  C30: When the size of the file system fits into 63 bits and its counters are consistent, the
  statistics are the exact numbers: total, used and free bytes add up, and the available
  bytes are those that an unprivileged process can use.
\<close>

theorem volume_stats_exact:
  assumes "run_state (NodeGetVolumeStats h p) s = (Reply vs, t)"
    and "fst (h_Statfs h p (world s)) = Inr st"
    and "unat (Blocks st) * unat (Bsize st) < 2 ^ 63"
    and "unat (Bfree st) \<le> unat (Blocks st)" and "unat (Bavail st) \<le> unat (Bfree st)"
  shows "sint (vu_Total (hd (vs_Usage vs))) = int (unat (Blocks st)) * int (unat (Bsize st))
    \<and> sint (vu_Used (hd (vs_Usage vs))) = (int (unat (Blocks st)) - int (unat (Bfree st))) * int (unat (Bsize st))
    \<and> sint (vu_Available (hd (vs_Usage vs))) = int (unat (Bavail st)) * int (unat (Bsize st))
    \<and> sint (vu_Available (hd (vs_Usage vs))) + sint (vu_Used (hd (vs_Usage vs))) \<le> sint (vu_Total (hd (vs_Usage vs)))"
proof -
  let ?b = "unat (Bsize st)"
  have le: "unat (Bfree st) * ?b \<le> unat (Blocks st) * ?b" "unat (Bavail st) * ?b \<le> unat (Bfree st) * ?b"
    using assms(4,5) by (simp_all add: mult_le_mono1)
  then have small: "unat (Bfree st) * ?b < 2 ^ 63" "unat (Bavail st) * ?b < 2 ^ 63"
    using assms(3) by linarith+
  note un = unat_times_small [OF assms(3)] unat_times_small [OF small(1)] unat_times_small [OF small(2)]
  have "Bfree st * Bsize st \<le> Blocks st * Bsize st" using le(1) un by (simp add: word_le_nat_alt)
  then have used: "unat (Blocks st * Bsize st - Bfree st * Bsize st) = unat (Blocks st) * ?b - unat (Bfree st) * ?b"
    using un by (simp add: unat_sub)
  have "sint (Blocks st * Bsize st) = int (unat (Blocks st) * ?b)"
    and "sint (Bavail st * Bsize st) = int (unat (Bavail st) * ?b)"
    and "sint (Blocks st * Bsize st - Bfree st * Bsize st) = int (unat (Blocks st) * ?b - unat (Bfree st) * ?b)"
    using un used assms(3) small by (simp_all add: sint_small)
  moreover have "int (unat (Bavail st) * ?b) \<le> int (unat (Bfree st) * ?b)" using le(2) by (simp only: of_nat_le_iff)
  ultimately show ?thesis using le(1) unfolding bytes_usage [OF assms(1,2)]
    by (simp add: of_nat_diff left_diff_distrib)
qed

theorem volume_stats_exact_witness:
  "sint (vu_Used (hd (vs_Usage \<lparr>vs_Usage =
      [\<lparr>vu_Available = 204800, vu_Total = 409600, vu_Used = 163840, vu_Unit = BYTES\<rparr>,
       \<lparr>vu_Available = 4, vu_Total = 10, vu_Used = 6, vu_Unit = INODES\<rparr>],
      vs_Condition = \<lparr>vc_Abnormal = False, vc_Message = ''Volume is healthy and accessible''\<rparr>\<rparr>))) = 163840"
proof -
  let ?st = "\<lparr>Bsize = 4096, Blocks = 100, Bfree = 60, Bavail = 50, Files = 10, Ffree = 4\<rparr> :: statfs"
  let ?r = "run_state (NodeGetVolumeStats sample_host ''/data'') (new_node_state sample_start)"
  have "fst ?r = Reply \<lparr>vs_Usage =
      [\<lparr>vu_Available = 204800, vu_Total = 409600, vu_Used = 163840, vu_Unit = BYTES\<rparr>,
       \<lparr>vu_Available = 4, vu_Total = 10, vu_Used = 6, vu_Unit = INODES\<rparr>],
      vs_Condition = \<lparr>vc_Abnormal = False, vc_Message = ''Volume is healthy and accessible''\<rparr>\<rparr>"
    by code_simp
  moreover have "fst (h_Statfs sample_host ''/data'' (world (new_node_state sample_start))) = Inr ?st"
    by (simp add: sample_host_def new_node_state_def sample_start_def sample_exists_def)
  ultimately show ?thesis
    using volume_stats_exact [of sample_host "''/data''" "new_node_state sample_start" _ "snd ?r" ?st]
    by (simp add: prod_eq_iff)
qed

text \<open>
  A file system of two to the sixty-third bytes or more is reported with a negative or a
  truncated size: the block counter is an unsigned word and the product wraps.
\<close>

theorem volume_stats_overflow:
  assumes "run_state (NodeGetVolumeStats h p) s = (Reply vs, t)"
    and "fst (h_Statfs h p (world s)) = Inr st"
    and "Bsize st = 4096" and "unat (Blocks st) = 2 ^ 51"
  shows "sint (vu_Total (hd (vs_Usage vs))) = - (2 ^ 63)"
proof -
  have "Blocks st = of_nat (unat (Blocks st))" by simp
  then have "Blocks st = 2 ^ 51" unfolding assms(4) by simp
  then show ?thesis unfolding bytes_usage [OF assms(1,2)] using assms(3) by simp
qed

definition huge_host :: "sample_world host" where
  "huge_host = sample_host\<lparr>h_Statfs := (\<lambda>p w. (Inr \<lparr>Bsize = 4096, Blocks = 2251799813685248,
     Bfree = 0, Bavail = 0, Files = 0, Ffree = 0\<rparr>, w))\<rparr>"

theorem volume_stats_overflow_witness:
  "\<exists>vs t. run_state (NodeGetVolumeStats huge_host ''/data'') (new_node_state sample_start) = (Reply vs, t)
     \<and> sint (vu_Total (hd (vs_Usage vs))) = - (2 ^ 63)"
proof -
  have "vfs_stats_keys huge_host" using sample_vfs_stats_keys by (simp add: vfs_stats_keys_def huge_host_def)
  from volume_stats_run [OF this, of "''/data''" "new_node_state sample_start"]
  obtain vs t where r: "run_state (NodeGetVolumeStats huge_host ''/data'') (new_node_state sample_start) = (Reply vs, t)"
    by auto
  from volume_stats_overflow [OF r] show ?thesis using r by (auto simp: huge_host_def)
qed

end
