(* ===== verification/End_To_End.thy ===== *)
theory End_To_End
  imports Node_Refinement Node_Hazards Node_Stats
begin

text \<open>
  Properties that span the controller and the node: the volume that is created is the one that is
  mounted, a read-only request gives a read-only mount, and where the two services disagree.
\<close>

section \<open>A read-only request gives a read-only mount\<close>

lemma wp_Mount_vfs:
  "wp (Mount h m) (\<lambda>r t. \<forall>d m'. r = Inr (d, m') \<longrightarrow> mp_VFSOpt m' = mp_VFSOpt m) s"
  unfolding Mount_def mount_fuse_def by (intro wp_rules) simp_all

lemma wp_create_vfs:
  "wp (createAndMountFilesystem h rng fp tg os p) (\<lambda>r t. \<forall>m c. r = Reply (m, c) \<longrightarrow>
     (\<exists>vo. extractVolumeMountOptions os = Inr vo
        \<and> extractVFSOptions h (mergeCopy (rng p) (rng vo)) = Inr (mp_VFSOpt m))) s"
  unfolding createAndMountFilesystem_def
  apply (intro wp_rules)
     apply simp
    apply (rule wp_core [OF setRcloneConfigFlags_core])
    apply (intro wp_rules)
           apply simp_all [5]
      apply (rule wp_weaken [OF wp_Mount_vfs])
      apply (intro wp_rules)
       apply simp
      apply (rule wp_weaken [OF wp_handleRcloneDaemon])
      apply (intro wp_rules)
        apply (auto simp: NewMountPoint_def)
  done

text \<open>
  What the virtual file system's option setter is relied on for: it knows the option
  \<open>read_only\<close> and obeys it.
\<close>

definition honours_read_only :: "'w host \<Rightarrow> bool" where
  "honours_read_only h \<longleftrightarrow> ''read_only'' \<in> set (h_VFSOptions h)
     \<and> (\<forall>g o1 o2. g ''read_only'' = Some ''true'' \<longrightarrow> h_SetVFS h g o1 = Inr o2 \<longrightarrow> vo_ReadOnly o2)"

lemma vfs_options_read_only:
  assumes "honours_read_only h" and "get p ''read_only'' = Some ''true''" and "extractVFSOptions h p = Inr vo"
  shows "vo_ReadOnly vo"
proof -
  have "get (mutable_map_loop (h_VFSDefault h) p [] (h_VFSOptions h)) ''read_only'' = Some ''true''"
    using assms(1,2) by (simp add: get_mutable_map_loop honours_read_only_def)
  then show ?thesis
    using assms(1,3) by (auto simp: extractVFSOptions_def honours_read_only_def Let_def split: sum.splits)
qed

definition mounted_read_only :: "'w node_state \<Rightarrow> string \<Rightarrow> bool" where
  "mounted_read_only t tg \<longleftrightarrow> (\<exists>mc mp. getMountContext t tg = Some mc \<and> mc_mountPoint mc = Some mp
     \<and> vo_ReadOnly (mp_VFSOpt mp))"

lemma wp_publish_mount_read_only:
  assumes "honours_read_only h" and "range_order rng" and "pr_readonly req"
    and "GetMount (pr_capability req) = Some m" and "wf_map (pvp_params pvp)"
  shows "wp (publish_mount h rng req pvp remotes)
     (\<lambda>r t. r = Reply () \<longrightarrow> mounted_read_only t (pr_target_path req)) s"
proof -
  have ro: "vo_ReadOnly vfs"
    if "extractVolumeMountOptions (request_mount_options req) = Inr vo"
      and "extractVFSOptions h (mergeCopy (rng (pvp_params pvp)) (rng vo)) = Inr vfs" for vo vfs
  proof -
    note f = readonly_flag [OF assms(3,4) that(1)]
    have "get (mergeCopy (rng (pvp_params pvp)) (rng vo)) ''read_only'' = Some ''true''"
      using f assms(5) by (simp add: get_mergeCopy range_order_get [OF assms(2)] range_order_wf [OF assms(2)])
    from vfs_options_read_only [OF assms(1) this that(2)] show ?thesis .
  qed
  show ?thesis
    unfolding publish_mount_def
    apply (intro wp_rules)
    apply (rule wp_weaken [OF wp_create_vfs])
    apply (intro wp_rules)
      apply (auto simp: mounted_read_only_def ctx.lookup_store cleanupConfigRemotes_def dest: ro intro!: wp_rules)
    done
qed

lemma generated_params: "generateConfigData rng pvp0 = Inr pvp \<Longrightarrow> pvp_params pvp = pvp_params pvp0"
  by (auto simp: generateConfigData_def Let_def split: if_splits)

lemma extracted_wf: "extractPublishParams p = Inr pvp \<Longrightarrow> wf_map (pvp_params pvp)"
  using copy_params_wf [of "[]" p "pvp_params pvp"]
  by (auto simp: extractPublishParams_def Let_def split: if_splits sum.splits)

lemma wp_publish_body_read_only:
  assumes "honours_read_only h" and "range_order rng" and "pr_readonly req"
    and "GetMount (pr_capability req) = Some m"
  shows "wp (publish_body h rng rngs req) (\<lambda>r t. r = Reply () \<longrightarrow> mounted_read_only t (pr_target_path req)) s"
proof (cases "extractPublishParams (rng (add_mount_group req (mergeVolumeParameters rng req)))")
  case (Inl e)
  then show ?thesis by (simp add: publish_body_def wp_return)
next
  case (Inr pvp0)
  have mount: "wp (case generateConfigData rng pvp0 of
        Inl e \<Rightarrow> return (Failed e)
      | Inr pvp \<Rightarrow> State_Monad.bind (loadRcloneConfig h rng rngs pvp) (\<lambda>l. case l of
            Failed e \<Rightarrow> return (Failed e) | Panicked msg \<Rightarrow> return (Panicked msg)
          | Reply remotes \<Rightarrow> publish_mount h rng req pvp remotes))
      (\<lambda>r t. r = Reply () \<longrightarrow> mounted_read_only t (pr_target_path req)) u" for u
  proof -
    have pm: "wp (publish_mount h rng req pvp remotes)
        (\<lambda>r t. r = Reply () \<longrightarrow> mounted_read_only t (pr_target_path req)) v"
      if "generateConfigData rng pvp0 = Inr pvp" for pvp remotes v
      using wp_publish_mount_read_only [OF assms] extracted_wf [OF Inr] generated_params [OF that] by simp
    show ?thesis
      by (intro wp_sum wp_return wp_bind wpI [where m = "loadRcloneConfig h rng rngs x" for x] wp_outcome pm) simp_all
  qed
  show ?thesis unfolding publish_body_def Inr Let_def sum.case
    by (intro wp_bind wp_weaken [OF wp_prepareTargetDirectory] wp_option wp_if wp_return mount) auto
qed

text \<open>
  C9: A read-only request with a mount capability gives a read-only mount: whatever the
  parameters, the secrets, the mount flags and the visiting orders say, when the publish
  succeeds, the virtual file system of the mount stored for the target is read-only.  It rests on
  rclone obeying the option \<open>read_only\<close>.
\<close>

theorem readonly_request_mounts_readonly:
  assumes "honours_read_only h" and "range_order rng" and "pr_readonly req"
    and "GetMount (pr_capability req) = Some m"
    and "run_state (NodePublishVolume h rng rngs req) s = (Reply (), t)"
  shows "\<exists>mc mp. getMountContext t (pr_target_path req) = Some mc \<and> mc_mountPoint mc = Some mp
     \<and> vo_ReadOnly (mp_VFSOpt mp)"
proof -
  have "validatePublishVolumeRequest req = None"
    using assms(5) by (auto simp: NodePublishVolume_def split: option.splits)
  with assms(5) have "run_state (with_lock (pr_volume_id req) (lock_key (pr_volume_id req) (pr_target_path req))
      (publish_body h rng rngs req)) s = (Reply (), t)" by (simp add: NodePublishVolume_def)
  from this publish_body_locks have "mounted_read_only t (pr_target_path req)"
  proof (rule with_lock_run)
    fix l u
    assume u: "run_state (publish_body h rng rngs req) (s\<lparr>volumeLocks := l\<rparr>) = (Reply (), u)"
      and t: "t = u\<lparr>volumeLocks := volumeLocks s\<rparr>"
    from wpD [OF wp_publish_body_read_only [OF assms(1-4)] u]
    show ?thesis unfolding t by (simp add: mounted_read_only_def getMountContext_def)
  qed simp
  then show ?thesis by (simp add: mounted_read_only_def)
qed

lemma sample_honours_read_only: "honours_read_only sample_host"
  by (auto simp: honours_read_only_def sample_host_def sample_set_vfs_def split: if_splits)

theorem readonly_request_mounts_readonly_witness:
  "\<exists>mc mp. getMountContext sample_published ''/pods/p/mount'' = Some mc \<and> mc_mountPoint mc = Some mp
     \<and> vo_ReadOnly (mp_VFSOpt mp)"
proof -
  have "pr_readonly sample_publish" and "pr_target_path sample_publish = ''/pods/p/mount''"
    and "GetMount (pr_capability sample_publish)
      = Some \<lparr>mount_flags = [''vfs-cache-mode=writes''], volume_mount_group = ''1000''\<rparr>"
    by (simp_all add: sample_publish_def GetMount_def)
  with readonly_request_mounts_readonly [OF sample_honours_read_only range_order_id _ _ sample_publish_run]
  show ?thesis by metis
qed

section \<open>The created volume is the mounted volume\<close>

lemma CreateVolume_wf: "CreateVolume rng req = Reply v \<Longrightarrow> wf_map (volume_context v)"
  by (auto simp: CreateVolume_def Let_def split: if_splits option.splits)

lemma get_merged:
  assumes "range_order rng" and "wf_map (secrets_map req)" and "wf_map (pr_volume_context req)"
    and "k \<notin> {''gid'', ''uid'', ''allow_other''}"
  shows "get (rng (add_mount_group req (mergeVolumeParameters rng req))) k =
    (get (secrets_map req) ++ get (pr_volume_context req)) k"
proof -
  have "get (mergeVolumeParameters rng req) = get (secrets_map req) ++ get (pr_volume_context req)"
  proof (cases "pr_secrets req")
    case None
    then show ?thesis using get_put_all_rng [OF assms(1,3), of "[]"]
      by (simp add: mergeVolumeParameters_def secrets_map_def)
  next
    case (Some s)
    then have "wf_map s" using assms(2) by (simp add: secrets_map_def)
    from get_put_all_rng [OF assms(1) this, of "[]"] show ?thesis
      using Some get_put_all_rng [OF assms(1,3), of "put_all [] (rng s)"]
      by (simp add: mergeVolumeParameters_def secrets_map_def)
  qed
  moreover have "get (add_mount_group req p) k = get p k" for p
    using assms(4) by (auto simp: add_mount_group_def Let_def get_put paramVolumeMountAllowOther_def
        paramVolumeMountUser_def paramVolumeMountGroup_def split: option.splits)
  ultimately show ?thesis by (simp add: range_order_get [OF assms(1)])
qed

text \<open>
  C10: A volume that the controller creates is mounted as it was created: published with its own
  volume context, the remote is the one in its volume ID and the path is the resolved path
  of the creation, whatever the secrets of the publish call say about them.
\<close>

theorem created_volume_is_mounted:
  assumes "range_order rng" and "wf_map p" and "wf_map (folded p)"
    and "cv_parameters req = Some p" and "cv_name req \<noteq> ''''"
    and "cv_capabilities req \<noteq> []" and "BlockVolume \<notin> set (cv_capabilities req)"
    and "get_str (folded p) ''remotepath'' = render ps" and "\<forall>q \<in> set ps. wf_part q"
    and "\<forall>t v. get (template_values p) t = Some v \<longrightarrow> CHR ''$'' \<notin> set v"
    and remote: "get p ''remote'' = Some r" "TrimSpace r = r" "r \<noteq> ''''"
    and "CreateVolume rng req = Reply v"
    and pub: "range_order rng'" "pr_volume_context preq = volume_context v" "wf_map (secrets_map preq)"
    and path: "resolved_path p ps \<noteq> ''''"
    and ok: "extractPublishParams (rng' (add_mount_group preq (mergeVolumeParameters rng' preq))) = Inr pvp"
  shows "buildFsPath (remoteName pvp) (remotePath pvp) = r @ '':'' @ resolved_path p ps
    \<and> volume_id v = remoteName pvp @ ''#'' @ cv_name req"
proof -
  from CreateVolume_reply [OF assms(1-10)] assms(14)
  have id: "volume_id v = (let r = get_str (folded p) ''remote'' in
      if r = '''' then cv_name req else r @ ''#'' @ cv_name req)"
    and ctx: "get (volume_context v) = (get p)(''remotePath'' := Some (resolved_path p ps))"
    using path by auto
  have "(''remote'', r) \<in> set p" using remote(1) by (rule map_of_SomeD)
  then have "(ToLower (TrimSpace ''remote''), TrimSpace r) \<in> set (folded p)"
    unfolding folded_def set_map by (rule rev_image_eqI) simp
  moreover have "ToLower (TrimSpace ''remote'') = ''remote''" by code_simp
  ultimately have "(''remote'', r) \<in> set (folded p)" using remote(2) by simp
  then have "get (folded p) ''remote'' = Some r" using assms(3) by (simp add: wf_map_def)
  then have id2: "volume_id v = r @ ''#'' @ cv_name req" using id remote(3) by (simp add: get_str_def Let_def)
  have "wf_map (volume_context v)" using assms(14) by (rule CreateVolume_wf)
  note g = get_merged [OF pub(1,3) this [folded pub(2)]]
  have "get_str (rng' (add_mount_group preq (mergeVolumeParameters rng' preq))) ''remote'' = r"
    and "get_str (rng' (add_mount_group preq (mergeVolumeParameters rng' preq))) ''remotePath'' = resolved_path p ps"
    using remote(1) by (simp_all add: get_str_def g pub(2) ctx)
  with ok have "remoteName pvp = r" and "remotePath pvp = resolved_path p ps"
    by (auto simp: extractPublishParams_def param_defs Let_def split: if_splits sum.splits)
  then show ?thesis using id2 path by (simp add: buildFsPath_def)
qed

definition sample_create :: create_volume_request where
  "sample_create = \<lparr>cv_name = ''pvc-1'', cv_capabilities = [NoAccessType],
     cv_parameters = Some [(''remote'', ''s3''), (''remotePath'', ''bucket/${pvc.metadata.name}''),
       (''remoteType'', ''s3''), (''s3-region'', ''eu''), (''csi.storage.k8s.io/pvc/name'', ''data'')]\<rparr>"

definition sample_volume :: volume where
  "sample_volume = (case CreateVolume (\<lambda>m. m) sample_create of Reply v \<Rightarrow> v
     | _ \<Rightarrow> \<lparr>volume_id = '''', capacity_bytes = 0, volume_context = []\<rparr>)"

definition publish_created :: publish_request where
  "publish_created = sample_publish\<lparr>pr_volume_id := volume_id sample_volume,
     pr_volume_context := volume_context sample_volume\<rparr>"

theorem created_volume_is_mounted_witness:
  "\<exists>pvp. extractPublishParams (rev (add_mount_group publish_created (mergeVolumeParameters rev publish_created))) = Inr pvp
     \<and> buildFsPath (remoteName pvp) (remotePath pvp) = ''s3:bucket/data''"
proof -
  let ?p = "the (cv_parameters sample_create)"
  let ?ps = "[Lit ''bucket/'', Tmpl pvcNameMetadata]"
  let ?x = "extractPublishParams (rev (add_mount_group publish_created (mergeVolumeParameters rev publish_created)))"
  have "wf_map ?p" and "wf_map (folded ?p)" and "cv_parameters sample_create = Some ?p"
    and "cv_name sample_create \<noteq> ''''" and "cv_capabilities sample_create \<noteq> []"
    and "BlockVolume \<notin> set (cv_capabilities sample_create)"
    and "get_str (folded ?p) ''remotepath'' = render ?ps" and "\<forall>q \<in> set ?ps. wf_part q"
    by code_simp+
  moreover have "template_values ?p = [(pvcNameMetadata, ''data'')]" by code_simp
  then have "\<forall>t v. get (template_values ?p) t = Some v \<longrightarrow> CHR ''$'' \<notin> set v" by auto
  moreover have "get ?p ''remote'' = Some ''s3''" and "TrimSpace ''s3'' = ''s3''" and "''s3'' \<noteq> ''''"
    and "CreateVolume (\<lambda>m. m) sample_create = Reply sample_volume" by code_simp+
  moreover have "range_order (rev :: params \<Rightarrow> params)" by (rule range_order_rev)
  moreover have "pr_volume_context publish_created = volume_context sample_volume" by (simp add: publish_created_def)
  moreover have "wf_map (secrets_map publish_created)" and path: "resolved_path ?p ?ps = ''bucket/data''" by code_simp+
  moreover have "?x = Inr (projr ?x)" by code_simp
  ultimately have "buildFsPath (remoteName (projr ?x)) (remotePath (projr ?x)) = ''s3:'' @ resolved_path ?p ?ps"
    using created_volume_is_mounted [OF range_order_id, of ?p sample_create ?ps "''s3''" sample_volume rev
        publish_created "projr ?x"] by simp
  with \<open>?x = Inr (projr ?x)\<close> path show ?thesis by auto
qed

section \<open>Where controller and node disagree\<close>

definition mixed_case_create :: create_volume_request where
  "mixed_case_create = sample_create\<lparr>cv_parameters := Some [(''Remote'', ''s3''), (''remoteType'', ''s3'')]\<rparr>"

text \<open>
  The controller reads parameter names without regard to case, the node does not: a volume
  with the parameter \<open>Remote\<close> is created, with the remote in its ID, and every publish of it is refused
  because the remote is missing.
\<close>

theorem mixed_case_volume_unmountable:
  "\<exists>v. CreateVolume (\<lambda>m. m) mixed_case_create = Reply v \<and> volume_id v = ''s3#pvc-1''
     \<and> extractPublishParams (add_mount_group (sample_publish\<lparr>pr_secrets := None, pr_volume_context := volume_context v\<rparr>)
          (mergeVolumeParameters (\<lambda>m. m) (sample_publish\<lparr>pr_secrets := None, pr_volume_context := volume_context v\<rparr>)))
        = Inl (StatusError InvalidArgument ''remote is required (provide via volumeAttributes or secrets)'')"
proof -
  let ?v = "case CreateVolume (\<lambda>m. m) mixed_case_create of Reply v \<Rightarrow> v
     | _ \<Rightarrow> \<lparr>volume_id = '''', capacity_bytes = 0, volume_context = []\<rparr>"
  have "CreateVolume (\<lambda>m. m) mixed_case_create = Reply ?v \<and> volume_id ?v = ''s3#pvc-1''" by code_simp
  moreover have "extractPublishParams (add_mount_group (sample_publish\<lparr>pr_secrets := None, pr_volume_context := volume_context ?v\<rparr>)
      (mergeVolumeParameters (\<lambda>m. m) (sample_publish\<lparr>pr_secrets := None, pr_volume_context := volume_context ?v\<rparr>)))
    = Inl (StatusError InvalidArgument ''remote is required (provide via volumeAttributes or secrets)'')" by code_simp
  ultimately show ?thesis by blast
qed

text \<open>
  The identity service advertises online volume expansion, and neither service implements it.
  The node implements volume statistics, and does not advertise them.
\<close>

lemma expansion_advertised_not_implemented:
  "VolumeExpansion_ONLINE \<in> (case GetPluginCapabilities d of Reply cs \<Rightarrow> set cs | _ \<Rightarrow> {})"
  "ControllerExpandVolume r = Failed (StatusError Unimplemented '''')"
  "NodeExpandVolume r = Failed (StatusError Unimplemented '''')"
  by (simp_all add: GetPluginCapabilities_def ControllerExpandVolume_def NodeExpandVolume_def unimplemented_def)

end
