(* ===== verification/Node_Interleaving.thy ===== *)
theory Node_Interleaving
  imports Node_Properties
begin

text \<open>
  Requests in flight together.  gRPC serves every request in a goroutine of its own, and the
  lock of a handler excludes only requests with the same volume and target.  Here the
  handlers \<open>NodePublishVolume\<close> and \<open>NodeUnpublishVolume\<close> are cut into the phases between
  which another goroutine can run: the lock, loading the configuration, mounting, storing the
  context, the clean-up, the release.  A schedule gives the turns; a turn is one phase of one
  request.  The phases of one request alone are its handler; together they refine the
  requests of \<open>Volume_Locks\<close>; requests with remotes of their own do not disturb each other,
  and requests with a common remote do.
\<close>

section \<open>The phases of a handler\<close>

datatype call =
    PublishCall "params \<Rightarrow> params" "(string, params) gomap \<Rightarrow> (string, params) gomap" publish_request
  | UnpublishCall unpublish_request

datatype phase =
    Waiting
  | Locked
  | Configured publish_volume_params "string list"
  | Tried publish_volume_params "string list" "(mount_point \<times> context_id) outcome"
  | Found "mount_context option"
  | Unmounted "os_error option outcome"
  | Leaving "unit outcome"
  | Answered "unit outcome"

fun call_error :: "call \<Rightarrow> go_error option" where
  "call_error (PublishCall _ _ req) = validatePublishVolumeRequest req"
| "call_error (UnpublishCall req) = validateUnpublishVolumeRequest req"

fun call_volume :: "call \<Rightarrow> string" where
  "call_volume (PublishCall _ _ req) = pr_volume_id req"
| "call_volume (UnpublishCall req) = ur_volume_id req"

fun call_target :: "call \<Rightarrow> string" where
  "call_target (PublishCall _ _ req) = pr_target_path req"
| "call_target (UnpublishCall req) = ur_target_path req"

definition call_key :: "call \<Rightarrow> string" where
  "call_key c = lock_key (call_volume c) (call_target c)"

text \<open>\<open>NodePublishVolume\<close> from the lock to the loaded configuration.\<close>

definition publish_load ::
    "'w host \<Rightarrow> (params \<Rightarrow> params) \<Rightarrow> ((string, params) gomap \<Rightarrow> (string, params) gomap)
       \<Rightarrow> publish_request \<Rightarrow> ('w, phase) node_prog" where
  "publish_load h rng rngs req =
     (case extractPublishParams (rng (add_mount_group req (mergeVolumeParameters rng req))) of
        Inl e \<Rightarrow> return (Leaving (Failed e))
      | Inr pvp0 \<Rightarrow> do {
          p \<leftarrow> prepareTargetDirectory h (pr_target_path req) (pr_volume_id req);
          case p of
            Some e \<Rightarrow> return (Leaving (if error_text e = '''' then Reply () else Failed e))
          | None \<Rightarrow>
              (case generateConfigData rng pvp0 of
                 Inl e \<Rightarrow> return (Leaving (Failed e))
               | Inr pvp \<Rightarrow> do {
                   l \<leftarrow> loadRcloneConfig h rng rngs pvp;
                   return (case l of
                     Failed e \<Rightarrow> Leaving (Failed e)
                   | Panicked msg \<Rightarrow> Leaving (Panicked msg)
                   | Reply remotes \<Rightarrow> Configured pvp remotes) }) })"

text \<open>The deferred clean-up of a mount that failed, or the stored context of one that did not.\<close>

definition publish_finish ::
    "publish_request \<Rightarrow> publish_volume_params \<Rightarrow> string list \<Rightarrow> (mount_point \<times> context_id) outcome
       \<Rightarrow> ('w, phase) node_prog" where
  "publish_finish req pvp remotes r =
     (case r of
        Failed e \<Rightarrow> do { cleanupConfigRemotes remotes; return (Leaving (Failed e)) }
      | Panicked msg \<Rightarrow> do { cleanupConfigRemotes remotes; return (Leaving (Panicked msg)) }
      | Reply (mountPoint, c) \<Rightarrow> do {
          modify (\<lambda>s. setMountContext s (pr_target_path req)
            \<lparr>mc_mountPoint = Some mountPoint, mc_remoteName = remoteName pvp, mc_remotes = remotes,
             mc_cancel = Some c, mc_ctx = Some c\<rparr>);
          return (Leaving (Reply ())) })"

definition unpublish_finish :: "unpublish_request \<Rightarrow> os_error option outcome \<Rightarrow> ('w, phase) node_prog" where
  "unpublish_finish req r =
     (case r of
        Panicked msg \<Rightarrow> return (Leaving (Panicked msg))
      | Failed e \<Rightarrow> return (Leaving (Failed e))
      | Reply (Some err) \<Rightarrow> return (Leaving (Failed (StatusError Internal
          (''failed to unmount target '' @ go_quote (ur_target_path req) @ '': '' @ os_error_text err))))
      | Reply None \<Rightarrow> do {
          modify (\<lambda>s. deleteMountContext s (ur_target_path req));
          return (Leaving (Reply ())) })"

definition call_enter :: "call \<Rightarrow> ('w, phase) node_prog" where
  "call_enter c =
     (case call_error c of
        Some e \<Rightarrow> return (Answered (Failed e))
      | None \<Rightarrow> do {
          vl \<leftarrow> gets volumeLocks;
          (let (acquired, vl2) = TryAcquire vl (call_key c) in do {
             modify (\<lambda>s. s\<lparr>volumeLocks := vl2\<rparr>);
             return (if acquired then Locked else Answered (Failed (volume_busy (call_volume c)))) }) })"

fun phase_step :: "'w host \<Rightarrow> call \<Rightarrow> phase \<Rightarrow> ('w, phase) node_prog" where
  "phase_step h c Waiting = call_enter c"
| "phase_step h (PublishCall rng rngs req) Locked = publish_load h rng rngs req"
| "phase_step h (UnpublishCall req) Locked = do {
     mc \<leftarrow> gets (\<lambda>s. getMountContext s (ur_target_path req));
     return (Found mc) }"
| "phase_step h (PublishCall rng rngs req) (Configured pvp remotes) = do {
     r \<leftarrow> createAndMountFilesystem h rng (buildFsPath (remoteName pvp) (remotePath pvp)) (pr_target_path req)
            (request_mount_options req) (pvp_params pvp);
     return (Tried pvp remotes r) }"
| "phase_step h (PublishCall rng rngs req) (Tried pvp remotes r) = publish_finish req pvp remotes r"
| "phase_step h (UnpublishCall req) (Found mc) = do {
     r \<leftarrow> unmountVolume h mc (ur_target_path req);
     return (Unmounted r) }"
| "phase_step h (UnpublishCall req) (Unmounted r) = unpublish_finish req r"
| "phase_step h c (Leaving r) = do {
     modify (\<lambda>s. s\<lparr>volumeLocks := Release (volumeLocks s) (call_key c)\<rparr>);
     return (Answered r) }"
| "phase_step h c p = return p"

section \<open>One request alone\<close>

fun run_phases :: "'w host \<Rightarrow> call \<Rightarrow> nat \<Rightarrow> phase \<Rightarrow> ('w, phase) node_prog" where
  "run_phases h c 0 p = return p"
| "run_phases h c (Suc n) p = do { p2 \<leftarrow> phase_step h c p; run_phases h c n p2 }"

fun handler :: "'w host \<Rightarrow> call \<Rightarrow> ('w, unit outcome) node_prog" where
  "handler h (PublishCall rng rngs req) = NodePublishVolume h rng rngs req"
| "handler h (UnpublishCall req) = NodeUnpublishVolume h req"

lemma run_phases_answered [simp]: "run_phases h c n (Answered r) = return (Answered r)"
  by (induction n) (simp_all add: state_ext)

lemma five: "5 = Suc (Suc (Suc (Suc (Suc 0))))" and four: "4 = Suc (Suc (Suc (Suc 0)))"
  by simp_all

lemma publish_phases:
  "run_state (run_phases h (PublishCall rng rngs req) 4 Locked) s
    = (case run_state (publish_body h rng rngs req) s of
         (r, t) \<Rightarrow> (Answered r, t\<lparr>volumeLocks := Release (volumeLocks t) (call_key (PublishCall rng rngs req))\<rparr>))"
  unfolding four publish_body_def publish_load_def publish_finish_def publish_mount_def
  by (auto simp: publish_load_def publish_finish_def Let_def split: prod.splits sum.splits outcome.splits option.splits)

lemma unpublish_phases:
  "run_state (run_phases h (UnpublishCall req) 4 Locked) s
    = (case run_state (unpublish_body h req) s of
         (r, t) \<Rightarrow> (Answered r, t\<lparr>volumeLocks := Release (volumeLocks t) (call_key (UnpublishCall req))\<rparr>))"
  unfolding four unpublish_body_def
  by (auto simp: unpublish_finish_def split: prod.splits sum.splits outcome.splits option.splits)

text \<open>
  The phases are the handler: one request taken through its five phases with nothing in
  between answers what the handler answers and leaves the state that the handler leaves,
  errors, panics and refusals included, after which it stays answered.
\<close>

theorem phases_are_the_handler:
  "run_phases h c (5 + n) Waiting = State_Monad.bind (handler h c) (\<lambda>r. return (Answered r))"
proof (rule state_ext)
  fix s :: "'a node_state"
  have more: "run_phases h c (m + n) p = State_Monad.bind (run_phases h c m p) (run_phases h c n)" for m p
    by (induction m arbitrary: p) (simp_all add: state_ext split: prod.splits)
  have enter: "run_phases h c 5 Waiting = State_Monad.bind (call_enter c) (run_phases h c 4)"
    unfolding five four by simp
  have "run_state (run_phases h c 5 Waiting) s
      = run_state (State_Monad.bind (handler h c) (\<lambda>r. return (Answered r))) s"
  proof (cases c)
    case (PublishCall rng rngs req)
    show ?thesis
      unfolding enter unfolding PublishCall
      by (auto simp: call_enter_def NodePublishVolume_def with_lock_def Let_def publish_phases call_key_def
        split: option.splits prod.splits)
  next
    case (UnpublishCall req)
    show ?thesis
      unfolding enter unfolding UnpublishCall
      by (auto simp: call_enter_def NodeUnpublishVolume_def with_lock_def Let_def unpublish_phases call_key_def
        split: option.splits prod.splits)
  qed
  then show "run_state (run_phases h c (5 + n) Waiting) s
      = run_state (State_Monad.bind (handler h c) (\<lambda>r. return (Answered r))) s"
    unfolding more by (auto split: prod.splits)
qed

section \<open>Schedules\<close>

text \<open>The requests in flight with their phases, and the state of the node service.\<close>

type_synonym 'w in_flight = "(call \<times> phase) list \<times> 'w node_state"

definition take_turn :: "'w host \<Rightarrow> nat \<Rightarrow> 'w in_flight \<Rightarrow> 'w in_flight" where
  "take_turn h i x =
     (if i < length (fst x) then
        (case fst x ! i of (c, p) \<Rightarrow>
          (case run_state (phase_step h c p) (snd x) of (p2, t) \<Rightarrow> ((fst x)[i := (c, p2)], t)))
      else x)"

definition run_schedule :: "'w host \<Rightarrow> nat list \<Rightarrow> 'w in_flight \<Rightarrow> 'w in_flight" where
  "run_schedule h is x = fold (take_turn h) is x"

definition requests :: "call list \<Rightarrow> (call \<times> phase) list" where
  "requests cs = List.map (\<lambda>c. (c, Waiting)) cs"

lemma take_turn_calls [simp]: "List.map fst (fst (take_turn h i x)) = List.map fst (fst x)"
  by (auto simp: take_turn_def map_update list_update_same_conv split: prod.splits)

lemma take_turn_length [simp]: "length (fst (take_turn h i x)) = length (fst x)"
  by (auto simp: take_turn_def split: prod.splits)

lemma run_schedule_simps [simp]:
  "run_schedule h [] x = x" "run_schedule h (i # is) x = run_schedule h is (take_turn h i x)"
  "run_schedule h (is @ js) x = run_schedule h js (run_schedule h is x)"
  by (simp_all add: run_schedule_def)

lemma run_schedule_length [simp]: "length (fst (run_schedule h is x)) = length (fst x)"
  by (induction "is" arbitrary: x) simp_all

lemma run_schedule_calls [simp]: "List.map fst (fst (run_schedule h is x)) = List.map fst (fst x)"
  by (induction "is" arbitrary: x) simp_all

lemma requests_simps [simp]: "length (requests cs) = length cs" "i < length cs \<Longrightarrow> requests cs ! i = (cs ! i, Waiting)"
  by (simp_all add: requests_def)

lemma take_turn_nth:
  assumes "i < length ps" and "ps ! i = (c, p)" and "run_state (phase_step h c p) s = (p2, t)"
  shows "take_turn h i (ps, s) = (ps[i := (c, p2)], t)"
  using assms by (simp add: take_turn_def)

lemma run_schedule_invariant:
  assumes "P x"
    and "\<And>i c p p2 ps s t. P (ps, s) \<Longrightarrow> i \<in> set is \<Longrightarrow> i < length ps \<Longrightarrow> ps ! i = (c, p) \<Longrightarrow>
      run_state (phase_step h c p) s = (p2, t) \<Longrightarrow> P (ps[i := (c, p2)], t)"
  shows "P (run_schedule h is x)"
  using assms
proof (induction "is" arbitrary: x)
  case (Cons i "is")
  have "P (take_turn h i x)"
  proof (cases "i < length (fst x)")
    case True
    obtain c p where cp: "fst x ! i = (c, p)" by (cases "fst x ! i")
    obtain p2 t where r: "run_state (phase_step h c p) (snd x) = (p2, t)"
      by (cases "run_state (phase_step h c p) (snd x)")
    from Cons.prems(2) [of "fst x" "snd x" i c p p2 t] Cons.prems(1) True cp r show ?thesis
      by (simp add: take_turn_def)
  qed (use Cons.prems(1) in \<open>simp add: take_turn_def\<close>)
  then show ?case using Cons.IH [of "take_turn h i x"] Cons.prems(2) by simp
qed simp

section \<open>The phases and the lock\<close>

fun in_body :: "phase \<Rightarrow> bool" where
  "in_body Waiting = False"
| "in_body (Answered r) = False"
| "in_body p = True"

text \<open>The phases of each handler.\<close>

fun fits :: "call \<Rightarrow> phase \<Rightarrow> bool" where
  "fits (PublishCall _ _ _) p = (case p of Found _ \<Rightarrow> False | Unmounted _ \<Rightarrow> False | _ \<Rightarrow> True)"
| "fits (UnpublishCall _) p = (case p of Configured _ _ \<Rightarrow> False | Tried _ _ _ \<Rightarrow> False | _ \<Rightarrow> True)"

text \<open>The turns a request still needs.\<close>

fun turns_left :: "phase \<Rightarrow> nat" where
  "turns_left Waiting = 5"
| "turns_left Locked = 4"
| "turns_left (Configured _ _) = 3"
| "turns_left (Found _) = 3"
| "turns_left (Tried _ _ _) = 2"
| "turns_left (Unmounted _) = 2"
| "turns_left (Leaving _) = 1"
| "turns_left (Answered _) = 0"

lemma keeps_core_locks: "keeps_core m \<Longrightarrow> keeps (\<lambda>s t. volumeLocks t = volumeLocks s) m"
  by (erule keeps_mono) (simp add: core_def)

lemma load_locks: "keeps (\<lambda>s t. volumeLocks t = volumeLocks s) (loadRcloneConfig h rng rngs pvp)"
  "keeps (\<lambda>s t. volumeLocks t = volumeLocks s) (cleanupConfigRemotes rs)"
  by (rule loading_keeps; simp)+

lemma wp_publish_load:
  "wp (publish_load h rng rngs req) (\<lambda>p t. volumeLocks t = volumeLocks s
     \<and> ((\<exists>r. p = Leaving r) \<or> (\<exists>pvp rs. p = Configured pvp rs))) s"
  unfolding publish_load_def
  by (intro wp_rules wp_keeps [OF keeps_core_locks [OF prepareTargetDirectory_core]] wp_keeps [OF load_locks(1)])
    (auto split: outcome.splits)

lemma wp_finish:
  "wp (publish_finish req pvp rs r) (\<lambda>p t. volumeLocks t = volumeLocks s \<and> (\<exists>r. p = Leaving r)) s"
  "wp (unpublish_finish ureq ur) (\<lambda>p t. volumeLocks t = volumeLocks s \<and> (\<exists>r. p = Leaving r)) s"
  unfolding publish_finish_def unpublish_finish_def
  by (intro wp_rules wp_keeps [OF load_locks(2)]; auto)+

text \<open>A turn inside the body keeps the locks and makes progress.\<close>

lemma wp_phase_body:
  assumes "in_body p" and "\<nexists>r. p = Leaving r" and "fits c p"
  shows "wp (phase_step h c p) (\<lambda>p2 t. volumeLocks t = volumeLocks s \<and> in_body p2 \<and> fits c p2
     \<and> turns_left p2 < turns_left p) s"
proof (cases c)
  case (PublishCall rng rngs req)
  have m: "wp (createAndMountFilesystem h rng fp tg os pa) (\<lambda>r t. volumeLocks t = volumeLocks s) s" for fp tg os pa
    by (rule wp_weaken [OF wp_createAndMountFilesystem]) (simp add: mount_effect_def)
  show ?thesis unfolding PublishCall
    using assms unfolding PublishCall
    by (cases p) (auto intro!: wp_bind wp_return intro: wp_weaken [OF wp_publish_load] wp_weaken [OF wp_finish(1)]
        wp_weaken [OF m])
next
  case (UnpublishCall req)
  have m: "wp (unmountVolume h mc tg) (\<lambda>r t. volumeLocks t = volumeLocks s) s" for mc tg
    by (rule wp_weaken [OF wp_unmountVolume]) simp
  show ?thesis unfolding UnpublishCall
    using assms unfolding UnpublishCall
    by (cases p) (auto intro!: wp_bind wp_return wp_gets intro: wp_weaken [OF wp_finish(2)] wp_weaken [OF m])
qed

section \<open>The requests of the lock protocol\<close>

text \<open>What \<open>Volume_Locks\<close> sees of the requests in flight.\<close>

definition pc_of :: "call \<Rightarrow> phase \<Rightarrow> request_pc" where
  "pc_of c p =
     (if in_body p then InBody (call_key c)
      else if p = Waiting \<and> call_error c = None then Arrived (call_key c) else Idle)"

definition request_view :: "'w in_flight \<Rightarrow> request_system" where
  "request_view x =
     \<lparr>pcs = (\<lambda>i. if i < length (fst x) then pc_of (fst (fst x ! i)) (snd (fst x ! i)) else Idle),
      table = volumeLocks (snd x)\<rparr>"

lemma request_view_turn:
  "i < length ps \<Longrightarrow> request_view (ps[i := (c, p)], t)
     = (request_view (ps, s))\<lparr>pcs := (pcs (request_view (ps, s)))(i := pc_of c p), table := volumeLocks t\<rparr>"
  by (auto simp: request_view_def nth_list_update)

lemma request_view_pc: "i < length ps \<Longrightarrow> ps ! i = (c, p) \<Longrightarrow> pcs (request_view (ps, s)) i = pc_of c p"
  by (simp add: request_view_def)

lemma view_unchanged:
  "pcs v i = q \<Longrightarrow> table v = l \<Longrightarrow> v\<lparr>pcs := (pcs v)(i := q), table := l\<rparr> = v"
  by auto

text \<open>A turn is a step of the protocol or is not seen by it.\<close>

lemma turn_refines:
  assumes "fits c p" and "i < length ps" and "ps ! i = (c, p)"
    and run: "run_state (phase_step h c p) s = (p2, t)"
  shows "fits c p2 \<and> (request_view (ps[i := (c, p2)], t) = request_view (ps, s)
    \<or> request_step (request_view (ps, s)) (request_view (ps[i := (c, p2)], t)))"
proof -
  let ?v = "request_view (ps, s)"
  note pc = request_view_pc [OF assms(2,3), of s]
  have tab: "table ?v = volumeLocks s" by (simp add: request_view_def)
  note view = request_view_turn [OF assms(2), of c p2 t s]
  consider "p = Waiting" | r where "p = Answered r" | r where "p = Leaving r"
    | "in_body p" "\<nexists>r. p = Leaving r" by (cases p) auto
  then show ?thesis
  proof cases
    case 1
    have fit: "fits c Locked" "fits c (Answered r)" for r by (cases c; simp)+
    show ?thesis
    proof (cases "call_error c")
      case None
      obtain b l where b: "TryAcquire (volumeLocks s) (call_key c) = (b, l)" by fastforce
      then have p2: "p2 = (if b then Locked else Answered (Failed (volume_busy (call_volume c))))"
        and t: "volumeLocks t = l" using run None 1 by (auto simp: call_enter_def Let_def)
      have a: "pcs ?v i = Arrived (call_key c)" using pc 1 None by (simp add: pc_of_def)
      show ?thesis
        using request_step.enter [OF a, of l] request_step.refuse [OF a, of l] fit p2
        unfolding view t tab b by (cases b) (simp_all add: pc_of_def)
    next
      case (Some e)
      then have "p2 = Answered (Failed e)" and "t = s" using run 1 by (simp_all add: call_enter_def)
      then show ?thesis using fit view view_unchanged [OF pc tab] Some 1 by (simp add: pc_of_def)
    qed
  next
    case (2 r)
    then have "p2 = p" and "t = s" using run by (cases c; simp)+
    then show ?thesis using assms(1) view view_unchanged [OF pc tab] by simp
  next
    case (3 r)
    then have p2: "p2 = Answered r" and t: "volumeLocks t = Release (volumeLocks s) (call_key c)"
      using run by (cases c; auto)+
    have a: "pcs ?v i = InBody (call_key c)" using pc 3 by (simp add: pc_of_def)
    have "fits c p2" using p2 by (cases c) simp_all
    then show ?thesis using request_step.leave [OF a] p2 unfolding view t tab by (simp add: pc_of_def)
  next
    case 4
    from wpD [OF wp_phase_body [OF 4 assms(1)] run]
    have "volumeLocks t = volumeLocks s" "in_body p2" "fits c p2" by simp_all
    then show ?thesis using view view_unchanged [OF pc tab] 4 by (simp add: pc_of_def)
  qed
qed

lemma view_of_requests:
  assumes "volumeLocks s = NewVolumeLocks"
  shows "reachable_system (request_view (requests cs, s))"
proof (induction cs rule: rev_induct)
  case Nil
  have "request_view (requests [], s) = start_system"
    using assms by (simp add: request_view_def start_system_def requests_def)
  then show ?case by (simp add: reachable_system.start)
next
  case (snoc c cs)
  let ?v = "request_view (requests cs, s)"
  have idle: "pcs ?v (length cs) = Idle" by (simp add: request_view_def)
  have view: "request_view (requests (cs @ [c]), s) = ?v\<lparr>pcs := (pcs ?v)(length cs := pc_of c Waiting)\<rparr>"
    by (auto simp: request_view_def requests_def nth_append)
  show ?case
  proof (cases "call_error c")
    case None
    then show ?thesis using reachable_system.step [OF snoc request_step.arrive [OF idle]]
      unfolding view by (simp add: pc_of_def)
  next
    case (Some e)
    then have "(pcs ?v)(length cs := pc_of c Waiting) = pcs ?v" using idle by (auto simp: pc_of_def)
    then have "request_view (requests (cs @ [c]), s) = ?v" unfolding view by simp
    then show ?thesis using snoc by (simp only:)
  qed
qed

lemma list_all_update: "list_all P xs \<Longrightarrow> P y \<Longrightarrow> list_all P (xs[i := y])"
  by (auto simp: list_all_iff dest!: subsetD [OF set_update_subset_insert])

lemma schedule_refines:
  assumes "volumeLocks s = NewVolumeLocks"
  shows "list_all (\<lambda>(c, p). fits c p) (fst (run_schedule h is (requests cs, s)))
    \<and> reachable_system (request_view (run_schedule h is (requests cs, s)))"
proof (rule run_schedule_invariant)
  have "fits c Waiting" for c by (cases c) simp_all
  then show "list_all (\<lambda>(c, p). fits c p) (fst (requests cs, s)) \<and> reachable_system (request_view (requests cs, s))"
    using view_of_requests [OF assms] by (simp add: requests_def list_all_iff)
next
  fix i c p p2 ps and s t :: "'a node_state"
  assume P: "list_all (\<lambda>(c, p). fits c p) (fst (ps, s)) \<and> reachable_system (request_view (ps, s))"
    and i: "i < length ps" "ps ! i = (c, p)" and run: "run_state (phase_step h c p) s = (p2, t)"
  from P i have "fits c p" by (auto simp: list_all_length)
  note r = turn_refines [OF this i run]
  have "list_all (\<lambda>(c, p). fits c p) (ps[i := (c, p2)])"
    using P r by (simp add: list_all_update)
  then show "list_all (\<lambda>(c, p). fits c p) (fst (ps[i := (c, p2)], t))
      \<and> reachable_system (request_view (ps[i := (c, p2)], t))"
    using P r reachable_system.step by auto
qed

text \<open>
  C17: Whatever the order of their turns, the requests in flight hold the lock of their volume
  and target exactly while they are between the lock and the release, and no two of them hold
  the same one: the handlers refine the protocol of the lock table.
\<close>

theorem schedules_exclude:
  assumes "volumeLocks s = NewVolumeLocks"
  shows "case run_schedule h is (requests cs, s) of (ps, t) \<Rightarrow>
    (\<forall>k. held (volumeLocks t) k = (\<exists>i < length ps. in_body (snd (ps ! i)) \<and> call_key (fst (ps ! i)) = k))
    \<and> (\<forall>i < length ps. \<forall>j < length ps. in_body (snd (ps ! i)) \<and> in_body (snd (ps ! j))
         \<and> call_key (fst (ps ! i)) = call_key (fst (ps ! j)) \<longrightarrow> i = j)"
proof -
  obtain ps t where x: "run_schedule h is (requests cs, s) = (ps, t)"
    by (cases "run_schedule h is (requests cs, s)")
  let ?v = "request_view (ps, t)"
  from schedule_refines [OF assms, of h "is" cs] have inv: "table_inv ?v"
    unfolding x by (simp add: reachable_table_inv)
  have pc: "pcs ?v i = InBody k \<longleftrightarrow> i < length ps \<and> in_body (snd (ps ! i)) \<and> call_key (fst (ps ! i)) = k" for i k
    by (auto simp: request_view_def pc_of_def)
  have "held (volumeLocks t) k = (\<exists>i. pcs ?v i = InBody k)" for k
    using inv by (simp add: table_inv_def) (simp add: request_view_def)
  moreover have "pcs ?v i = InBody k \<Longrightarrow> pcs ?v j = InBody k \<Longrightarrow> i = j" for i j k
    using inv unfolding table_inv_def by blast
  ultimately show ?thesis unfolding x pc by auto
qed

section \<open>Every request is answered\<close>

lemma turns_after_turn:
  assumes "fits c p" and run: "run_state (phase_step h c p) s = (p2, t)"
  shows "turns_left p2 \<le> turns_left p - 1"
proof -
  consider "p = Waiting" | r where "p = Answered r" | r where "p = Leaving r"
    | "in_body p" "\<nexists>r. p = Leaving r" by (cases p) auto
  then show ?thesis
  proof cases
    case 1
    then show ?thesis using run by (auto simp: call_enter_def Let_def split: option.splits prod.splits)
  next
    case 4
    from wpD [OF wp_phase_body [OF 4 assms(1)] run] have "turns_left p2 < turns_left p" by simp
    then show ?thesis by linarith
  qed (use run in \<open>cases c; auto\<close>)+
qed

lemma turns_left_0: "turns_left p = 0 \<longleftrightarrow> (\<exists>r. p = Answered r)"
  by (cases p) simp_all

lemma turns_after_schedule:
  assumes "list_all (\<lambda>(c, p). fits c p) (fst x)" and "i < length (fst x)"
  shows "list_all (\<lambda>(c, p). fits c p) (fst (run_schedule h is x))
    \<and> turns_left (snd (fst (run_schedule h is x) ! i)) \<le> turns_left (snd (fst x ! i)) - count_list is i"
  using assms
proof (induction "is" arbitrary: x)
  case (Cons j "is")
  have turn: "list_all (\<lambda>(c, p). fits c p) (fst (take_turn h j x))
    \<and> turns_left (snd (fst (take_turn h j x) ! i)) \<le> turns_left (snd (fst x ! i)) - (if i = j then 1 else 0)"
  proof (cases "j < length (fst x)")
    case True
    obtain c p where cp: "fst x ! j = (c, p)" by (cases "fst x ! j")
    obtain p2 t where r: "run_state (phase_step h c p) (snd x) = (p2, t)"
      by (cases "run_state (phase_step h c p) (snd x)")
    have fit: "fits c p" using Cons.prems(1) True cp by (auto simp: list_all_length)
    have n: "take_turn h j x = ((fst x)[j := (c, p2)], t)" using True cp r by (simp add: take_turn_def)
    have "fits c p2" using turn_refines [OF fit True cp r] by simp
    then show ?thesis using Cons.prems turns_after_turn [OF fit r] cp True unfolding n
      by (auto simp: list_all_update nth_list_update)
  qed (use Cons.prems in \<open>auto simp: take_turn_def\<close>)
  from Cons.IH [of "take_turn h j x"] turn Cons.prems(2) show ?case by (auto split: if_splits)
qed simp

text \<open>
  C14: No request waits for another: whatever the order and whatever turns the others have had, a request that
  has had five turns is answered; and whenever all have been answered no lock is held.
\<close>

theorem schedule_answers:
  assumes "volumeLocks s = NewVolumeLocks"
  shows "case run_schedule h is (requests cs, s) of (ps, t) \<Rightarrow>
    length ps = length cs
    \<and> (\<forall>i < length cs. 5 \<le> count_list is i \<longrightarrow> (\<exists>r. ps ! i = (cs ! i, Answered r)))
    \<and> ((\<forall>i < length cs. \<exists>r. snd (ps ! i) = Answered r) \<longrightarrow> volumeLocks t = NewVolumeLocks)"
proof -
  obtain ps t where x: "run_schedule h is (requests cs, s) = (ps, t)"
    by (cases "run_schedule h is (requests cs, s)")
  have len: "length ps = length cs" using run_schedule_length [of h "is" "(requests cs, s)"] unfolding x by simp
  have "List.map fst ps = cs"
    using run_schedule_calls [of h "is" "(requests cs, s)"] unfolding x by (simp add: requests_def comp_def)
  then have fst: "fst (ps ! i) = cs ! i" if "i < length cs" for i using that len by (metis nth_map)
  have fit: "list_all (\<lambda>(c, p). fits c p) (requests cs)"
    by (auto simp: requests_def list_all_iff) (metis call.exhaust fits.simps phase.simps)
  have "turns_left (snd (ps ! i)) = 0" if "i < length cs" "5 \<le> count_list is i" for i
    using turns_after_schedule [of "(requests cs, s)" i h "is"] fit that x by fastforce
  then have ans: "\<exists>r. ps ! i = (cs ! i, Answered r)" if "i < length cs" "5 \<le> count_list is i" for i
    using that fst by (metis turns_left_0 prod.collapse)
  have "volumeLocks t = NewVolumeLocks" if all: "\<forall>i < length cs. \<exists>r. snd (ps ! i) = Answered r"
  proof -
    have "\<not> in_body (snd (ps ! i))" if "i < length ps" for i using all that len by fastforce
    then have "\<forall>i k. pcs (request_view (ps, t)) i \<noteq> InBody k"
      by (auto simp: request_view_def pc_of_def)
    with schedule_refines [OF assms(1), of h "is" cs] have "table_inv (request_view (ps, t))"
        and n: "\<forall>i k. pcs (request_view (ps, t)) i \<noteq> InBody k"
      unfolding x by (simp_all add: reachable_table_inv)
    then show ?thesis by (intro locks_eqI) (auto simp: table_inv_def request_view_def vl.holds_fresh)
  qed
  then show ?thesis using x len ans by simp
qed

section \<open>Requests with remotes of their own\<close>

fun phase_remotes :: "phase \<Rightarrow> string set" where
  "phase_remotes (Configured _ remotes) = set remotes"
| "phase_remotes (Tried _ remotes _) = set remotes"
| "phase_remotes (Found (Some mc)) = set (mc_remotes mc)"
| "phase_remotes _ = {}"

definition context_remotes :: "mount_context option \<Rightarrow> string set" where
  "context_remotes mc = (case mc of None \<Rightarrow> {} | Some m \<Rightarrow> set (mc_remotes m))"

text \<open>A request that has nothing to do with the remotes \<open>ns\<close>.\<close>

fun apart :: "'w host \<Rightarrow> string set \<Rightarrow> 'w node_state \<Rightarrow> call \<times> phase \<Rightarrow> bool" where
  "apart h ns s (PublishCall rng rngs req, p) \<longleftrightarrow>
     range_order rngs \<and> publish_sections h rng req \<inter> ns = {} \<and> phase_remotes p \<inter> ns = {}"
| "apart h ns s (UnpublishCall req, p) \<longleftrightarrow>
     phase_remotes p \<inter> ns = {} \<and> context_remotes (getMountContext s (ur_target_path req)) \<inter> ns = {}"

definition apart_effect :: "string set \<Rightarrow> 'w node_state \<Rightarrow> phase \<Rightarrow> 'w node_state \<Rightarrow> bool" where
  "apart_effect ns s p t \<longleftrightarrow> same_outside (- ns) (storage s) (storage t) \<and> phase_remotes p \<inter> ns = {}
     \<and> (\<forall>tg. getMountContext t tg = getMountContext s tg \<or> context_remotes (getMountContext t tg) \<inter> ns = {})"

lemma apart_effect_stored:
  assumes "mountContexts t = mountContexts s"
  shows "apart_effect ns s p t \<longleftrightarrow> same_outside (- ns) (storage s) (storage t) \<and> phase_remotes p \<inter> ns = {}"
  unfolding apart_effect_def getMountContext_cong [OF assms] by simp

lemma apart_effect_same:
  "storage t = storage s \<Longrightarrow> mountContexts t = mountContexts s \<Longrightarrow> phase_remotes p \<inter> ns = {} \<Longrightarrow> apart_effect ns s p t"
  by (simp add: apart_effect_stored)

lemma wp_conj: "wp m P s \<Longrightarrow> wp m Q s \<Longrightarrow> wp m (\<lambda>x t. P x t \<and> Q x t) s"
  by (auto simp: wp_def)

lemma unloaded_wp: "wp (loadRcloneConfig h rng rngs pvp) (\<lambda>l t. unloaded t = unloaded s) s"
  by (rule wp_keeps [OF loadRcloneConfig_unloaded])

lemma wp_publish_load_apart:
  fixes s :: "'w node_state"
  assumes "updates_own_section h" and "range_order rngs" and ns: "publish_sections h rng req \<inter> ns = {}"
  shows "wp (publish_load h rng rngs req) (apart_effect ns s) s"
proof (cases "extractPublishParams (rng (add_mount_group req (mergeVolumeParameters rng req)))")
  case (Inl e)
  then show ?thesis by (simp add: publish_load_def wp_return apart_effect_same)
next
  case (Inr pvp0)
  have load: "wp (State_Monad.bind (loadRcloneConfig h rng rngs pvp) (\<lambda>l. return (case l of
        Failed e \<Rightarrow> Leaving (Failed e) | Panicked msg \<Rightarrow> Leaving (Panicked msg)
      | Reply remotes \<Rightarrow> Configured pvp remotes))) (apart_effect ns s) t"
    if gen: "generateConfigData rng pvp0 = Inr pvp" and t: "core t = core s" for pvp and t :: "'w node_state"
  proof (rule wp_bind, rule wp_weaken [OF wp_conj
      [OF wp_load_sections [OF assms(1,2) generated_nonempty [OF gen]] unloaded_wp]], rule wp_return)
    fix l and u :: "'w node_state"
    have sec: "publish_sections h rng req = (case parseAllConfigRemotes (h_fuel h) (configData pvp) of
          Some (Inr m) \<Rightarrow> fst ` set m | _ \<Rightarrow> {})"
      using Inr gen by (simp add: publish_sections_def)
    assume "(let ns = (case parseAllConfigRemotes (h_fuel h) (configData pvp) of
          Some (Inr m) \<Rightarrow> fst ` set m | _ \<Rightarrow> {}) in
        same_outside ns (storage t) (storage u) \<and> (\<forall>remotes. l = Reply remotes \<longrightarrow> set remotes = ns))
      \<and> unloaded u = unloaded t"
    then have "same_outside (publish_sections h rng req) (storage s) (storage u)"
      and l: "\<forall>remotes. l = Reply remotes \<longrightarrow> set remotes = publish_sections h rng req"
      and m: "mountContexts u = mountContexts s"
      using t unfolding sec Let_def by (simp_all add: core_def unloaded_def)
    then have "same_outside (- ns) (storage s) (storage u)" using ns by (auto intro: same_outside_mono)
    then show "apart_effect ns s (case l of Failed e \<Rightarrow> Leaving (Failed e) | Panicked msg \<Rightarrow> Leaving (Panicked msg)
        | Reply remotes \<Rightarrow> Configured pvp remotes) u"
      using l ns by (auto simp: apart_effect_stored [OF m] split: outcome.splits)
  qed
  have stop: "wp (return (Leaving r)) (apart_effect ns s) t" if "core t = core s" for r and t :: "'w node_state"
    using that by (intro wp_return apart_effect_same) (simp_all add: core_def)
  show ?thesis unfolding publish_load_def Inr sum.case
    by (rule wp_bind, rule wp_core [OF prepareTargetDirectory_core])
      (auto intro!: wp_option wp_sum load stop)
qed

lemma wp_finish_apart:
  fixes s :: "'w node_state"
  assumes "set rs \<inter> ns = {}"
  shows "wp (publish_finish req pvp rs r) (apart_effect ns s) s"
    and "wp (unpublish_finish ureq ur) (apart_effect ns s) s"
proof -
  have clean: "wp (cleanupConfigRemotes rs) (\<lambda>_ t. apart_effect ns s (Leaving x) t) s" for x
  proof (rule wpI)
    fix y and t :: "'w node_state"
    assume r: "run_state (cleanupConfigRemotes rs) s = (y, t)"
    from keeps_run [OF cleanupConfigRemotes_unloaded r] have m: "mountContexts t = mountContexts s"
      by (simp add: unloaded_def)
    have "storage t = cs.remove_all (storage s) rs" using cleanup_storage [of rs s] r by simp
    then have "same_outside (- ns) (storage s) (storage t)"
      using assms same_outside_remove_all [of rs "- ns" "storage s"] by auto
    then show "apart_effect ns s (Leaving x) t" by (simp add: apart_effect_stored [OF m])
  qed
  show "wp (publish_finish req pvp rs r) (apart_effect ns s) s"
    unfolding publish_finish_def
    by (intro wp_rules wp_weaken [OF clean])
      (use assms in \<open>auto simp: apart_effect_def ctx.lookup_store context_remotes_def\<close>)
  show "wp (unpublish_finish ureq ur) (apart_effect ns s) s"
    unfolding unpublish_finish_def
    by (intro wp_rules) (auto simp: apart_effect_def ctx.lookup_drop context_remotes_def)
qed

lemma phase_remotes_found [simp]: "phase_remotes (Found mc) = context_remotes mc"
  by (cases mc) (simp_all add: context_remotes_def)

lemma wp_unmount_apart:
  fixes s :: "'w node_state"
  assumes "context_remotes mc \<inter> ns = {}"
  shows "wp (unmountVolume h mc tg) (\<lambda>r t. apart_effect ns s (Unmounted r) t) s"
proof (rule wp_weaken [OF wp_unmountVolume])
  fix r :: "os_error option outcome" and t :: "'w node_state"
  assume e: "volumeLocks t = volumeLocks s \<and> mountContexts t = mountContexts s
      \<and> next_context t = next_context s \<and>
      (case r of
         Reply _ \<Rightarrow> live t = released_live mc (live s) \<and> storage t = released_store mc (storage s)
       | Failed e \<Rightarrow> False
       | Panicked msg \<Rightarrow> live t = live s \<and> storage t = storage s)"
  then have "storage t \<in> {storage s, released_store mc (storage s)}" by (auto split: outcome.splits)
  moreover have "same_outside (- ns) (storage s) (released_store mc (storage s))"
    using assms by (auto simp: released_store_def context_remotes_def intro!: same_outside_remove_all
        split: option.splits)
  ultimately have "same_outside (- ns) (storage s) (storage t)" by auto
  then show "apart_effect ns s (Unmounted r) t" using e by (simp add: apart_effect_stored)
qed

text \<open>A turn of such a request leaves the sections of the remotes \<open>ns\<close> alone.\<close>

lemma wp_phase_apart:
  fixes s :: "'w node_state"
  assumes h: "updates_own_section h" and a: "apart h ns s (c, p)"
  shows "wp (phase_step h c p) (apart_effect ns s) s"
proof -
  have enter: "wp (call_enter c) (apart_effect ns s) s"
    unfolding call_enter_def
    by (intro wp_rules) (auto intro!: apart_effect_same)
  have leave: "wp (phase_step h c (Leaving r)) (apart_effect ns s) s" for r
    by (cases c) (auto intro!: wp_bind wp_modify wp_return apart_effect_same)
  have stay: "wp (return p) (apart_effect ns s) s" if "phase_remotes p \<inter> ns = {}"
    using that by (intro wp_return apart_effect_same) simp_all
  show ?thesis
  proof (cases c)
    case (PublishCall rng rngs req)
    have rs: "phase_remotes p \<inter> ns = {}" and ns: "range_order rngs" "publish_sections h rng req \<inter> ns = {}"
      using a PublishCall by simp_all
    have tried: "wp (createAndMountFilesystem h rng fp tg os pa) (\<lambda>r t. apart_effect ns s (Tried pvp remotes r) t) s"
      if "set remotes \<inter> ns = {}" for fp tg os pa pvp remotes
      by (rule wp_weaken [OF wp_createAndMountFilesystem], rule apart_effect_same)
        (use that in \<open>simp_all add: mount_effect_def\<close>)
    show ?thesis
    proof (cases p)
      case (Configured pvp remotes)
      then show ?thesis using PublishCall rs by (auto intro!: wp_bind wp_return intro: wp_weaken [OF tried])
    next
      case (Tried pvp remotes r)
      then show ?thesis using PublishCall rs wp_finish_apart(1) by auto
    qed (use PublishCall rs enter leave stay wp_publish_load_apart [OF h ns] in auto)
  next
    case (UnpublishCall req)
    have rs: "phase_remotes p \<inter> ns = {}" and mc: "context_remotes (getMountContext s (ur_target_path req)) \<inter> ns = {}"
      using a UnpublishCall by simp_all
    show ?thesis
    proof (cases p)
      case Locked
      then show ?thesis using UnpublishCall mc by (auto intro!: wp_bind wp_return wp_gets apart_effect_same)
    next
      case (Found x)
      then have "context_remotes x \<inter> ns = {}" using rs by simp
      note w = wp_weaken [OF wp_unmount_apart [OF this]]
      show ?thesis unfolding UnpublishCall Found phase_step.simps by (intro wp_bind w wp_return)
    next
      case (Unmounted r)
      then show ?thesis using UnpublishCall wp_finish_apart(2) [of "[]" ns] by auto
    qed (use UnpublishCall rs enter leave stay in auto)
  qed
qed

lemma apart_after:
  "apart h ns s (c, p) \<Longrightarrow> apart_effect ns s p2 t \<Longrightarrow> apart h ns t (c, p2)"
  "apart h ns s x \<Longrightarrow> apart_effect ns s p2 t \<Longrightarrow> apart h ns t x"
proof -
  show "apart h ns s (c, p) \<Longrightarrow> apart_effect ns s p2 t \<Longrightarrow> apart h ns t (c, p2)"
    unfolding apart_effect_def by (cases c) (auto, metis IntI empty_iff)
  show "apart h ns s x \<Longrightarrow> apart_effect ns s p2 t \<Longrightarrow> apart h ns t x"
    unfolding apart_effect_def by (cases "fst x"; cases x) (auto, metis IntI empty_iff)
qed

text \<open>
  C3: Requests with remotes of their own do not disturb each other: while only such requests
  get turns, a publish or unpublish in progress finds the sections of its own remotes in
  rclone's memory exactly as it left them, whatever the other requests load, mount, fail to
  mount or remove.
\<close>

theorem others_keep_remotes:
  assumes "updates_own_section h" and "\<forall>i \<in> set is. i < length ps \<longrightarrow> apart h ns s (ps ! i)"
    and "run_schedule h is (ps, s) = (qs, t)"
  shows "(\<forall>n \<in> ns. HasSection (storage t) n = HasSection (storage s) n
      \<and> (\<forall>k. StoreValue (storage t) n k = StoreValue (storage s) n k))
    \<and> (\<forall>j < length ps. j \<notin> set is \<longrightarrow> qs ! j = ps ! j)"
proof -
  let ?P = "\<lambda>x. length (fst x) = length ps \<and> (\<forall>i \<in> set is. i < length ps \<longrightarrow> apart h ns (snd x) (fst x ! i))
    \<and> same_outside (- ns) (storage s) (storage (snd x))
    \<and> (\<forall>j < length ps. j \<notin> set is \<longrightarrow> fst x ! j = ps ! j)"
  have "?P (run_schedule h is (ps, s))"
  proof (rule run_schedule_invariant)
    show "?P (ps, s)" using assms(2) by simp
    fix i c p p2 qs and u v :: "'a node_state"
    assume P: "?P (qs, u)" and i: "i \<in> set is" "i < length qs" "qs ! i = (c, p)"
      and run: "run_state (phase_step h c p) u = (p2, v)"
    then have a: "apart h ns u (c, p)" by (metis fst_conv snd_conv)
    note e = wpD [OF wp_phase_apart [OF assms(1) a] run]
    then have "same_outside (- ns) (storage u) (storage v)" by (simp add: apart_effect_def)
    then have "same_outside (- ns) (storage s) (storage v)"
      using P same_outside_trans by fastforce
    then show "?P (qs[i := (c, p2)], v)"
      using P i apart_after(1) [OF a e] apart_after(2) [OF _ e] by (auto simp: nth_list_update)
  qed
  then show ?thesis using assms(3) by (simp add: same_outside_def)
qed

section \<open>Examples\<close>

definition sample_call :: call where
  "sample_call = PublishCall (\<lambda>m. m) (\<lambda>m. m) sample_publish"

text \<open>A second volume with a remote of its own, and one with the remote of the first and a
mount type that does not exist.\<close>

definition sample_gcs_call :: call where
  "sample_gcs_call = PublishCall (\<lambda>m. m) (\<lambda>m. m) (sample_publish
     \<lparr>pr_volume_id := ''gcs#pvc-2'', pr_target_path := ''/pods/q/mount'',
      pr_volume_context := [(''remote'', ''gcs''), (''remotePath'', ''bucket''), (''remoteType'', ''gcs''),
        (''gcs-project'', ''p'')]\<rparr>)"

definition sample_bad_call :: call where
  "sample_bad_call = PublishCall (\<lambda>m. m) (\<lambda>m. m) (sample_publish
     \<lparr>pr_volume_id := ''s3#pvc-2'', pr_target_path := ''/pods/q/mount'',
      pr_volume_context := pr_volume_context sample_publish @ [(''mount-type'', ''nfsmount'')]\<rparr>)"

lemma new_node_locks: "volumeLocks (new_node_state w) = NewVolumeLocks"
  by (simp add: new_node_state_def)

theorem schedules_exclude_witness:
  "case run_schedule sample_host [0, 1, 0, 1] (requests [sample_call, sample_call], new_node_state sample_start) of (ps, t) \<Rightarrow>
    (\<forall>k. held (volumeLocks t) k = (\<exists>i < length ps. in_body (snd (ps ! i)) \<and> call_key (fst (ps ! i)) = k))
    \<and> (\<forall>i < length ps. \<forall>j < length ps. in_body (snd (ps ! i)) \<and> in_body (snd (ps ! j))
         \<and> call_key (fst (ps ! i)) = call_key (fst (ps ! j)) \<longrightarrow> i = j)"
  by (rule schedules_exclude [OF new_node_locks])

text \<open>The first request is answered while the second, which has had one turn, is in its body.\<close>

theorem schedule_answers_witness:
  "case run_schedule sample_host [0, 0, 0, 1, 0, 0]
      (requests [sample_call, sample_gcs_call], new_node_state sample_start) of (ps, t) \<Rightarrow>
    (\<exists>r. ps ! 0 = (sample_call, Answered r)) \<and> in_body (snd (ps ! 1))"
proof -
  have "in_body (snd (fst (run_schedule sample_host [0, 0, 0, 1, 0, 0]
      (requests [sample_call, sample_gcs_call], new_node_state sample_start)) ! 1))" by code_simp
  then show ?thesis
    using schedule_answers [OF new_node_locks, of "[sample_call, sample_gcs_call]" "[0, 0, 0, 1, 0, 0]" sample_host sample_start]
    by (force split: prod.splits)
qed

lemma sample_gcs_apart:
  "apart sample_host {''s3''} (snd (run_schedule sample_host [0, 0] (requests [sample_call, sample_gcs_call],
      new_node_state sample_start))) (sample_gcs_call, Waiting)"
proof -
  have "publish_sections sample_host (\<lambda>m. m) (sample_publish
     \<lparr>pr_volume_id := ''gcs#pvc-2'', pr_target_path := ''/pods/q/mount'',
      pr_volume_context := [(''remote'', ''gcs''), (''remotePath'', ''bucket''), (''remoteType'', ''gcs''),
        (''gcs-project'', ''p'')]\<rparr>) = {''gcs''}"
    by code_simp
  then show ?thesis by (simp add: sample_gcs_call_def range_order_id)
qed

theorem others_keep_remotes_witness:
  "let x = run_schedule sample_host [0, 0] (requests [sample_call, sample_gcs_call], new_node_state sample_start);
       y = run_schedule sample_host [1, 1, 1, 1, 1] x in
   fst y ! 1 = (sample_gcs_call, Answered (Reply ()))
   \<and> StoreValue (storage (snd y)) ''s3'' ''type'' = StoreValue (storage (snd x)) ''s3'' ''type''
   \<and> StoreValue (storage (snd x)) ''s3'' ''type'' = Some ''s3''"
proof -
  define x where "x = run_schedule sample_host [0, 0] (requests [sample_call, sample_gcs_call], new_node_state sample_start)"
  define y where "y = run_schedule sample_host [1, 1, 1, 1, 1] x"
  have n: "fst x ! 1 = (sample_gcs_call, Waiting)" and l: "length (fst x) = 2"
    unfolding x_def by (simp_all add: take_turn_def requests_def split: prod.splits)
  have v: "snd (fst y ! 1) = Answered (Reply ())" "StoreValue (storage (snd x)) ''s3'' ''type'' = Some ''s3''"
    unfolding y_def x_def by code_simp+
  have "\<forall>i \<in> set [1, 1, 1, 1, 1]. i < length (fst x) \<longrightarrow> apart sample_host {''s3''} (snd x) (fst x ! i)"
    using sample_gcs_apart [folded x_def] n l by simp
  from others_keep_remotes [OF sample_updates_own_section this prod.collapse [symmetric]]
  have "StoreValue (storage (snd y)) ''s3'' ''type'' = StoreValue (storage (snd x)) ''s3'' ''type''"
    by (simp add: y_def)
  moreover have "fst (fst y ! 1) = sample_gcs_call"
    using n l unfolding y_def by (metis run_schedule_calls nth_map run_schedule_length fst_conv one_less_numeral_iff semiring_norm(76))
  ultimately show ?thesis using v unfolding Let_def x_def [symmetric] y_def [symmetric]
    by (simp add: prod_eq_iff)
qed

section \<open>Requests with a common remote\<close>

definition first_answer :: "nat list \<Rightarrow> phase" where
  "first_answer is = snd (hd (fst (run_schedule sample_host is
     (requests [sample_call, sample_bad_call], new_node_state sample_start))))"

text \<open>
  Two volumes of one storage class share their remote.  Before or after the other one, the
  first request succeeds; but when the other fails to mount between the moment the first one
  has loaded the configuration and the moment it creates its file system, the clean-up of
  the other removes the remote under the first one, which fails too.
\<close>

theorem racing_publish_fails:
  "first_answer [0, 0, 0, 0, 0, 1, 1, 1, 1, 1] = Answered (Reply ())"
  "first_answer [1, 1, 1, 1, 1, 0, 0, 0, 0, 0] = Answered (Reply ())"
  "first_answer [0, 0, 1, 1, 1, 1, 1, 0, 0, 0] = Answered (Failed (StatusError Internal
     ''failed to initialize filesystem: didn't find section in config file''))"
  by code_simp+

end
