(* ===== verification/Interleaving_Contexts.thy ===== *)
theory Interleaving_Contexts
  imports Node_Interleaving
begin

text \<open>
  The mount contexts of requests in flight together: under any schedule, as long as no call
  panics, every context that still runs belongs to a stored mount or to a request that is about
  to store it.
\<close>

section \<open>What a turn does to the contexts\<close>

definition same_contexts :: "'w node_state \<Rightarrow> 'w node_state \<Rightarrow> bool" where
  "same_contexts s t \<longleftrightarrow> getMountContext t = getMountContext s \<and> live t = live s \<and> next_context t = next_context s"

fun turn_effect :: "call \<Rightarrow> phase \<Rightarrow> 'w node_state \<Rightarrow> phase \<Rightarrow> 'w node_state \<Rightarrow> bool" where
  "turn_effect c Waiting s p2 t \<longleftrightarrow> same_contexts s t \<and> (p2 = Locked \<or> (\<exists>e. p2 = Answered (Failed e)))"
| "turn_effect (PublishCall rng rngs req) Locked s p2 t \<longleftrightarrow>
     same_contexts s t \<and> ((\<exists>r. p2 = Leaving r) \<or> (\<exists>pvp rs. p2 = Configured pvp rs))"
| "turn_effect (UnpublishCall req) Locked s p2 t \<longleftrightarrow>
     same_contexts s t \<and> p2 = Found (getMountContext s (ur_target_path req))"
| "turn_effect c (Configured pvp rs) s p2 t \<longleftrightarrow>
     getMountContext t = getMountContext s \<and> next_context t = Suc (next_context s) \<and>
     (\<exists>r. p2 = Tried pvp rs r \<and>
       (case r of Reply (m, x) \<Rightarrow> x = next_context s \<and> live t = insert x (live s)
        | Failed e \<Rightarrow> live t = live s - {next_context s}
        | Panicked msg \<Rightarrow> live t = insert (next_context s) (live s)))"
| "turn_effect c (Tried pvp rs r) s p2 t \<longleftrightarrow>
     live t = live s \<and> next_context t = next_context s \<and>
     (case r of
        Reply (m, x) \<Rightarrow> p2 = Leaving (Reply ()) \<and>
          getMountContext t = (getMountContext s)(call_target c \<mapsto> published_context m (remoteName pvp) rs x)
      | Failed e \<Rightarrow> p2 = Leaving (Failed e) \<and> getMountContext t = getMountContext s
      | Panicked msg \<Rightarrow> p2 = Leaving (Panicked msg) \<and> getMountContext t = getMountContext s)"
| "turn_effect c (Found mc) s p2 t \<longleftrightarrow>
     getMountContext t = getMountContext s \<and> next_context t = next_context s \<and>
     (\<exists>r. p2 = Unmounted r \<and> live t = (case r of Reply x \<Rightarrow> released_live mc (live s) | _ \<Rightarrow> live s))"
| "turn_effect c (Unmounted r) s p2 t \<longleftrightarrow>
     live t = live s \<and> next_context t = next_context s \<and>
     (case r of
        Reply None \<Rightarrow> p2 = Leaving (Reply ()) \<and> getMountContext t = (getMountContext s)(call_target c := None)
      | Reply (Some e) \<Rightarrow> (\<exists>e2. p2 = Leaving (Failed e2)) \<and> getMountContext t = getMountContext s
      | Failed e \<Rightarrow> p2 = Leaving (Failed e) \<and> getMountContext t = getMountContext s
      | Panicked msg \<Rightarrow> p2 = Leaving (Panicked msg) \<and> getMountContext t = getMountContext s)"
| "turn_effect c (Leaving r) s p2 t \<longleftrightarrow> same_contexts s t \<and> p2 = Answered r"
| "turn_effect c (Answered r) s p2 t \<longleftrightarrow> same_contexts s t \<and> p2 = Answered r"

lemma same_contextsI: "unloaded t = unloaded s \<Longrightarrow> same_contexts s t"
  by (auto simp: unloaded_def same_contexts_def getMountContext_def)

lemma wp_publish_load_contexts:
  "wp (publish_load h rng rngs req) (\<lambda>p t. same_contexts s t) s"
proof -
  have "wp (publish_load h rng rngs req) (\<lambda>p t. unloaded t = unloaded s) s"
    unfolding publish_load_def
    by (intro wp_rules wp_core [OF prepareTargetDirectory_core] wp_keeps [OF loadRcloneConfig_unloaded])
      (auto dest!: core_unloaded)
  then show ?thesis by (rule wp_weaken) (rule same_contextsI)
qed

lemma wp_turn_publish:
  assumes "fits (PublishCall rng rngs req) p"
  shows "wp (phase_step h (PublishCall rng rngs req) p) (turn_effect (PublishCall rng rngs req) p s) s"
proof (cases p)
  case Waiting
  then show ?thesis
    by (auto simp: call_enter_def Let_def wp_def same_contexts_def getMountContext_def split: option.splits prod.splits)
next
  case Locked
  then show ?thesis
    by (simp, intro wp_weaken [OF wp_conj [OF wp_publish_load wp_publish_load_contexts]]) auto
next
  case (Configured pvp rs)
  then show ?thesis
    by (simp, intro wp_bind wp_weaken [OF wp_createAndMountFilesystem] wp_return)
      (auto simp: mount_effect_def dest!: getMountContext_cong split: outcome.splits)
next
  case (Tried pvp rs r)
  have clean: "wp (cleanupConfigRemotes rs) (\<lambda>_ t. unloaded t = unloaded s) s"
    by (rule wp_keeps [OF cleanupConfigRemotes_unloaded])
  show ?thesis unfolding Tried phase_step.simps publish_finish_def
    by (intro wp_outcome wp_prod wp_bind wp_weaken [OF clean] wp_modify wp_return)
      (auto simp: unloaded_def ctx.lookup_store published_context_def dest!: getMountContext_cong)
next
  case (Leaving r)
  then show ?thesis by (auto simp: wp_def same_contexts_def getMountContext_def)
qed (use assms in \<open>auto simp: wp_def same_contexts_def\<close>)

lemma wp_turn_unpublish:
  assumes "fits (UnpublishCall req) p"
  shows "wp (phase_step h (UnpublishCall req) p) (turn_effect (UnpublishCall req) p s) s"
proof (cases p)
  case Waiting
  then show ?thesis
    by (auto simp: call_enter_def Let_def wp_def same_contexts_def getMountContext_def split: option.splits prod.splits)
next
  case (Found mc)
  then show ?thesis
    by (simp, intro wp_bind wp_weaken [OF wp_unmountVolume] wp_return)
      (auto dest!: getMountContext_cong split: outcome.splits)
next
  case (Unmounted r)
  then show ?thesis
    by (auto simp: unpublish_finish_def wp_def fun_eq_iff ctx.lookup_drop split: outcome.splits option.splits)
next
  case (Leaving r)
  then show ?thesis by (auto simp: wp_def same_contexts_def getMountContext_def)
qed (use assms in \<open>auto simp: wp_def same_contexts_def\<close>)

lemma turn_effects:
  assumes "fits c p" and "run_state (phase_step h c p) s = (p2, t)"
  shows "turn_effect c p s p2 t"
  using assms wpD [OF wp_turn_publish] wpD [OF wp_turn_unpublish] by (cases c) blast+

section \<open>The invariant\<close>

text \<open>The context that a request has created and not yet stored, and the phases of a call that panicked.\<close>

fun carried :: "phase \<Rightarrow> context_id option" where
  "carried (Tried _ _ (Reply (m, x))) = Some x"
| "carried _ = None"

lemma carriedE:
  assumes "carried p = Some x"
  obtains pvp rs m where "p = Tried pvp rs (Reply (m, x))"
  using assms by (elim carried.elims) auto

fun panicked :: "phase \<Rightarrow> bool" where
  "panicked (Tried _ _ (Panicked _)) = True"
| "panicked (Unmounted (Panicked _)) = True"
| "panicked (Leaving (Panicked _)) = True"
| "panicked (Answered (Panicked _)) = True"
| "panicked _ = False"

text \<open>A publish call that has not stored its context yet.\<close>

fun unstored :: "phase \<Rightarrow> bool" where
  "unstored (Leaving _) = False"
| "unstored (Answered _) = False"
| "unstored p = True"

fun is_publish :: "call \<Rightarrow> bool" where
  "is_publish (PublishCall _ _ _) = True"
| "is_publish (UnpublishCall _) = False"

definition stored_context :: "'w node_state \<Rightarrow> context_id \<Rightarrow> bool" where
  "stored_context s c \<longleftrightarrow> (\<exists>tg mc. getMountContext s tg = Some mc \<and> mc_cancel mc = Some c)"

text \<open>What each request in flight knows about the context of its target.\<close>

definition own_view :: "'w node_state \<Rightarrow> call \<times> phase \<Rightarrow> bool" where
  "own_view s cp \<longleftrightarrow>
     (is_publish (fst cp) \<and> unstored (snd cp) \<longrightarrow> getMountContext s (call_target (fst cp)) = None)
     \<and> (\<forall>mc. snd cp = Found mc \<longrightarrow> getMountContext s (call_target (fst cp)) = mc)
     \<and> (\<forall>x mc c. snd cp = Unmounted (Reply x) \<longrightarrow> getMountContext s (call_target (fst cp)) = Some mc
          \<longrightarrow> mc_cancel mc = Some c \<longrightarrow> c \<notin> live s)
     \<and> (\<forall>c. carried (snd cp) = Some c \<longrightarrow> c < next_context s)"

definition contexts_accounted :: "'w in_flight \<Rightarrow> bool" where
  "contexts_accounted x \<longleftrightarrow>
     (\<forall>c \<in> live (snd x). c < next_context (snd x)
        \<and> (stored_context (snd x) c \<or> (\<exists>cp \<in> set (fst x). carried (snd cp) = Some c)))
     \<and> (\<forall>tg mc. getMountContext (snd x) tg = Some mc \<longrightarrow>
          mc_mountPoint mc \<noteq> None \<and> (\<exists>c. mc_cancel mc = Some c \<and> c < next_context (snd x)))
     \<and> (\<forall>cp \<in> set (fst x). own_view (snd x) cp)"

text \<open>The calls: one volume for each target, and at most one publish.\<close>

definition separate_targets :: "call list \<Rightarrow> bool" where
  "separate_targets cs \<longleftrightarrow>
     (\<forall>i < length cs. \<forall>j < length cs. call_target (cs ! i) = call_target (cs ! j) \<longrightarrow>
        call_volume (cs ! i) = call_volume (cs ! j) \<and> (is_publish (cs ! i) \<and> is_publish (cs ! j) \<longrightarrow> i = j))"

section \<open>One turn\<close>

text \<open>What every turn keeps of the rest.\<close>

lemma released_live_sub: "c \<in> released_live mc L \<Longrightarrow> c \<in> L"
  by (auto simp: released_live_def split: option.splits)

lemma turn_next: "turn_effect c p s p2 t \<Longrightarrow> next_context s \<le> next_context t"
  by (cases p; cases c) (auto simp: same_contexts_def)

lemma turn_live:
  assumes e: "turn_effect c p s p2 t" and x: "x \<in> live t"
  shows "x = next_context s \<or> x \<in> live s"
proof (cases p)
  case (Configured pvp rs)
  with e obtain r :: "(mount_point \<times> context_id) outcome" where "case r of Reply (m, x) \<Rightarrow> x = next_context s \<and> live t = insert x (live s)
        | Failed e \<Rightarrow> live t = live s - {next_context s}
        | Panicked msg \<Rightarrow> live t = insert (next_context s) (live s)" by auto
  then show ?thesis using x by (cases r) auto
next
  case (Found mc)
  with e obtain r :: "os_error option outcome"
    where "live t = (case r of Reply x \<Rightarrow> released_live mc (live s) | _ \<Rightarrow> live s)" by auto
  then show ?thesis using x by (cases r) (auto dest: released_live_sub)
qed (use e x in \<open>cases c; auto simp: same_contexts_def\<close>)+

lemma turn_other_target: "turn_effect c p s p2 t \<Longrightarrow> tg \<noteq> call_target c \<Longrightarrow> getMountContext t tg = getMountContext s tg"
  by (cases p; cases c) (auto simp: same_contexts_def split: outcome.splits option.splits)

lemma turn_outside_body: "turn_effect c p s p2 t \<Longrightarrow> \<not> in_body p \<Longrightarrow> getMountContext t = getMountContext s"
  by (cases p) (auto simp: same_contexts_def)

lemma turn_panicked:
  assumes "turn_effect c p s p2 t" and "panicked p"
  shows "panicked p2"
proof (cases p)
  case (Leaving r)
  then show ?thesis using assms by (cases r) auto
qed (use assms in \<open>auto split: outcome.splits option.splits\<close>)

lemma turn_unpublish_forgets:
  "turn_effect c p s p2 t \<Longrightarrow> fits c p \<Longrightarrow> \<not> is_publish c \<Longrightarrow> getMountContext s tg = None \<Longrightarrow> getMountContext t tg = None"
  by (cases p; cases c) (auto simp: same_contexts_def split: outcome.splits option.splits)

text \<open>What the others know stays true.\<close>

lemma own_view_other:
  assumes e: "turn_effect c p s p2 t" and fit: "fits c p" and v: "own_view s (c', p')"
    and below: "\<forall>tg mc. getMountContext s tg = Some mc \<longrightarrow> (\<exists>x. mc_cancel mc = Some x \<and> x < next_context s)"
    and publish: "is_publish c \<Longrightarrow> is_publish c' \<Longrightarrow> call_target c \<noteq> call_target c'"
    and body: "in_body p \<Longrightarrow> in_body p' \<Longrightarrow> call_target c \<noteq> call_target c'"
  shows "own_view t (c', p')"
proof -
  let ?tg = "call_target c'"
  have ctx: "getMountContext t ?tg = getMountContext s ?tg" if "in_body p'"
    using that body turn_other_target [OF e] turn_outside_body [OF e] by metis
  have "getMountContext t ?tg = None" if "is_publish c'" "unstored p'"
  proof (cases "is_publish c")
    case True
    then show ?thesis using v that publish turn_other_target [OF e, of ?tg] by (simp add: own_view_def)
  next
    case False
    then show ?thesis using v that turn_unpublish_forgets [OF e fit False, of ?tg] by (simp add: own_view_def)
  qed
  moreover have "getMountContext t ?tg = mc" if "p' = Found mc" for mc
    using v that ctx by (simp add: own_view_def)
  moreover have "x \<notin> live t" if p': "p' = Unmounted (Reply r)" and mc: "getMountContext t ?tg = Some mc" "mc_cancel mc = Some x"
    for r mc x
  proof -
    have s: "getMountContext s ?tg = Some mc" using ctx p' mc by simp
    moreover have "\<exists>x. mc_cancel mc = Some x \<and> x < next_context s" using below s by blast
    ultimately have "x \<notin> live s" "x < next_context s" using v p' mc(2) by (auto simp: own_view_def)
    then show ?thesis using turn_live [OF e, of x] by auto
  qed
  moreover have "x < next_context t" if "carried p' = Some x" for x
    using v that turn_next [OF e] by (auto simp: own_view_def)
  ultimately show ?thesis by (simp add: own_view_def)
qed

text \<open>What the request itself knows after its turn.\<close>

lemma own_view_self:
  assumes e: "turn_effect c p s p2 t" and fit: "fits c p" and v: "own_view s (c, p)"
    and stored: "\<forall>tg mc. getMountContext s tg = Some mc \<longrightarrow>
      mc_mountPoint mc \<noteq> None \<and> (\<exists>x. mc_cancel mc = Some x \<and> x < next_context s)"
  shows "own_view t (c, p2)"
proof (cases p)
  case (Configured pvp rs)
  with e obtain r :: "(mount_point \<times> context_id) outcome" where p2: "p2 = Tried pvp rs r"
    and "case r of Reply (m, x) \<Rightarrow> x = next_context s \<and> live t = insert x (live s)
        | Failed e \<Rightarrow> live t = live s - {next_context s}
        | Panicked msg \<Rightarrow> live t = insert (next_context s) (live s)" by auto
  then have "\<forall>x. carried p2 = Some x \<longrightarrow> x < next_context t" using e Configured by (cases r) auto
  then show ?thesis using e v Configured p2 by (auto simp: own_view_def)
next
  case (Found mc)
  with e obtain r where p2: "p2 = Unmounted r"
    and l: "live t = (case r of Reply x \<Rightarrow> released_live mc (live s) | _ \<Rightarrow> live s)" by auto
  have g: "getMountContext t (call_target c) = mc" using e v Found by (simp add: own_view_def)
  have "x \<notin> live t" if "r = Reply q" "mc = Some m" "mc_cancel m = Some x" for q m x
  proof -
    have "mc_mountPoint m \<noteq> None" using stored g e Found that(2) by simp
    then show ?thesis using l that by (auto simp: released_live_def)
  qed
  moreover have "\<not> is_publish c" using fit Found by (cases c) simp_all
  ultimately show ?thesis using p2 g by (auto simp: own_view_def)
next
  case Locked
  then show ?thesis using e v by (cases c) (auto simp: own_view_def same_contexts_def)
next
  case (Tried pvp rs r)
  then obtain q where "p2 = Leaving q" using e by (cases r) auto
  then show ?thesis by (simp add: own_view_def)
next
  case (Unmounted r)
  then obtain q where "p2 = Leaving q" using e by (cases r) (auto split: option.splits)
  then show ?thesis by (simp add: own_view_def)
qed (use e v in \<open>auto simp: own_view_def same_contexts_def\<close>)

lemma live_accounted:
  assumes e: "turn_effect c p s p2 t" and fit: "fits c p" and v: "own_view s (c, p)" and np: "\<not> panicked p2"
    and below: "\<forall>x \<in> live s. x < next_context s" and x: "x \<in> live t"
  shows "x < next_context t \<and> (x \<in> live s \<and> (stored_context s x \<longrightarrow> stored_context t x)
      \<and> (carried p = Some x \<longrightarrow> stored_context t x) \<or> carried p2 = Some x)"
proof (cases "x \<in> live s")
  case True
  have "stored_context t x" if st: "stored_context s x"
  proof -
    from st obtain tg mc where mc: "getMountContext s tg = Some mc" "mc_cancel mc = Some x"
      by (auto simp: stored_context_def)
    have "getMountContext t tg = Some mc"
    proof (cases "tg = call_target c")
      case tg: True
      have "getMountContext t = getMountContext s \<or> (\<exists>pvp rs m y. p = Tried pvp rs (Reply (m, y))) \<or> p = Unmounted (Reply None)"
        using e by (cases p; cases c) (auto simp: same_contexts_def split: outcome.splits option.splits)
      moreover have "p \<noteq> Tried pvp rs (Reply (m, y))" for pvp rs m y
        using v mc(1) fit tg by (cases c) (auto simp: own_view_def)
      moreover have "p \<noteq> Unmounted (Reply None)" using v mc True tg by (auto simp: own_view_def)
      ultimately show ?thesis using mc(1) by auto
    qed (use turn_other_target [OF e, of tg] mc(1) in simp)
    then show ?thesis using mc(2) by (auto simp: stored_context_def)
  qed
  moreover have "stored_context t x" if car: "carried p = Some x"
  proof -
    obtain pvp rs m where "p = Tried pvp rs (Reply (m, x))" by (rule carriedE [OF car])
    then show ?thesis using e unfolding stored_context_def
      by (intro exI [of _ "call_target c"]) (auto simp: published_context_def)
  qed
  moreover have "x < next_context t" using below True turn_next [OF e] by fastforce
  ultimately show ?thesis using True by blast
next
  case False
  then have n: "x = next_context s" using turn_live [OF e x] by simp
  have "live t \<subseteq> live s" if "\<nexists>pvp rs. p = Configured pvp rs"
  proof (cases p)
    case (Found mc)
    with e obtain r :: "os_error option outcome"
      where "live t = (case r of Reply x \<Rightarrow> released_live mc (live s) | _ \<Rightarrow> live s)" by auto
    then show ?thesis by (cases r) (auto dest: released_live_sub)
  qed (use e that in \<open>cases c; auto simp: same_contexts_def\<close>)+
  then have "\<exists>pvp rs. p = Configured pvp rs" using x False by blast
  then obtain pvp rs where p: "p = Configured pvp rs" by blast
  with e obtain r :: "(mount_point \<times> context_id) outcome" where p2: "p2 = Tried pvp rs r"
    and "case r of Reply (m, x) \<Rightarrow> x = next_context s \<and> live t = insert x (live s)
        | Failed e \<Rightarrow> live t = live s - {next_context s}
        | Panicked msg \<Rightarrow> live t = insert (next_context s) (live s)" by auto
  then have "carried p2 = Some x" using x n False np by (cases r) auto
  then show ?thesis using e p n by simp
qed

lemma stored_after:
  assumes e: "turn_effect c p s p2 t" and v: "own_view s (c, p)"
    and stored: "\<forall>tg mc. getMountContext s tg = Some mc \<longrightarrow>
      mc_mountPoint mc \<noteq> None \<and> (\<exists>x. mc_cancel mc = Some x \<and> x < next_context s)"
    and mc: "getMountContext t tg = Some mc"
  shows "mc_mountPoint mc \<noteq> None \<and> (\<exists>x. mc_cancel mc = Some x \<and> x < next_context t)"
proof (cases "getMountContext s tg = Some mc")
  case True
  then show ?thesis using stored turn_next [OF e] by fastforce
next
  case False
  then have "\<exists>pvp rs m y. p = Tried pvp rs (Reply (m, y)) \<and> mc = published_context m (remoteName pvp) rs y"
    using e mc by (cases p; cases c) (auto simp: same_contexts_def split: outcome.splits option.splits if_splits)
  then obtain pvp rs m y where p: "p = Tried pvp rs (Reply (m, y))" and m: "mc = published_context m (remoteName pvp) rs y"
    by blast
  have "y < next_context s" using v p by (simp add: own_view_def)
  then show ?thesis using m e p by (simp add: published_context_def)
qed

lemma accounted_turn:
  assumes inv: "contexts_accounted (ps, s)" and i: "i < length ps" "ps ! i = (c, p)"
    and e: "turn_effect c p s p2 t" and fit: "fits c p" and np: "\<not> panicked p2"
    and others: "\<And>j c' p'. j < length ps \<Longrightarrow> j \<noteq> i \<Longrightarrow> ps ! j = (c', p') \<Longrightarrow>
      (is_publish c \<and> is_publish c' \<longrightarrow> call_target c \<noteq> call_target c')
      \<and> (in_body p \<and> in_body p' \<longrightarrow> call_target c \<noteq> call_target c')"
  shows "contexts_accounted (ps[i := (c, p2)], t)"
proof -
  have stored: "\<forall>tg mc. getMountContext s tg = Some mc \<longrightarrow>
      mc_mountPoint mc \<noteq> None \<and> (\<exists>x. mc_cancel mc = Some x \<and> x < next_context s)"
    and live: "\<forall>x \<in> live s. x < next_context s \<and> (stored_context s x \<or> (\<exists>cp \<in> set ps. carried (snd cp) = Some x))"
    and views: "\<forall>cp \<in> set ps. own_view s cp"
    using inv by (simp_all add: contexts_accounted_def)
  have v: "own_view s (c, p)" using views i by (metis nth_mem)
  have view: "own_view t ((ps[i := (c, p2)]) ! j)" if j: "j < length ps" for j
  proof (cases "j = i")
    case True
    then show ?thesis using own_view_self [OF e fit v stored] i by simp
  next
    case False
    obtain c' p' where cp: "ps ! j = (c', p')" by (cases "ps ! j")
    have "own_view s (c', p')" using views j cp by (metis nth_mem)
    then have "own_view t (c', p')"
      using own_view_other [OF e fit] stored others [OF j False cp] by blast
    then show ?thesis using False cp by simp
  qed
  have "x < next_context t \<and> (stored_context t x \<or> (\<exists>cp \<in> set (ps[i := (c, p2)]). carried (snd cp) = Some x))"
    if x: "x \<in> live t" for x
  proof -
    have below: "\<forall>x \<in> live s. x < next_context s" using live by blast
    have own: "(c, p2) \<in> set (ps[i := (c, p2)])" using i by (simp add: set_update_memI)
    note a = live_accounted [OF e fit v np below x]
    show ?thesis
    proof (cases "carried p2 = Some x")
      case True
      then show ?thesis using a own by (metis snd_conv)
    next
      case False
      then have s: "x \<in> live s" "stored_context s x \<longrightarrow> stored_context t x" "carried p = Some x \<longrightarrow> stored_context t x"
        using a by blast+
      show ?thesis
      proof (cases "stored_context s x \<or> carried p = Some x")
        case False
        then obtain cp where cp: "cp \<in> set ps" "carried (snd cp) = Some x" using live s(1) by blast
        then obtain j where j: "j < length ps" "ps ! j = cp" by (auto simp: in_set_conv_nth)
        then have "j \<noteq> i" using False cp(2) i(2) by auto
        then have "cp \<in> set (ps[i := (c, p2)])" using j by (metis length_list_update nth_list_update_neq nth_mem)
        then show ?thesis using cp(2) a by blast
      qed (use s a in blast)
    qed
  qed
  moreover have "own_view t cp" if "cp \<in> set (ps[i := (c, p2)])" for cp
    using that view by (auto simp: in_set_conv_nth)
  ultimately show ?thesis using stored_after [OF e v stored] by (simp add: contexts_accounted_def)
qed

section \<open>Schedules\<close>

definition some_panicked :: "'w in_flight \<Rightarrow> bool" where
  "some_panicked x \<longleftrightarrow> (\<exists>cp \<in> set (fst x). panicked (snd cp))"

lemma requests_accounted:
  assumes "live s = {}" and "\<forall>tg. getMountContext s tg = None"
  shows "contexts_accounted (requests cs, s)"
  using assms by (auto simp: contexts_accounted_def requests_def own_view_def)

lemma some_panicked_turn:
  assumes "some_panicked (ps, s)" and "i < length ps" and "ps ! i = (c, p)" and "turn_effect c p s p2 t"
  shows "some_panicked (ps[i := (c, p2)], t)"
proof -
  from assms(1) obtain j where j: "j < length ps" "panicked (snd (ps ! j))"
    by (auto simp: some_panicked_def in_set_conv_nth)
  have "panicked (snd (ps[i := (c, p2)] ! j))"
    using j assms(2,3) turn_panicked [OF assms(4)] by (cases "i = j") auto
  then show ?thesis unfolding some_panicked_def fst_conv using j(1) by (metis length_list_update nth_mem)
qed

lemma same_key: "call_target a = call_target b \<Longrightarrow> call_volume a = call_volume b \<Longrightarrow> call_key a = call_key b"
  by (simp add: call_key_def)

lemma schedule_accounted:
  assumes "volumeLocks s = NewVolumeLocks" and "live s = {}" and "\<forall>tg. getMountContext s tg = None"
    and "separate_targets cs"
  shows "let x = run_schedule h is (requests cs, s) in
    List.map fst (fst x) = cs \<and> list_all (\<lambda>(c, p). fits c p) (fst x)
    \<and> reachable_system (request_view x) \<and> (some_panicked x \<or> contexts_accounted x)"
    (is "let x = ?x in ?P x")
proof -
  have "?P ?x"
  proof (rule run_schedule_invariant)
    show "?P (requests cs, s)"
      using schedule_refines [OF assms(1), of h "[]" cs] requests_accounted [OF assms(2,3)]
      by (simp add: requests_def comp_def)
  next
    fix i c p p2 ps and u t :: "'a node_state"
    assume P: "?P (ps, u)" and i: "i < length ps" "ps ! i = (c, p)" and run: "run_state (phase_step h c p) u = (p2, t)"
    have fit: "fits c p" using P i by (auto simp: list_all_length)
    note e = turn_effects [OF fit run] and r = turn_refines [OF fit i run]
    have calls: "List.map fst (ps[i := (c, p2)]) = cs"
      using P i by (metis fst_conv list_update_id map_update nth_map)
    have fits2: "list_all (\<lambda>(c, p). fits c p) (ps[i := (c, p2)])" using P r by (simp add: list_all_update)
    have sys: "reachable_system (request_view (ps[i := (c, p2)], t))"
      using P r reachable_system.step by (metis fst_conv)
    have others: "(is_publish c \<and> is_publish c' \<longrightarrow> call_target c \<noteq> call_target c')
        \<and> (in_body p \<and> in_body p' \<longrightarrow> call_target c \<noteq> call_target c')"
      if j: "j < length ps" "j \<noteq> i" "ps ! j = (c', p')" for j c' p'
    proof -
      have len: "length ps = length cs" using P by (metis fst_conv length_map)
      have ci: "cs ! i = c" and cj: "cs ! j = c'" using P i j by (metis fst_conv nth_map)+
      have sep: "call_target c = call_target c' \<Longrightarrow> call_volume c = call_volume c' \<and> \<not> (is_publish c \<and> is_publish c')"
        using assms(4) i(1) j(1,2) len ci cj unfolding separate_targets_def by metis
      have "table_inv (request_view (ps, u))" using P by (simp add: reachable_table_inv)
      moreover have "pcs (request_view (ps, u)) i = pc_of c p" "pcs (request_view (ps, u)) j = pc_of c' p'"
        using request_view_pc i j by metis+
      ultimately have "in_body p \<Longrightarrow> in_body p' \<Longrightarrow> call_key c \<noteq> call_key c'"
        using j(2) unfolding table_inv_def by (metis pc_of_def)
      then show ?thesis using sep same_key by blast
    qed
    have "some_panicked (ps[i := (c, p2)], t) \<or> contexts_accounted (ps[i := (c, p2)], t)"
    proof (cases "some_panicked (ps, u) \<or> panicked p2")
      case True
      moreover have "panicked p2 \<Longrightarrow> some_panicked (ps[i := (c, p2)], t)"
        using i by (auto simp: some_panicked_def intro!: bexI [of _ "(c, p2)"] set_update_memI)
      ultimately show ?thesis using some_panicked_turn [OF _ i e] by blast
    next
      case False
      then have acc: "contexts_accounted (ps, u)" and np: "\<not> panicked p2" using P by simp_all
      have "contexts_accounted (ps[i := (c, p2)], t)"
        by (rule accounted_turn [OF acc i e fit np]) (rule others)
      then show ?thesis by simp
    qed
    then show "?P (ps[i := (c, p2)], t)" using calls fits2 sys by simp
  qed
  then show ?thesis by (simp only: Let_def)
qed

text \<open>
  C8: Requests in flight together leak no mount context, whatever the order of their turns: if no call
  panicked and every target belongs to one volume and is published at most once, then as soon as
  all requests are answered every context that still runs belongs to a stored mount.
\<close>

theorem interleaved_no_leak:
  assumes "volumeLocks s = NewVolumeLocks" and "live s = {}" and "\<forall>tg. getMountContext s tg = None"
    and "separate_targets cs" and "run_schedule h is (requests cs, s) = (ps, t)"
    and "\<forall>cp \<in> set ps. \<exists>r. snd cp = Answered r \<and> (\<forall>m. r \<noteq> Panicked m)"
    and "c \<in> live t"
  shows "\<exists>tg mc. getMountContext t tg = Some mc \<and> mc_cancel mc = Some c"
proof -
  have none: "\<not> panicked (snd cp) \<and> carried (snd cp) = None" if "cp \<in> set ps" for cp
  proof -
    from that assms(6) obtain r where "snd cp = Answered r" "\<forall>m. r \<noteq> Panicked m" by blast
    then show ?thesis by (cases r) simp_all
  qed
  then have "contexts_accounted (ps, t)"
    using schedule_accounted [OF assms(1-4), of h "is"] assms(5) by (auto simp: Let_def some_panicked_def)
  then have "stored_context t c" using assms(7) none by (fastforce simp: contexts_accounted_def)
  then show ?thesis by (simp add: stored_context_def)
qed

text \<open>A publish and an unpublish of one volume and a publish of another, interleaved.\<close>

definition sample_second_call :: call where
  "sample_second_call = PublishCall (\<lambda>m. m) (\<lambda>m. m) (sample_publish
     \<lparr>pr_volume_id := ''s3#pvc-2'', pr_target_path := ''/pods/q/mount''\<rparr>)"

definition sample_flight :: "call list" where
  "sample_flight = [PublishCall (\<lambda>m. m) (\<lambda>m. m) sample_publish, sample_second_call, UnpublishCall sample_unpublish]"

definition sample_turns :: "nat list" where
  "sample_turns = [0, 1, 0, 1, 0, 1, 0, 0, 2, 2, 1, 2, 1, 2, 2]"

lemma sample_flight_result:
  "List.map snd (fst (run_schedule sample_host sample_turns (requests sample_flight, new_node_state sample_start)))
     = [Answered (Reply ()), Answered (Reply ()), Answered (Reply ())]"
  "live (snd (run_schedule sample_host sample_turns (requests sample_flight, new_node_state sample_start))) = {1}"
  by code_simp+

theorem interleaved_no_leak_witness:
  "\<exists>tg mc. getMountContext (snd (run_schedule sample_host sample_turns (requests sample_flight, new_node_state sample_start))) tg = Some mc
     \<and> mc_cancel mc = Some 1"
proof (rule interleaved_no_leak [OF _ _ _ _ prod.collapse [symmetric]])
  show "volumeLocks (new_node_state sample_start) = NewVolumeLocks" by (rule new_node_locks)
  show "live (new_node_state sample_start) = {}" by (simp add: new_node_state_def)
  show "\<forall>tg. getMountContext (new_node_state sample_start) tg = None" by (simp add: new_node_state_def getMountContext_def)
  show "separate_targets sample_flight"
    by (auto simp: separate_targets_def sample_flight_def sample_second_call_def sample_publish_def sample_unpublish_def
        less_Suc_eq nth_Cons')
  show "\<forall>cp \<in> set (fst (run_schedule sample_host sample_turns (requests sample_flight, new_node_state sample_start))).
      \<exists>r. snd cp = Answered r \<and> (\<forall>m. r \<noteq> Panicked m)"
  proof
    fix cp assume "cp \<in> set (fst (run_schedule sample_host sample_turns (requests sample_flight, new_node_state sample_start)))"
    then have "snd cp \<in> set (List.map snd (fst (run_schedule sample_host sample_turns
        (requests sample_flight, new_node_state sample_start))))" by (simp only: set_map image_eqI)
    then show "\<exists>r. snd cp = Answered r \<and> (\<forall>m. r \<noteq> Panicked m)" unfolding sample_flight_result by auto
  qed
  show "1 \<in> live (snd (run_schedule sample_host sample_turns (requests sample_flight, new_node_state sample_start)))"
    unfolding sample_flight_result by simp
qed

end
