(* ===== verification/Metrics.thy ===== *)
theory Metrics
  imports Node_Stats "HOL-Library.Sublist"
begin

text \<open>
  The Prometheus collector of \<open>pkg/rclone/metrics_collector.go\<close>: descriptors, the
  aggregation of the statistics of all mounts by volume, and what a collection emits.  The
  channel of a collection is the list of its metrics in order; a value is the number before
  its conversion to \<open>float64\<close>.
\<close>

section \<open>Paths\<close>

fun component_after :: "string \<Rightarrow> string list \<Rightarrow> string option" where
  "component_after marker (part # next # parts) =
     (if part = marker then Some next else component_after marker (next # parts))"
| "component_after marker _ = None"

definition unknownValue :: string where
  "unknownValue = ''unknown''"

definition extractVolumeID :: "string \<Rightarrow> string" where
  "extractVolumeID targetPath =
     (let parts = Split targetPath (CHR ''/'') in
      case component_after ''kubernetes.io~csi'' parts of
        Some v \<Rightarrow> v
      | None \<Rightarrow> if 0 < length parts then last parts else unknownValue)"

definition extractPodID :: "string \<Rightarrow> string" where
  "extractPodID targetPath =
     (case component_after ''pods'' (Split targetPath (CHR ''/'')) of
        Some v \<Rightarrow> v | None \<Rightarrow> unknownValue)"

section \<open>Aggregation\<close>

record volume_metrics =
  vm_volumeID :: string
  vm_remoteName :: string
  vm_inUse :: "64 word"
  vm_metadataCacheDirs :: "64 word"
  vm_metadataCacheFiles :: "64 word"
  vm_diskCacheBytesUsed :: "64 word"
  vm_diskCacheFiles :: "64 word"
  vm_diskCacheErrors :: "64 word"
  vm_uploadsInProgress :: "64 word"
  vm_uploadsQueued :: "64 word"
  vm_diskCacheOutOfSpace :: bool

definition new_volume_metrics :: "string \<Rightarrow> string \<Rightarrow> volume_metrics" where
  "new_volume_metrics v r = \<lparr>vm_volumeID = v, vm_remoteName = r, vm_inUse = 0, vm_metadataCacheDirs = 0,
     vm_metadataCacheFiles = 0, vm_diskCacheBytesUsed = 0, vm_diskCacheFiles = 0, vm_diskCacheErrors = 0,
     vm_uploadsInProgress = 0, vm_uploadsQueued = 0, vm_diskCacheOutOfSpace = False\<rparr>"

fun as_int32 :: "go_value option \<Rightarrow> 32 word option" where
  "as_int32 (Some (GoInt32 i)) = Some i" | "as_int32 _ = None"

fun as_int64 :: "go_value option \<Rightarrow> 64 word option" where
  "as_int64 (Some (GoInt64 i)) = Some i" | "as_int64 _ = None"

fun as_bool :: "go_value option \<Rightarrow> bool option" where
  "as_bool (Some (GoBool b)) = Some b" | "as_bool _ = None"

fun as_float64 :: "go_value option \<Rightarrow> int option" where
  "as_float64 (Some (GoFloat64 x)) = Some x" | "as_float64 _ = None"

text \<open>A number of the statistics, zero (which adds nothing) when it is absent or of another type.\<close>

definition plus_of :: "64 word option \<Rightarrow> 64 word" where
  "plus_of x = (case x of Some i \<Rightarrow> i | None \<Rightarrow> 0)"

definition aggregateDiskCacheStats :: "rc_params \<Rightarrow> volume_metrics \<Rightarrow> volume_metrics" where
  "aggregateDiskCacheStats stats vm =
     (case as_params (get stats ''diskCache'') of
        None \<Rightarrow> vm
      | Some diskCache \<Rightarrow>
          vm\<lparr>vm_diskCacheBytesUsed := vm_diskCacheBytesUsed vm + plus_of (as_int64 (get diskCache ''bytesUsed'')),
             vm_diskCacheFiles := vm_diskCacheFiles vm + plus_of (as_int (get diskCache ''files'')),
             vm_diskCacheErrors := vm_diskCacheErrors vm + plus_of (as_int (get diskCache ''erroredFiles'')),
             vm_uploadsInProgress := vm_uploadsInProgress vm + plus_of (as_int (get diskCache ''uploadsInProgress'')),
             vm_uploadsQueued := vm_uploadsQueued vm + plus_of (as_int (get diskCache ''uploadsQueued'')),
             vm_diskCacheOutOfSpace := (vm_diskCacheOutOfSpace vm
               \<or> as_bool (get diskCache ''outOfSpace'') = Some True)\<rparr>)"

definition aggregateVFSStats :: "rc_params \<Rightarrow> volume_metrics \<Rightarrow> volume_metrics" where
  "aggregateVFSStats stats vm0 =
     (let vm1 = vm0\<lparr>vm_inUse := vm_inUse vm0 +
                  (case as_int32 (get stats ''inUse'') of Some i \<Rightarrow> scast i | None \<Rightarrow> 0)\<rparr>;
          vm2 = (case as_params (get stats ''metadataCache'') of
                   None \<Rightarrow> vm1
                 | Some metadataCache \<Rightarrow>
                     vm1\<lparr>vm_metadataCacheDirs := vm_metadataCacheDirs vm1 + plus_of (as_int (get metadataCache ''dirs'')),
                         vm_metadataCacheFiles := vm_metadataCacheFiles vm1 + plus_of (as_int (get metadataCache ''files''))\<rparr>)
      in aggregateDiskCacheStats stats vm2)"

fun aggregate_loop ::
    "'w host \<Rightarrow> (string, volume_metrics) gomap \<Rightarrow> (string, mount_context) gomap
       \<Rightarrow> ('w, (string, volume_metrics) gomap) node_prog" where
  "aggregate_loop h volumeStats [] = return volumeStats"
| "aggregate_loop h volumeStats ((targetPath, mc) # rest) =
     (case mc_mountPoint mc of
        None \<Rightarrow> aggregate_loop h volumeStats rest
      | Some mp \<Rightarrow>
          (case mp_VFS mp of
             None \<Rightarrow> aggregate_loop h volumeStats rest
           | Some v \<Rightarrow> do {
               stats \<leftarrow> VFS_Stats h v;
               let volumeID = extractVolumeID targetPath;
               let vm = (case get volumeStats volumeID of
                           Some vm \<Rightarrow> vm
                         | None \<Rightarrow> new_volume_metrics volumeID (mc_remoteName mc));
               aggregate_loop h (put volumeID (aggregateVFSStats stats vm) volumeStats) rest }))"

section \<open>Descriptors and metrics\<close>

record desc =
  fqName :: string
  variableLabels :: "string list"

datatype value_type = GaugeValue | CounterValue

record metric =
  me_desc :: desc
  me_type :: value_type
  me_value :: int
  me_labels :: "string list"

text \<open>\<open>MustNewConstMetric\<close> panics when the label values do not fit the descriptor.\<close>

definition MustNewConstMetric :: "desc \<Rightarrow> value_type \<Rightarrow> int \<Rightarrow> string list \<Rightarrow> metric outcome" where
  "MustNewConstMetric d t v labels =
     (if length labels = length (variableLabels d)
      then Reply \<lparr>me_desc = d, me_type = t, me_value = v, me_labels = labels\<rparr>
      else Panicked ''inconsistent label cardinality'')"

record collector =
  c_nodeID :: string
  c_driverName :: string
  c_endpoint :: string
  c_versionInfo :: version_info
  c_nodeServer :: bool
  d_nodeInfo :: desc
  d_vfsInUse :: desc
  d_vfsMetadataCacheDirs :: desc
  d_vfsMetadataCacheFiles :: desc
  d_vfsDiskCacheBytesUsed :: desc
  d_vfsDiskCacheFiles :: desc
  d_vfsDiskCacheErrors :: desc
  d_vfsUploadsInProgress :: desc
  d_vfsUploadsQueued :: desc
  d_vfsDiskCacheOutOfSpace :: desc
  d_mountHealthy :: desc
  d_remoteTransferSpeed :: desc
  d_remoteTransferEta :: desc
  d_remoteChecksTotal :: desc
  d_remoteDeletesTotal :: desc
  d_remoteServerSideCopies :: desc
  d_remoteServerSideMoves :: desc
  d_remoteTransferring :: desc
  d_remoteChecking :: desc

definition new_desc :: "string \<Rightarrow> string list \<Rightarrow> desc" where
  "new_desc n ls = \<lparr>fqName = ''csi_driver_'' @ n, variableLabels = ls\<rparr>"

definition newMetricsCollector ::
    "build_info \<Rightarrow> runtime_info \<Rightarrow> string \<Rightarrow> string \<Rightarrow> string \<Rightarrow> bool \<Rightarrow> collector" where
  "newMetricsCollector b rt nodeID driverName endpoint ns =
     (let vol = [''volume_id'', ''remote_name''] in
      \<lparr>c_nodeID = nodeID, c_driverName = driverName, c_endpoint = endpoint,
       c_versionInfo = GetVersion b rt driverName, c_nodeServer = ns,
       d_nodeInfo = new_desc ''info'' [''node_id'', ''driver_name'', ''endpoint'', ''rclone_version'', ''driver_version''],
       d_vfsInUse = new_desc ''vfs_file_handles_in_use'' vol,
       d_vfsMetadataCacheDirs = new_desc ''vfs_metadata_cache_dirs_total'' vol,
       d_vfsMetadataCacheFiles = new_desc ''vfs_metadata_cache_files_total'' vol,
       d_vfsDiskCacheBytesUsed = new_desc ''vfs_disk_cache_bytes_used'' vol,
       d_vfsDiskCacheFiles = new_desc ''vfs_disk_cache_files_total'' vol,
       d_vfsDiskCacheErrors = new_desc ''vfs_disk_cache_errored_files_total'' vol,
       d_vfsUploadsInProgress = new_desc ''vfs_uploads_in_progress_total'' vol,
       d_vfsUploadsQueued = new_desc ''vfs_uploads_queued_total'' vol,
       d_vfsDiskCacheOutOfSpace = new_desc ''vfs_disk_cache_out_of_space'' vol,
       d_mountHealthy = new_desc ''mount_healthy'' [''volume_id'', ''pod_id'', ''target_path'', ''remote_name'',
         ''mount_type'', ''device_name'', ''volume_name'', ''read_only'', ''mount_duration_seconds''],
       d_remoteTransferSpeed = new_desc ''remote_transfer_speed_bytes_per_second'' [],
       d_remoteTransferEta = new_desc ''remote_transfer_eta_seconds'' [],
       d_remoteChecksTotal = new_desc ''remote_checks_total'' [],
       d_remoteDeletesTotal = new_desc ''remote_deletes_total'' [],
       d_remoteServerSideCopies = new_desc ''remote_server_side_copies_total'' [],
       d_remoteServerSideMoves = new_desc ''remote_server_side_moves_total'' [],
       d_remoteTransferring = new_desc ''remote_transferring_files'' [],
       d_remoteChecking = new_desc ''remote_checking_files'' []\<rparr>)"

definition Describe :: "collector \<Rightarrow> desc list" where
  "Describe c = [d_nodeInfo c, d_vfsInUse c, d_vfsMetadataCacheDirs c, d_vfsMetadataCacheFiles c,
     d_vfsDiskCacheBytesUsed c, d_vfsDiskCacheFiles c, d_vfsDiskCacheErrors c, d_vfsUploadsInProgress c,
     d_vfsUploadsQueued c, d_vfsDiskCacheOutOfSpace c, d_mountHealthy c, d_remoteTransferSpeed c,
     d_remoteTransferEta c, d_remoteChecksTotal c, d_remoteDeletesTotal c, d_remoteServerSideCopies c,
     d_remoteServerSideMoves c, d_remoteTransferring c, d_remoteChecking c]"

text \<open>Sending metrics one after the other, up to the first panic.\<close>

fun send_all :: "metric outcome list \<Rightarrow> metric list outcome" where
  "send_all [] = Reply []"
| "send_all (Reply m # ms) =
     (case send_all ms of Reply r \<Rightarrow> Reply (m # r) | Failed e \<Rightarrow> Failed e | Panicked p \<Rightarrow> Panicked p)"
| "send_all (Failed e # ms) = Failed e"
| "send_all (Panicked p # ms) = Panicked p"

definition collectNodeInfo :: "collector \<Rightarrow> metric outcome list" where
  "collectNodeInfo c = [MustNewConstMetric (d_nodeInfo c) GaugeValue 1
     [c_nodeID c, c_driverName c, c_endpoint c, v_RcloneVersion (c_versionInfo c), v_DriverVersion (c_versionInfo c)]]"

definition emitSingleVolumeMetrics :: "collector \<Rightarrow> volume_metrics \<Rightarrow> metric outcome list" where
  "emitSingleVolumeMetrics c vs =
     (let ls = [vm_volumeID vs, vm_remoteName vs] in
      [MustNewConstMetric (d_vfsInUse c) GaugeValue (sint (vm_inUse vs)) ls,
       MustNewConstMetric (d_vfsMetadataCacheDirs c) GaugeValue (sint (vm_metadataCacheDirs vs)) ls,
       MustNewConstMetric (d_vfsMetadataCacheFiles c) GaugeValue (sint (vm_metadataCacheFiles vs)) ls,
       MustNewConstMetric (d_vfsDiskCacheBytesUsed c) GaugeValue (sint (vm_diskCacheBytesUsed vs)) ls,
       MustNewConstMetric (d_vfsDiskCacheFiles c) GaugeValue (sint (vm_diskCacheFiles vs)) ls,
       MustNewConstMetric (d_vfsDiskCacheErrors c) CounterValue (sint (vm_diskCacheErrors vs)) ls,
       MustNewConstMetric (d_vfsUploadsInProgress c) GaugeValue (sint (vm_uploadsInProgress vs)) ls,
       MustNewConstMetric (d_vfsUploadsQueued c) GaugeValue (sint (vm_uploadsQueued vs)) ls,
       MustNewConstMetric (d_vfsDiskCacheOutOfSpace c) GaugeValue (if vm_diskCacheOutOfSpace vs then 1 else 0) ls])"

definition emitVolumeMetrics :: "collector \<Rightarrow> (string, volume_metrics) gomap \<Rightarrow> metric outcome list" where
  "emitVolumeMetrics c volumeStats = concat (List.map (\<lambda>(v, vs). emitSingleVolumeMetrics c vs) volumeStats)"

section \<open>Labels of a mount\<close>

definition extractMountType :: "mount_context \<Rightarrow> string" where
  "extractMountType mc = (if mc_mountPoint mc = None then unknownValue else ''mount'')"

definition getDeviceName :: "mount_context \<Rightarrow> string" where
  "getDeviceName mc = (case mc_mountPoint mc of None \<Rightarrow> unknownValue
     | Some mp \<Rightarrow> if mo_DeviceName (mp_MountOpt mp) = '''' then unknownValue else mo_DeviceName (mp_MountOpt mp))"

definition getVolumeName :: "mount_context \<Rightarrow> string" where
  "getVolumeName mc = (case mc_mountPoint mc of None \<Rightarrow> unknownValue
     | Some mp \<Rightarrow> if mo_VolumeName (mp_MountOpt mp) = '''' then unknownValue else mo_VolumeName (mp_MountOpt mp))"

definition isReadOnly :: "mount_context \<Rightarrow> string" where
  "isReadOnly mc = (case mc_mountPoint mc of None \<Rightarrow> ''false''
     | Some mp \<Rightarrow> if vo_ReadOnly (mp_VFSOpt mp) then ''true'' else ''false'')"

definition getMountDuration :: "'w host \<Rightarrow> mount_context \<Rightarrow> ('w, string) node_prog" where
  "getMountDuration h mc = (case mc_mountPoint mc of None \<Rightarrow> return ''0''
     | Some mp \<Rightarrow> do { now \<leftarrow> outside (h_Now h); return (show_int (now - mp_MountedOn mp)) })"

section \<open>A collection\<close>

fun collect_health_loop ::
    "'w host \<Rightarrow> collector \<Rightarrow> (string, mount_context) gomap \<Rightarrow> ('w, metric outcome list) node_prog" where
  "collect_health_loop h c [] = return []"
| "collect_health_loop h c ((targetPath, mc) # rest) =
     (if mc_mountPoint mc = None then collect_health_loop h c rest
      else do {
        r \<leftarrow> isMountHealthy h targetPath;
        case r of
          Panicked msg \<Rightarrow> return [Panicked msg]
        | Failed e \<Rightarrow> return [Failed e]
        | Reply (healthy, message) \<Rightarrow> do {
            duration \<leftarrow> getMountDuration h mc;
            ms \<leftarrow> collect_health_loop h c rest;
            return (MustNewConstMetric (d_mountHealthy c) GaugeValue (if healthy then 1 else 0)
              [extractVolumeID targetPath, extractPodID targetPath, targetPath, mc_remoteName mc,
               extractMountType mc, getDeviceName mc, getVolumeName mc, isReadOnly mc, duration] # ms) } })"

definition stored_contexts :: "'w node_state \<Rightarrow> (string, mount_context) gomap" where
  "stored_contexts s = (case mountContexts s of None \<Rightarrow> [] | Some m \<Rightarrow> m)"

definition collectVFSMetrics ::
    "'w host \<Rightarrow> ((string, mount_context) gomap \<Rightarrow> (string, mount_context) gomap)
       \<Rightarrow> ((string, mount_context) gomap \<Rightarrow> (string, mount_context) gomap)
       \<Rightarrow> ((string, volume_metrics) gomap \<Rightarrow> (string, volume_metrics) gomap)
       \<Rightarrow> collector \<Rightarrow> ('w, metric outcome list) node_prog" where
  "collectVFSMetrics h rngc rngh rngv c = (if \<not> c_nodeServer c then return [] else do {
     contexts \<leftarrow> gets stored_contexts;
     volumeStats \<leftarrow> aggregate_loop h [] (rngc contexts);
     health \<leftarrow> collect_health_loop h c (rngh contexts);
     return (emitVolumeMetrics c (rngv volumeStats) @ health) })"

definition const_if :: "desc \<Rightarrow> value_type \<Rightarrow> int option \<Rightarrow> metric outcome list" where
  "const_if d t v = (case v of None \<Rightarrow> [] | Some x \<Rightarrow> [MustNewConstMetric d t x []])"

definition emitTransferMetrics :: "collector \<Rightarrow> rc_params \<Rightarrow> metric outcome list" where
  "emitTransferMetrics c stats =
     const_if (d_remoteTransferSpeed c) GaugeValue (as_float64 (get stats ''speed''))
     @ const_if (d_remoteTransferEta c) GaugeValue (as_float64 (get stats ''eta''))"

fun length_of_params :: "go_value option \<Rightarrow> int option" where
  "length_of_params (Some (GoParamsList ps)) = Some (int (length ps))" | "length_of_params _ = None"

fun length_of_strings :: "go_value option \<Rightarrow> int option" where
  "length_of_strings (Some (GoStrings ps)) = Some (int (length ps))" | "length_of_strings _ = None"

definition emitOperationMetrics :: "collector \<Rightarrow> rc_params \<Rightarrow> metric outcome list" where
  "emitOperationMetrics c stats =
     const_if (d_remoteChecksTotal c) CounterValue (map_option sint (as_int64 (get stats ''checks'')))
     @ const_if (d_remoteDeletesTotal c) CounterValue (map_option sint (as_int64 (get stats ''deletes'')))
     @ const_if (d_remoteServerSideCopies c) CounterValue (map_option sint (as_int64 (get stats ''serverSideCopies'')))
     @ const_if (d_remoteServerSideMoves c) CounterValue (map_option sint (as_int64 (get stats ''serverSideMoves'')))
     @ const_if (d_remoteTransferring c) GaugeValue (length_of_params (get stats ''transferring''))
     @ const_if (d_remoteChecking c) GaugeValue (length_of_strings (get stats ''checking''))"

definition collectRemoteStats :: "collector \<Rightarrow> string + rc_params \<Rightarrow> metric outcome list" where
  "collectRemoteStats c remoteStats =
     (case remoteStats of Inl e \<Rightarrow> []
      | Inr stats \<Rightarrow> emitTransferMetrics c stats @ emitOperationMetrics c stats)"

definition Collect ::
    "'w host \<Rightarrow> ((string, mount_context) gomap \<Rightarrow> (string, mount_context) gomap)
       \<Rightarrow> ((string, mount_context) gomap \<Rightarrow> (string, mount_context) gomap)
       \<Rightarrow> ((string, volume_metrics) gomap \<Rightarrow> (string, volume_metrics) gomap)
       \<Rightarrow> string + rc_params \<Rightarrow> collector option \<Rightarrow> ('w, metric list outcome) node_prog" where
  "Collect h rngc rngh rngv remoteStats collector0 =
     (case collector0 of
        None \<Rightarrow> return (Reply [])
      | Some c \<Rightarrow> do {
          vfs \<leftarrow> collectVFSMetrics h rngc rngh rngv c;
          return (send_all (collectNodeInfo c @ vfs @ collectRemoteStats c remoteStats)) })"

section \<open>Registration\<close>

datatype register_result = Registered | AlreadyRegistered | RegisterFailed string

definition initMetricsCollector ::
    "collector option \<Rightarrow> register_result \<Rightarrow> register_result \<Rightarrow> collector \<Rightarrow> string option \<times> collector option" where
  "initMetricsCollector csiCollector rcloneResult csiResult fresh =
     (case csiCollector of
        Some c \<Rightarrow> (None, Some c)
      | None \<Rightarrow>
          (case csiResult of
             RegisterFailed e \<Rightarrow> (Some (''failed to register CSI Prometheus collector: '' @ e), Some fresh)
           | _ \<Rightarrow> (None, Some fresh)))"

section \<open>Every metric is described, and no two are the same\<close>

text \<open>A metric that is sent: described, with a value for each of its labels.\<close>

definition described :: "collector \<Rightarrow> metric \<Rightarrow> bool" where
  "described c m \<longleftrightarrow> me_desc m \<in> set (Describe c) \<and> length (me_labels m) = length (variableLabels (me_desc m))"

definition sent :: "collector \<Rightarrow> metric outcome \<Rightarrow> bool" where
  "sent c x \<longleftrightarrow> (\<exists>m. x = Reply m \<and> described c m)"

text \<open>What identifies a time series: the name and the label values.\<close>

definition series :: "metric \<Rightarrow> string \<times> string list" where
  "series m = (fqName (me_desc m), me_labels m)"

fun sent_series :: "metric outcome \<Rightarrow> (string \<times> string list) option" where
  "sent_series (Reply m) = Some (series m)"
| "sent_series _ = None"

lemma sent_metric:
  "d \<in> set (Describe c) \<Longrightarrow> length ls = length (variableLabels d) \<Longrightarrow> sent c (MustNewConstMetric d t v ls)"
  by (simp add: sent_def described_def MustNewConstMetric_def)

lemma series_metric [simp]:
  "length ls = length (variableLabels d) \<Longrightarrow> sent_series (MustNewConstMetric d t v ls) = Some (fqName d, ls)"
  by (simp add: MustNewConstMetric_def series_def)

lemma send_all_sent:
  "\<forall>x \<in> set xs. sent c x \<Longrightarrow> \<exists>ms. send_all xs = Reply ms \<and> (\<forall>m \<in> set ms. described c m)
     \<and> map (Some \<circ> series) ms = map sent_series xs"
proof (induction xs)
  case (Cons x xs)
  then show ?case by (cases x) (auto simp: sent_def)
qed simp

lemmas desc_defs = newMetricsCollector_def Describe_def new_desc_def Let_def

text \<open>The series of one section of a collection: all sent, all different, with names of a set.\<close>

definition block :: "collector \<Rightarrow> string set \<Rightarrow> metric outcome list \<Rightarrow> bool" where
  "block c names xs \<longleftrightarrow> (\<forall>x \<in> set xs. sent c x) \<and> distinct (map sent_series xs)
     \<and> (\<forall>x \<in> set xs. \<exists>n ls. sent_series x = Some (n, ls) \<and> n \<in> names)"

lemma block_append:
  assumes "block c ns xs" and "block c ms ys" and "ns \<inter> ms = {}"
  shows "block c (ns \<union> ms) (xs @ ys)"
proof -
  have "sent_series x \<noteq> sent_series y" if "x \<in> set xs" and "y \<in> set ys" for x y
  proof -
    from assms(1) that(1) obtain n ls where "sent_series x = Some (n, ls)" and "n \<in> ns" by (auto simp: block_def)
    moreover from assms(2) that(2) obtain m ls' where "sent_series y = Some (m, ls')" and "m \<in> ms"
      by (auto simp: block_def)
    ultimately show ?thesis using assms(3) by auto
  qed
  then have "sent_series ` set xs \<inter> sent_series ` set ys = {}" by blast
  then show ?thesis using assms(1,2) unfolding block_def by fastforce
qed

lemma blockD: "block c ns xs \<Longrightarrow> (\<forall>x \<in> set xs. sent c x) \<and> distinct (map sent_series xs)"
  by (simp add: block_def)

lemma block_Nil: "block c ns []"
  by (simp add: block_def)

definition vfs_names :: "string list" where
  "vfs_names = map ((@) ''csi_driver_'')
     [''vfs_file_handles_in_use'', ''vfs_metadata_cache_dirs_total'', ''vfs_metadata_cache_files_total'',
      ''vfs_disk_cache_bytes_used'', ''vfs_disk_cache_files_total'', ''vfs_disk_cache_errored_files_total'',
      ''vfs_uploads_in_progress_total'', ''vfs_uploads_queued_total'', ''vfs_disk_cache_out_of_space'']"

definition remote_names :: "string list" where
  "remote_names = map ((@) ''csi_driver_'')
     [''remote_transfer_speed_bytes_per_second'', ''remote_transfer_eta_seconds'', ''remote_checks_total'',
      ''remote_deletes_total'', ''remote_server_side_copies_total'', ''remote_server_side_moves_total'',
      ''remote_transferring_files'', ''remote_checking_files'']"

lemma block_node_info: "block (newMetricsCollector b rt n d e ns) {''csi_driver_info''} (collectNodeInfo (newMetricsCollector b rt n d e ns))"
  by (auto simp: block_def collectNodeInfo_def desc_defs intro!: sent_metric)

lemma distinct_vfs_names: "distinct vfs_names"
  by (simp add: vfs_names_def)

lemma single_volume_series:
  "map sent_series (emitSingleVolumeMetrics (newMetricsCollector b rt n d e ns) vs) =
     map (\<lambda>m. Some (m, [vm_volumeID vs, vm_remoteName vs])) vfs_names"
  by (simp add: emitSingleVolumeMetrics_def vfs_names_def desc_defs)

lemma sent_volume:
  "x \<in> set (emitSingleVolumeMetrics (newMetricsCollector b rt n d e ns) vs) \<Longrightarrow> sent (newMetricsCollector b rt n d e ns) x"
  unfolding emitSingleVolumeMetrics_def Let_def
  by (auto intro!: sent_metric) (simp_all add: desc_defs)

text \<open>The aggregated statistics: one entry per volume, under its own name.\<close>

definition by_volume :: "(string, volume_metrics) gomap \<Rightarrow> bool" where
  "by_volume m \<longleftrightarrow> wf_map m \<and> (\<forall>(v, vs) \<in> set m. vm_volumeID vs = v)"

lemma volumes_series:
  "map sent_series (emitVolumeMetrics (newMetricsCollector b rt n d e ns) m) =
     concat (map (\<lambda>(v, vs). map (\<lambda>k. Some (k, [vm_volumeID vs, vm_remoteName vs])) vfs_names) m)"
  by (simp add: emitVolumeMetrics_def map_concat o_def case_prod_unfold single_volume_series)

lemma distinct_volumes_series:
  "by_volume m \<Longrightarrow> distinct (concat (map (\<lambda>(v, vs). map (\<lambda>k. Some (k, [vm_volumeID vs, vm_remoteName vs])) vfs_names) m))"
proof (induction m)
  case (Cons p m)
  then show ?case
    by (cases p) (auto simp: by_volume_def wf_map_def distinct_map inj_on_def distinct_vfs_names rev_image_eqI)
qed simp

lemma block_volumes:
  assumes "by_volume m"
  shows "block (newMetricsCollector b rt n d e ns) (set vfs_names) (emitVolumeMetrics (newMetricsCollector b rt n d e ns) m)"
proof -
  let ?c = "newMetricsCollector b rt n d e ns"
  have "\<exists>k ls. sent_series x = Some (k, ls) \<and> k \<in> set vfs_names" if "x \<in> set (emitVolumeMetrics ?c m)" for x
  proof -
    from that have "sent_series x \<in> set (map sent_series (emitVolumeMetrics ?c m))" by (simp only: set_map image_eqI)
    then show ?thesis unfolding volumes_series by auto
  qed
  moreover have "\<forall>x \<in> set (emitVolumeMetrics ?c m). sent ?c x"
    by (auto simp: emitVolumeMetrics_def intro: sent_volume)
  ultimately show ?thesis
    using distinct_volumes_series [OF assms] unfolding block_def volumes_series by blast
qed

lemma remote_series:
  "subseq (map sent_series (collectRemoteStats (newMetricsCollector b rt n d e ns) r))
     (map (\<lambda>k. Some (k, [])) remote_names)"
proof -
  let ?c = "newMetricsCollector b rt n d e ns"
  have one: "variableLabels d = [] \<Longrightarrow> subseq (map sent_series (const_if d t v)) [Some (fqName d, [])]" for d t v
    by (cases v) (simp_all add: const_if_def)
  show ?thesis
  proof (cases r)
    case (Inr stats)
    have names: "map (\<lambda>k. Some (k, [])) remote_names =
      [Some (fqName (d_remoteTransferSpeed ?c), [])] @ [Some (fqName (d_remoteTransferEta ?c), [])]
      @ [Some (fqName (d_remoteChecksTotal ?c), [])] @ [Some (fqName (d_remoteDeletesTotal ?c), [])]
      @ [Some (fqName (d_remoteServerSideCopies ?c), [])] @ [Some (fqName (d_remoteServerSideMoves ?c), [])]
      @ [Some (fqName (d_remoteTransferring ?c), [])] @ [Some (fqName (d_remoteChecking ?c), [])]"
      by (simp add: remote_names_def desc_defs)
    show ?thesis
      unfolding Inr collectRemoteStats_def sum.case emitTransferMetrics_def emitOperationMetrics_def
        map_append append_assoc names
      by (intro list_emb_append_mono one) (simp_all add: desc_defs)
  qed (simp add: collectRemoteStats_def)
qed

lemma sent_remote:
  "\<forall>x \<in> set (collectRemoteStats (newMetricsCollector b rt n d e ns) r). sent (newMetricsCollector b rt n d e ns) x"
proof (cases r)
  case (Inr stats)
  let ?c = "newMetricsCollector b rt n d e ns"
  have one: "d \<in> set (Describe ?c) \<Longrightarrow> variableLabels d = [] \<Longrightarrow> \<forall>x \<in> set (const_if d t v). sent ?c x" for d t v
    by (cases v) (simp_all add: const_if_def sent_metric)
  show ?thesis
    unfolding Inr collectRemoteStats_def sum.case emitTransferMetrics_def emitOperationMetrics_def set_append ball_Un
    by (intro conjI one) (simp_all add: desc_defs)
qed (simp add: collectRemoteStats_def)

lemma block_remote:
  "block (newMetricsCollector b rt n d e ns) (set remote_names) (collectRemoteStats (newMetricsCollector b rt n d e ns) r)"
proof -
  let ?xs = "collectRemoteStats (newMetricsCollector b rt n d e ns) r"
  have dist: "distinct (map (\<lambda>k. Some (k, [] :: string list)) remote_names)" by (simp add: remote_names_def)
  have "\<exists>k ls. sent_series x = Some (k, ls) \<and> k \<in> set remote_names" if "x \<in> set ?xs" for x
  proof -
    from that have "sent_series x \<in> set (map sent_series ?xs)" by (simp only: set_map image_eqI)
    from list_emb_set [OF remote_series this]
    obtain y where "y \<in> set (map (\<lambda>k. Some (k, [] :: string list)) remote_names)" and "sent_series x = y" by metis
    then show ?thesis by auto
  qed
  moreover from remote_series obtain N where "map sent_series ?xs = nths (map (\<lambda>k. Some (k, [])) remote_names) N"
    unfolding subseq_conv_nths by metis
  then have "distinct (map sent_series ?xs)" using distinct_nthsI [OF dist, of N] by metis
  ultimately show ?thesis unfolding block_def using sent_remote by blast
qed

subsection \<open>Health and aggregation\<close>

text \<open>The health metrics of the contexts \<open>cs\<close>: one series per target path.\<close>

definition health_block :: "collector \<Rightarrow> string set \<Rightarrow> metric outcome list \<Rightarrow> bool" where
  "health_block c targets xs \<longleftrightarrow> (\<forall>x \<in> set xs. sent c x) \<and> distinct (map sent_series xs)
     \<and> (\<forall>x \<in> set xs. \<exists>ls. sent_series x = Some (''csi_driver_mount_healthy'', ls) \<and> ls ! 2 \<in> targets)"

lemma health_block_is_block: "health_block c targets xs \<Longrightarrow> block c {''csi_driver_mount_healthy''} xs"
  unfolding health_block_def block_def by blast

lemma health_block_mono: "health_block c A xs \<Longrightarrow> A \<subseteq> B \<Longrightarrow> health_block c B xs"
  unfolding health_block_def by blast

lemma health_block_Cons:
  assumes "health_block c A xs" and "tg \<notin> A" and "sent c x"
    and "sent_series x = Some (''csi_driver_mount_healthy'', ls)" and "ls ! 2 = tg"
  shows "health_block c (insert tg A) (x # xs)"
proof -
  have "sent_series x \<notin> sent_series ` set xs"
  proof
    assume "sent_series x \<in> sent_series ` set xs"
    then obtain y where "y \<in> set xs" and "sent_series y = sent_series x" by auto
    with assms(1,2,4,5) show False by (auto simp: health_block_def)
  qed
  then show ?thesis using assms unfolding health_block_def by auto
qed

lemma wp_health_loop:
  assumes "vfs_stats_keys h"
  shows "wf_map cs \<Longrightarrow> wp (collect_health_loop h (newMetricsCollector b rt n d e ns) cs)
    (\<lambda>xs t. health_block (newMetricsCollector b rt n d e ns) (fst ` set cs) xs) s"
proof (induction cs arbitrary: s)
  case (Cons tc cs)
  let ?c = "newMetricsCollector b rt n d e ns"
  obtain tg mc where tc: "tc = (tg, mc)" by (cases tc)
  have wf: "wf_map cs" and new: "tg \<notin> fst ` set cs" using Cons.prems tc by (auto simp: wf_map_def)
  have health: "wp (isMountHealthy h tg) (\<lambda>r t. \<exists>x. r = Reply x) u" for u
    using run_isMountHealthy [OF assms, of tg u] by (auto simp: wp_def)
  have dur: "wp (getMountDuration h mc) (\<lambda>r t. True) u" for u
    by (rule wpI) simp
  let ?ls = "\<lambda>dr. [extractVolumeID tg, extractPodID tg, tg, mc_remoteName mc, extractMountType mc, getDeviceName mc,
       getVolumeName mc, isReadOnly mc, dr]"
  have m: "sent ?c (MustNewConstMetric (d_mountHealthy ?c) GaugeValue v (?ls dr))"
      "sent_series (MustNewConstMetric (d_mountHealthy ?c) GaugeValue v (?ls dr)) = Some (''csi_driver_mount_healthy'', ?ls dr)"
    for v dr
    by (rule sent_metric) (simp_all add: desc_defs)
  have add: "health_block ?c (fst ` set cs) ms \<Longrightarrow> health_block ?c (insert tg (fst ` set cs))
      (MustNewConstMetric (d_mountHealthy ?c) GaugeValue v (?ls dr) # ms)" for v dr ms
    by (erule health_block_Cons [OF _ new m]) simp
  have step: "wp (State_Monad.bind (getMountDuration h mc) (\<lambda>duration.
        State_Monad.bind (collect_health_loop h ?c cs) (\<lambda>ms. return (MustNewConstMetric (d_mountHealthy ?c) GaugeValue v
          (?ls duration) # ms)))) (\<lambda>xs t. health_block ?c (insert tg (fst ` set cs)) xs) u" for v u
    by (intro wp_bind wp_weaken [OF dur] wp_weaken [OF Cons.IH [OF wf]] wp_return add)
  show ?case
  proof (cases "mc_mountPoint mc = None")
    case True
    then show ?thesis unfolding tc
      by (simp, intro wp_weaken [OF Cons.IH [OF wf]]) (erule health_block_mono, auto)
  next
    case False
    show ?thesis
      unfolding tc collect_health_loop.simps if_not_P [OF False]
      by (intro wp_bind wp_weaken [OF health]) (auto split: prod.split intro: step)
  qed
qed (simp add: wp_return health_block_def)

lemma volumeID_aggregate [simp]: "vm_volumeID (aggregateVFSStats stats vm) = vm_volumeID vm"
  by (simp add: aggregateVFSStats_def aggregateDiskCacheStats_def Let_def split: option.splits)

lemma set_put: "set (put k v m) \<subseteq> insert (k, v) (set m)"
  by (induction m) (auto split: if_splits)

lemma wp_aggregate_loop:
  "by_volume vm \<Longrightarrow> wp (aggregate_loop h vm cs) (\<lambda>r t. by_volume r) s"
proof (induction h vm cs arbitrary: s rule: aggregate_loop.induct)
  case (2 h vm tg mc rest)
  have new: "by_volume (put (extractVolumeID tg) (aggregateVFSStats stats (case get vm (extractVolumeID tg) of
      Some x \<Rightarrow> x | None \<Rightarrow> new_volume_metrics (extractVolumeID tg) r)) vm)" for stats r
    using 2(4) set_put [of "extractVolumeID tg" _ vm] map_of_SomeD [of vm "extractVolumeID tg"]
    by (fastforce simp: by_volume_def new_volume_metrics_def split: option.splits)
  show ?case
    unfolding aggregate_loop.simps Let_def
    by (intro wp_option wp_bind wpI [of "VFS_Stats h v" for v]) (simp_all add: 2 new)
qed (simp add: wp_return)

lemma by_volume_range: "range_order rngv \<Longrightarrow> by_volume m \<Longrightarrow> by_volume (rngv m)"
  by (simp add: by_volume_def range_order_wf range_order_set)

lemma wp_collectVFSMetrics:
  assumes "vfs_stats_keys h" and "wf_map (stored_contexts s)" and "range_order rngh" and "range_order rngv"
  shows "wp (collectVFSMetrics h rngc rngh rngv (newMetricsCollector b rt n d e ns))
    (\<lambda>xs t. block (newMetricsCollector b rt n d e ns) (set vfs_names \<union> {''csi_driver_mount_healthy''}) xs) s"
proof -
  let ?c = "newMetricsCollector b rt n d e ns"
  have wf: "wf_map (rngh (stored_contexts s))" using assms(2,3) by (simp add: range_order_wf)
  have join: "block ?c (set vfs_names \<union> {''csi_driver_mount_healthy''}) (emitVolumeMetrics ?c (rngv m) @ xs)"
    if "by_volume m" and "health_block ?c A xs" for m xs A
    using by_volume_range [OF assms(4) that(1)] health_block_is_block [OF that(2)]
    by (intro block_append block_volumes) (auto simp: vfs_names_def)
  have empty: "by_volume []" by (simp add: by_volume_def)
  show ?thesis
    unfolding collectVFSMetrics_def
    by (intro wp_if wp_return wp_bind wp_gets block_Nil wp_weaken [OF wp_aggregate_loop [OF empty]]
          wp_weaken [OF wp_health_loop [OF assms(1) wf]] join)
qed

text \<open>
  C26: A collection never panics.  Every metric it emits has one of the descriptors that the
  collector announced, with a value for each label, and no two of them are the same time
  series: two mounts are told apart by their target path, two volumes by their name.  So the
  registry accepts every scrape, whatever is mounted and whatever rclone's counters report.
\<close>

theorem collection_is_described:
  assumes "vfs_stats_keys h" and "wf_map (stored_contexts s)" and "range_order rngh" and "range_order rngv"
  shows "\<exists>ms t. run_state (Collect h rngc rngh rngv remoteStats (Some (newMetricsCollector b rt n d e ns))) s = (Reply ms, t)
    \<and> distinct (map series ms)
    \<and> (\<forall>m \<in> set ms. me_desc m \<in> set (Describe (newMetricsCollector b rt n d e ns))
         \<and> length (me_labels m) = length (variableLabels (me_desc m)))"
proof -
  let ?c = "newMetricsCollector b rt n d e ns"
  obtain xs t where run: "run_state (collectVFSMetrics h rngc rngh rngv ?c) s = (xs, t)"
    by (cases "run_state (collectVFSMetrics h rngc rngh rngv ?c) s")
  have xs: "block ?c (set vfs_names \<union> {''csi_driver_mount_healthy''}) xs"
    using wpD [OF wp_collectVFSMetrics [OF assms] run] .
  have "block ?c ({''csi_driver_info''} \<union> ((set vfs_names \<union> {''csi_driver_mount_healthy''}) \<union> set remote_names))
      (collectNodeInfo ?c @ xs @ collectRemoteStats ?c remoteStats)"
    by (intro block_append block_node_info block_remote xs) (auto simp: vfs_names_def remote_names_def)
  then have all: "\<forall>x \<in> set (collectNodeInfo ?c @ xs @ collectRemoteStats ?c remoteStats). sent ?c x"
    and dist: "distinct (map sent_series (collectNodeInfo ?c @ xs @ collectRemoteStats ?c remoteStats))"
    using blockD by blast+
  from send_all_sent [OF all]
  obtain ms where ms: "send_all (collectNodeInfo ?c @ xs @ collectRemoteStats ?c remoteStats) = Reply ms"
    "\<forall>m \<in> set ms. described ?c m"
    "map (Some \<circ> series) ms = map sent_series (collectNodeInfo ?c @ xs @ collectRemoteStats ?c remoteStats)" by auto
  have "distinct (map (Some \<circ> series) ms)" using dist unfolding ms(3) .
  then have "distinct (map Some (map series ms))" by (simp only: map_map)
  then have "distinct (map series ms)" by (simp only: distinct_map)
  with ms run show ?thesis by (auto simp: Collect_def described_def)
qed

definition kubelet_context :: "string \<Rightarrow> nat \<Rightarrow> mount_context" where
  "kubelet_context r v =
     \<lparr>mc_mountPoint = Some \<lparr>mp_MountPoint = ''/data'', mp_MountedOn = 0,
        mp_MountOpt = \<lparr>mo_DeviceName = r @ '':bucket'', mo_VolumeName = '''', mo_Daemon = False,
          mo_DaemonWait = 60, mo_others = []\<rparr>,
        mp_VFSOpt = \<lparr>vo_ReadOnly = False, vo_others = []\<rparr>, mp_Fs = v, mp_VFS = Some v, mp_MountFn = ''mount'',
        mp_UnmountFn = Some v\<rparr>,
      mc_remoteName = r, mc_remotes = [r], mc_cancel = Some v, mc_ctx = Some v\<rparr>"

definition sample_contexts :: "(string, mount_context) gomap" where
  "sample_contexts =
     [(''/var/lib/kubelet/pods/p1/volumes/kubernetes.io~csi/pv1/mount'', kubelet_context ''s3'' 0),
      (''/var/lib/kubelet/pods/p2/volumes/kubernetes.io~csi/pv1/mount'', kubelet_context ''s3'' 1)]"

definition two_mounts :: "sample_world node_state" where
  "two_mounts = (new_node_state sample_start)\<lparr>mountContexts := Some sample_contexts\<rparr>"

definition sample_runtime :: runtime_info where
  "sample_runtime = \<lparr>rt_Version = ''go1.24'', rt_Compiler = ''gc'', rt_GOOS = ''linux'', rt_GOARCH = ''amd64''\<rparr>"

theorem collection_is_described_witness:
  "\<exists>ms t. run_state (Collect sample_host rev rev rev (Inl ''no stats'')
       (Some (newMetricsCollector default_build sample_runtime ''node-1'' ''rclone'' ''unix:///csi.sock'' True))) two_mounts = (Reply ms, t)
     \<and> distinct (map series ms)"
proof -
  have "wf_map (stored_contexts two_mounts)"
    by (simp add: wf_map_def stored_contexts_def two_mounts_def sample_contexts_def)
  from collection_is_described [OF sample_vfs_stats_keys this range_order_rev range_order_rev]
  show ?thesis by blast
qed

section \<open>Labels and totals\<close>

text \<open>
  For a target path of the kubelet the labels are the uid of the pod and the directory of
  the volume, which is the name of its persistent volume.
\<close>

theorem kubelet_path_labels:
  assumes "CHR ''/'' \<notin> set uid" and "CHR ''/'' \<notin> set pv" and "uid \<noteq> ''kubernetes.io~csi''"
  shows "extractPodID (''/var/lib/kubelet/pods/'' @ uid @ ''/volumes/kubernetes.io~csi/'' @ pv @ ''/mount'') = uid
    \<and> extractVolumeID (''/var/lib/kubelet/pods/'' @ uid @ ''/volumes/kubernetes.io~csi/'' @ pv @ ''/mount'') = pv"
proof -
  have "Split (''/var/lib/kubelet/pods/'' @ uid @ ''/volumes/kubernetes.io~csi/'' @ pv @ ''/mount'') (CHR ''/'') =
    ['''', ''var'', ''lib'', ''kubelet'', ''pods'', uid, ''volumes'', ''kubernetes.io~csi'', pv, ''mount'']"
    using Split_append [OF assms(1)] Split_append [OF assms(2)] by simp
  then show ?thesis using assms(3) by (simp add: extractPodID_def extractVolumeID_def)
qed

theorem kubelet_path_labels_witness:
  "extractVolumeID ''/var/lib/kubelet/pods/8a1f/volumes/kubernetes.io~csi/pvc-7/mount'' = ''pvc-7''"
  using kubelet_path_labels [of "''8a1f''" "''pvc-7''"] by simp

end
