(* ===== verification/Metrics_Totals.thy ===== *)
theory Metrics_Totals
  imports Metrics
begin

text \<open>
  What the aggregation of \<open>metrics_collector.go\<close> computes: for every volume the totals of the
  statistics of its mounts, whatever order the run-time visits them in.
\<close>

section \<open>The reference: totals of a list of mounts\<close>

definition vfs_of :: "string \<times> mount_context \<Rightarrow> vfs_handle option" where
  "vfs_of p = (case mc_mountPoint (snd p) of None \<Rightarrow> None | Some mp \<Rightarrow> mp_VFS mp)"

text \<open>The mounts of a volume, those with a virtual file system.\<close>

definition volume_mounts :: "string \<Rightarrow> (string, mount_context) gomap \<Rightarrow> (string \<times> mount_context) list" where
  "volume_mounts v cs = filter (\<lambda>p. vfs_of p \<noteq> None \<and> extractVolumeID (fst p) = v) cs"

definition in_use :: "rc_params \<Rightarrow> 64 word" where
  "in_use stats = (case as_int32 (get stats ''inUse'') of Some i \<Rightarrow> scast i | None \<Rightarrow> 0)"

definition number_in :: "(go_value option \<Rightarrow> 64 word option) \<Rightarrow> string \<Rightarrow> string \<Rightarrow> rc_params \<Rightarrow> 64 word" where
  "number_in f part key stats =
     (case as_params (get stats part) of None \<Rightarrow> 0 | Some p \<Rightarrow> plus_of (f (get p key)))"

definition no_space :: "rc_params \<Rightarrow> bool" where
  "no_space stats = (case as_params (get stats ''diskCache'') of None \<Rightarrow> False
     | Some p \<Rightarrow> as_bool (get p ''outOfSpace'') = Some True)"

definition totals :: "string \<Rightarrow> string \<Rightarrow> rc_params list \<Rightarrow> volume_metrics" where
  "totals v r sts =
     \<lparr>vm_volumeID = v, vm_remoteName = r,
      vm_inUse = sum_list (map in_use sts),
      vm_metadataCacheDirs = sum_list (map (number_in as_int ''metadataCache'' ''dirs'') sts),
      vm_metadataCacheFiles = sum_list (map (number_in as_int ''metadataCache'' ''files'') sts),
      vm_diskCacheBytesUsed = sum_list (map (number_in as_int64 ''diskCache'' ''bytesUsed'') sts),
      vm_diskCacheFiles = sum_list (map (number_in as_int ''diskCache'' ''files'') sts),
      vm_diskCacheErrors = sum_list (map (number_in as_int ''diskCache'' ''erroredFiles'') sts),
      vm_uploadsInProgress = sum_list (map (number_in as_int ''diskCache'' ''uploadsInProgress'') sts),
      vm_uploadsQueued = sum_list (map (number_in as_int ''diskCache'' ''uploadsQueued'') sts),
      vm_diskCacheOutOfSpace = (\<exists>st \<in> set sts. no_space st)\<rparr>"

section \<open>The loop computes them\<close>

lemma totals_Nil: "new_volume_metrics v r = totals v r []"
  by (simp add: totals_def new_volume_metrics_def)

lemma totals_snoc: "aggregateVFSStats st (totals v r sts) = totals v r (sts @ [st])"
  by (cases "as_params (get st ''metadataCache'')"; cases "as_params (get st ''diskCache'')")
    (simp_all add: totals_def aggregateVFSStats_def aggregateDiskCacheStats_def Let_def in_use_def
      number_in_def no_space_def disj_commute)

lemma totals_perm:
  assumes "mset sts = mset sts'"
  shows "totals v r sts = totals v r sts'"
proof -
  have "sum_list (map f sts) = sum_list (map f sts')" for f :: "rc_params \<Rightarrow> 64 word"
    using assms by (metis mset_map sum_mset_sum_list)
  with mset_eq_setD [OF assms] show ?thesis by (simp add: totals_def)
qed

definition stats_of :: "(vfs_handle \<Rightarrow> rc_params) \<Rightarrow> string \<times> mount_context \<Rightarrow> rc_params" where
  "stats_of st p = st (the (vfs_of p))"

definition aggregate_spec ::
    "(vfs_handle \<Rightarrow> rc_params) \<Rightarrow> (string, mount_context) gomap \<Rightarrow> string \<Rightarrow> volume_metrics option" where
  "aggregate_spec st cs v = (case volume_mounts v cs of [] \<Rightarrow> None
     | p # ps \<Rightarrow> Some (totals v (mc_remoteName (snd p)) (map (stats_of st) (p # ps))))"

lemma empty_aggregate: "aggregate_spec st [] = (\<lambda>v. None)"
  by (rule ext) (simp add: aggregate_spec_def volume_mounts_def)

lemma aggregate_spec_skip: "vfs_of p = None \<Longrightarrow> aggregate_spec st (cs @ [p]) = aggregate_spec st cs"
  by (rule ext) (simp add: aggregate_spec_def volume_mounts_def)

lemma aggregate_spec_snoc:
  "vfs_of p = Some f \<Longrightarrow> aggregate_spec st (cs @ [p]) =
     (aggregate_spec st cs)(extractVolumeID (fst p) \<mapsto>
        aggregateVFSStats (st f) (case aggregate_spec st cs (extractVolumeID (fst p)) of
          Some vm \<Rightarrow> vm | None \<Rightarrow> new_volume_metrics (extractVolumeID (fst p)) (mc_remoteName (snd p))))"
  by (rule ext) (auto simp: aggregate_spec_def volume_mounts_def totals_Nil totals_snoc stats_of_def split: list.split)

text \<open>
  The totals are those of a snapshot: reading the statistics leaves the world as it is, and no counter moves
  while the mounts are visited.
\<close>

definition stats_only_read :: "'w host \<Rightarrow> (vfs_handle \<Rightarrow> rc_params) \<Rightarrow> bool" where
  "stats_only_read h st \<longleftrightarrow> (\<forall>v w. h_VFSStats h v w = (st v, w))"

lemma run_aggregate_loop:
  assumes "stats_only_read h st"
  shows "get vm = aggregate_spec st done \<Longrightarrow>
    \<exists>r. run_state (aggregate_loop h vm cs) s = (r, s) \<and> get r = aggregate_spec st (done @ cs)"
proof (induction cs arbitrary: vm "done")
  case (Cons p cs)
  obtain tg mc where p: "p = (tg, mc)" by (cases p)
  show ?case
  proof (cases "vfs_of p")
    case None
    then have "aggregate_loop h vm (p # cs) = aggregate_loop h vm cs"
      by (auto simp: p vfs_of_def split: option.splits)
    then show ?thesis using Cons.IH [of vm "done @ [p]"] Cons.prems aggregate_spec_skip [OF None] by simp
  next
    case (Some f)
    let ?v = "extractVolumeID tg"
    let ?vm = "put ?v (aggregateVFSStats (st f) (case get vm ?v of Some x \<Rightarrow> x
        | None \<Rightarrow> new_volume_metrics ?v (mc_remoteName mc))) vm"
    have "run_state (aggregate_loop h vm (p # cs)) s = run_state (aggregate_loop h ?vm cs) s"
      using Some assms by (auto simp: p vfs_of_def VFS_Stats_def stats_only_read_def Let_def split: option.splits)
    moreover have "get ?vm = aggregate_spec st (done @ [p])"
      unfolding p aggregate_spec_snoc [OF Some [unfolded p]] fst_conv snd_conv using Cons.prems by (simp add: go_map)
    ultimately show ?thesis using Cons.IH [of ?vm "done @ [p]"] by simp
  qed
qed simp

lemma spec_range_order:
  assumes "range_order rng" and "volume_mounts v cs \<noteq> []"
  shows "\<exists>p \<in> set (volume_mounts v cs). aggregate_spec st (rng cs) v =
    Some (totals v (mc_remoteName (snd p)) (map (stats_of st) (volume_mounts v cs)))"
proof -
  have perm: "mset (volume_mounts v (rng cs)) = mset (volume_mounts v cs)"
    using assms(1) by (simp add: volume_mounts_def range_order_def)
  with assms(2) obtain p ps where ps: "volume_mounts v (rng cs) = p # ps" by (cases "volume_mounts v (rng cs)") auto
  have "p \<in> set (volume_mounts v cs)" using perm ps by (metis list.set_intros(1) mset_eq_setD)
  moreover have "mset (map (stats_of st) (p # ps)) = mset (map (stats_of st) (volume_mounts v cs))"
    using perm ps by (metis mset_map)
  then have "totals v (mc_remoteName (snd p)) (map (stats_of st) (p # ps)) =
      totals v (mc_remoteName (snd p)) (map (stats_of st) (volume_mounts v cs))" by (rule totals_perm)
  ultimately show ?thesis by (auto simp: aggregate_spec_def ps)
qed

text \<open>
  C29: The aggregation gives each volume one entry, whose numbers are the totals over its mounts
  in wrapping 64-bit arithmetic, and volumes without a mount none.  The order in which the run-time
  visits the map changes only the \<open>remote_name\<close>, which is that of one of the mounts.
\<close>

theorem aggregation_totals:
  assumes "range_order rng" and "stats_only_read h st"
  shows "\<exists>r. run_state (aggregate_loop h [] (rng cs)) s = (r, s)
    \<and> (if volume_mounts v cs = [] then get r v = None
       else \<exists>p \<in> set (volume_mounts v cs).
         get r v = Some (totals v (mc_remoteName (snd p)) (map (stats_of st) (volume_mounts v cs))))"
proof -
  from run_aggregate_loop [OF assms(2), of "[]" "[]" "rng cs" s]
  obtain r where r: "run_state (aggregate_loop h [] (rng cs)) s = (r, s)" and "get r = aggregate_spec st (rng cs)"
    by (auto simp: empty_aggregate)
  moreover have "aggregate_spec st (rng cs) v = None" if "volume_mounts v cs = []"
  proof -
    have "mset (volume_mounts v (rng cs)) = mset (volume_mounts v cs)"
      using assms(1) by (simp add: volume_mounts_def range_order_def)
    then show ?thesis using that by (simp add: aggregate_spec_def)
  qed
  ultimately show ?thesis using spec_range_order [OF assms(1), of v cs st] by auto
qed

text \<open>A host without uploads, whose statistics are constant.\<close>

definition idle_host :: "sample_world host" where
  "idle_host = sample_host\<lparr>h_VFSStats := (\<lambda>v w. (sample_stats 0, w))\<rparr>"

theorem aggregation_totals_witness:
  "\<exists>r vm. run_state (aggregate_loop idle_host [] (rev sample_contexts)) two_mounts = (r, two_mounts)
     \<and> get r ''pv1'' = Some vm \<and> vm_diskCacheBytesUsed vm = 8192 \<and> vm_remoteName vm = ''s3''"
proof -
  have mounts: "volume_mounts ''pv1'' sample_contexts = sample_contexts"
    by (simp add: volume_mounts_def sample_contexts_def vfs_of_def kubelet_context_def extractVolumeID_def Let_def)
  have remote: "mc_remoteName (snd p) = ''s3''" if "p \<in> set sample_contexts" for p
    using that by (auto simp: sample_contexts_def kubelet_context_def)
  have "vm_diskCacheBytesUsed (totals ''pv1'' ''s3'' (map (stats_of (\<lambda>v. sample_stats 0)) sample_contexts)) = 8192"
    by (simp add: totals_def stats_of_def sample_contexts_def number_in_def plus_of_def sample_stats_def)
  moreover have "stats_only_read idle_host (\<lambda>v. sample_stats 0)" by (simp add: stats_only_read_def idle_host_def)
  from aggregation_totals [OF range_order_rev this, of sample_contexts two_mounts "''pv1''"]
  obtain r p where "run_state (aggregate_loop idle_host [] (rev sample_contexts)) two_mounts = (r, two_mounts)"
    and "p \<in> set sample_contexts"
    and "get r ''pv1'' = Some (totals ''pv1'' (mc_remoteName (snd p)) (map (stats_of (\<lambda>v. sample_stats 0)) sample_contexts))"
    unfolding mounts by (auto simp: sample_contexts_def [THEN arg_cong [where f = "\<lambda>xs. xs = []"]])
  ultimately show ?thesis using remote [of p] by (auto simp: totals_def)
qed

end
