(* ===== verification/Metrics_Mounts.thy ===== *)
theory Metrics_Mounts
  imports Metrics Node_Properties
begin

text \<open>
  The collector and the node service together: what a scrape says about the mounts after any
  sequence of publish and unpublish calls.
\<close>

section \<open>The stored contexts as a map\<close>

lemma getMountContext_stored: "getMountContext s tg = get (stored_contexts s) tg"
  by (simp add: getMountContext_def stored_contexts_def split: option.splits)

lemma stored_set: "stored_contexts (setMountContext s tg mc) = put tg mc (stored_contexts s)"
  by (simp add: setMountContext_def stored_contexts_def Let_def split: option.splits)

lemma stored_delete: "stored_contexts (deleteMountContext s tg) = delete_key tg (stored_contexts s)"
  by (simp add: deleteMountContext_def stored_contexts_def split: option.splits)

lemma stored_cong: "mountContexts t = mountContexts s \<Longrightarrow> stored_contexts t = stored_contexts s"
  by (simp add: stored_contexts_def)

lemma publish_stored_wf:
  assumes "publish_effect req s r t" and "wf_map (stored_contexts s)"
  shows "wf_map (stored_contexts t)"
proof -
  from assms(1) consider "mountContexts t = mountContexts s"
    | mc where "mountContexts t = mountContexts (setMountContext s (pr_target_path req) mc)"
    by (cases r) (auto simp: publish_effect_def)
  then have "stored_contexts t = stored_contexts s \<or> (\<exists>k mc. stored_contexts t = put k mc (stored_contexts s))"
    by cases (metis stored_cong stored_set)+
  then show ?thesis using assms(2) by auto
qed

lemma unpublish_stored_wf:
  assumes "unpublish_effect req s r t" and "wf_map (stored_contexts s)"
  shows "wf_map (stored_contexts t)"
proof -
  from assms(1) consider "mountContexts t = mountContexts s"
    | "mountContexts t = mountContexts (deleteMountContext s (ur_target_path req))"
    by (cases r) (auto simp: unpublish_effect_def Let_def)
  then have "stored_contexts t = stored_contexts s \<or> (\<exists>k. stored_contexts t = delete_key k (stored_contexts s))"
    by cases (metis stored_cong stored_delete)+
  then show ?thesis using assms(2) by auto
qed

lemma node_step_stored_wf: "node_step h once s t \<Longrightarrow> wf_map (stored_contexts s) \<Longrightarrow> wf_map (stored_contexts t)"
proof (induction rule: node_step.induct)
  case (publish rng rngs req s r t)
  then show ?case using publish_stored_wf [OF NodePublish_effect] by blast
next
  case (unpublish ureq s r t)
  then show ?case using unpublish_stored_wf [OF NodeUnpublish_effect] by blast
qed (simp add: stored_contexts_def)

lemma reachable_stored_wf: "reachable_node h once s \<Longrightarrow> wf_map (stored_contexts s)"
  by (induction rule: reachable_node.induct)
    (auto simp: stored_contexts_def new_node_state_def dest: node_step_stored_wf [unfolded stored_contexts_def])

section \<open>The health metrics\<close>

definition health_metric :: "collector \<Rightarrow> string \<times> mount_context \<Rightarrow> metric outcome \<Rightarrow> bool" where
  "health_metric c tc x \<longleftrightarrow> (\<exists>v dr. x = Reply \<lparr>me_desc = d_mountHealthy c, me_type = GaugeValue, me_value = v,
     me_labels = [extractVolumeID (fst tc), extractPodID (fst tc), fst tc, mc_remoteName (snd tc),
       extractMountType (snd tc), getDeviceName (snd tc), getVolumeName (snd tc), isReadOnly (snd tc), dr]\<rparr>)"

text \<open>One metric for each context with a mount point, in the order of the visit.\<close>

lemma wp_health_exact:
  assumes "vfs_stats_keys h" and "length (variableLabels (d_mountHealthy c)) = 9"
  shows "\<forall>tc \<in> set cs. mc_mountPoint (snd tc) \<noteq> None \<Longrightarrow>
    wp (collect_health_loop h c cs) (\<lambda>xs t. list_all2 (health_metric c) cs xs) s"
proof (induction cs arbitrary: s)
  case (Cons tc cs)
  obtain tg mc where tc: "tc = (tg, mc)" by (cases tc)
  have mp: "mc_mountPoint mc \<noteq> None" using Cons.prems tc by simp
  have health: "wp (isMountHealthy h tg) (\<lambda>r t. \<exists>x. r = Reply x) u" for u
    using run_isMountHealthy [OF assms(1), of tg u] by (auto simp: wp_def)
  have dur: "wp (getMountDuration h mc) (\<lambda>r t. True) u" for u by (rule wpI) simp
  have m: "health_metric c (tg, mc) (MustNewConstMetric (d_mountHealthy c) GaugeValue v
      [extractVolumeID tg, extractPodID tg, tg, mc_remoteName mc, extractMountType mc, getDeviceName mc,
       getVolumeName mc, isReadOnly mc, dr])" for v dr
    using assms(2) by (simp add: health_metric_def MustNewConstMetric_def)
  have rest: "wp (State_Monad.bind (getMountDuration h mc) (\<lambda>duration.
        State_Monad.bind (collect_health_loop h c cs) (\<lambda>ms. return (MustNewConstMetric (d_mountHealthy c) GaugeValue v
          [extractVolumeID tg, extractPodID tg, tg, mc_remoteName mc, extractMountType mc, getDeviceName mc,
           getVolumeName mc, isReadOnly mc, duration] # ms)))) (\<lambda>xs t. list_all2 (health_metric c) ((tg, mc) # cs) xs) u"
    for v u
    by (intro wp_bind wp_weaken [OF dur] wp_weaken [OF Cons.IH] wp_return) (use Cons.prems m in auto)
  show ?case
    unfolding tc collect_health_loop.simps if_not_P [OF mp]
    by (intro wp_bind wp_weaken [OF health]) (auto split: prod.split intro: rest)
qed (simp add: wp_return)

lemma send_all_reply: "send_all xs = Reply ms \<Longrightarrow> xs = List.map Reply ms"
  by (induction xs arbitrary: ms rule: send_all.induct) (auto split: outcome.splits)

lemma other_names:
  assumes "block c names xs" and "Reply m \<in> set xs"
  shows "fqName (me_desc m) \<in> names"
  using assms by (force simp: block_def series_def)

lemma health_labels:
  assumes "list_all2 (health_metric c) cs (List.map Reply ms)"
  shows "List.map (\<lambda>m. me_labels m ! 2) ms = List.map fst cs"
    and "\<forall>m \<in> set ms. me_desc m = d_mountHealthy c
      \<and> (\<exists>mc. (me_labels m ! 2, mc) \<in> set cs \<and> me_labels m ! 3 = mc_remoteName mc \<and> me_labels m ! 7 = isReadOnly mc)"
  using assms
proof (induction cs arbitrary: ms)
  case (Cons tc cs)
  {
    case 1
    then show ?case using Cons.IH(1) by (cases ms) (auto simp: health_metric_def)
  next
    case 2
    then obtain m ms' where ms: "ms = m # ms'" and m: "health_metric c tc (Reply m)"
      and rest: "list_all2 (health_metric c) cs (List.map Reply ms')" by (cases ms) auto
    have "me_desc m = d_mountHealthy c \<and> (me_labels m ! 2, snd tc) = tc \<and> me_labels m ! 3 = mc_remoteName (snd tc)
        \<and> me_labels m ! 7 = isReadOnly (snd tc)" using m by (auto simp: health_metric_def)
    then show ?case using Cons.IH(2) [OF rest] unfolding ms by (metis list.set_intros set_ConsD)
  }
qed simp_all

lemma sent_health:
  "list_all2 (health_metric (newMetricsCollector b rt n d e ns)) cs ys \<Longrightarrow>
     \<forall>y \<in> set ys. sent (newMetricsCollector b rt n d e ns) y"
proof (induction rule: list_all2_induct)
  case (Cons tc tcs y ys)
  from Cons.hyps(1) have "sent (newMetricsCollector b rt n d e ns) y"
    by (auto simp: health_metric_def sent_def described_def desc_defs)
  with Cons.IH show ?case by simp
qed simp

text \<open>The metrics of one name among those of several blocks.\<close>

lemma filter_block:
  assumes "block c names (List.map Reply ms)" and "name \<notin> names"
  shows "filter (\<lambda>m. fqName (me_desc m) = name) ms = []"
  using assms other_names [OF assms(1)] by (auto simp: filter_empty_conv)

lemma run_collect_vfs:
  assumes "vfs_stats_keys h" and "reachable_node h once s" and "range_order rngh" and "range_order rngv"
  obtains xs ys t where
    "run_state (collectVFSMetrics h rngc rngh rngv (newMetricsCollector b rt n d e True)) s = (xs @ ys, t)"
    and "block (newMetricsCollector b rt n d e True) (set vfs_names) xs"
    and "list_all2 (health_metric (newMetricsCollector b rt n d e True)) (rngh (stored_contexts s)) ys"
proof -
  let ?c = "newMetricsCollector b rt n d e True"
  have empty: "by_volume []" by (simp add: by_volume_def)
  have wf: "wf_map (stored_contexts s)" by (rule reachable_stored_wf [OF assms(2)])
  have "mc_mountPoint mc \<noteq> None" if "(tg, mc) \<in> set (stored_contexts s)" for tg mc
  proof -
    have "getMountContext s tg = Some mc" using that wf by (simp add: getMountContext_stored wf_map_def)
    with reachable_inv [OF assms(2)] show ?thesis unfolding contexts_inv_def by blast
  qed
  then have mp: "\<forall>tc \<in> set (rngh (stored_contexts s)). mc_mountPoint (snd tc) \<noteq> None"
    using range_order_set [OF assms(3), of "stored_contexts s"] by auto
  have labels: "length (variableLabels (d_mountHealthy ?c)) = 9" by (simp add: desc_defs)
  have "wp (collectVFSMetrics h rngc rngh rngv ?c) (\<lambda>zs t. \<exists>xs ys. zs = xs @ ys \<and> block ?c (set vfs_names) xs
      \<and> list_all2 (health_metric ?c) (rngh (stored_contexts s)) ys) s"
    unfolding collectVFSMetrics_def
    by (intro wp_if wp_bind wp_gets wp_weaken [OF wp_aggregate_loop [OF empty]]
        wp_weaken [OF wp_health_exact [OF assms(1) labels mp]] wp_return)
      (auto simp: newMetricsCollector_def [of b rt n d e True, THEN arg_cong [where f = c_nodeServer]] Let_def
        intro!: exI conjI block_volumes by_volume_range [OF assms(4)])
  from wpD [OF this prod.collapse [symmetric]] that show ?thesis by (metis prod.collapse)
qed

text \<open>The health metrics of a scrape are those of the loop over the stored contexts.\<close>

lemma scrape_health_metrics:
  assumes "vfs_stats_keys h" and "reachable_node h once s" and "range_order rngh" and "range_order rngv"
  obtains ms t hs where
      "run_state (Collect h rngc rngh rngv remoteStats (Some (newMetricsCollector b rt n d e True))) s = (Reply ms, t)"
    and "filter (\<lambda>m. fqName (me_desc m) = ''csi_driver_mount_healthy'') ms = hs"
    and "list_all2 (health_metric (newMetricsCollector b rt n d e True)) (rngh (stored_contexts s)) (List.map Reply hs)"
proof -
  let ?c = "newMetricsCollector b rt n d e True"
  let ?name = "''csi_driver_mount_healthy''"
  obtain xs ys t where run: "run_state (collectVFSMetrics h rngc rngh rngv ?c) s = (xs @ ys, t)"
    and xs: "block ?c (set vfs_names) xs" and ys: "list_all2 (health_metric ?c) (rngh (stored_contexts s)) ys"
    using run_collect_vfs [OF assms] by metis
  let ?all = "collectNodeInfo ?c @ xs @ ys @ collectRemoteStats ?c remoteStats"
  have "\<forall>x \<in> set ?all. sent ?c x"
    using blockD [OF block_node_info] blockD [OF xs] sent_health [OF ys] blockD [OF block_remote] by auto
  from send_all_sent [OF this] obtain ms where ms: "send_all ?all = Reply ms" by blast
  then have collect: "run_state (Collect h rngc rngh rngv remoteStats (Some ?c)) s = (Reply ms, t)"
    using run by (simp add: Collect_def)
  from send_all_reply [OF ms] obtain m1 m2 m3 m4 where split: "ms = m1 @ m2 @ m3 @ m4"
    and parts: "collectNodeInfo ?c = List.map Reply m1" "xs = List.map Reply m2" "ys = List.map Reply m3"
      "collectRemoteStats ?c remoteStats = List.map Reply m4"
    by (auto simp: append_eq_map_conv)
  note ys2 = ys [unfolded parts]
  have none: "filter (\<lambda>m. fqName (me_desc m) = ?name) m1 = []" "filter (\<lambda>m. fqName (me_desc m) = ?name) m2 = []"
    "filter (\<lambda>m. fqName (me_desc m) = ?name) m4 = []"
    using filter_block [OF block_node_info [of b rt n d e True, unfolded parts(1)], of ?name]
      filter_block [OF xs [unfolded parts(2)], of ?name]
      filter_block [OF block_remote [of b rt n d e True remoteStats, unfolded parts(4)], of ?name]
    by (simp_all add: vfs_names_def remote_names_def)
  have "filter (\<lambda>m. fqName (me_desc m) = ?name) m3 = m3"
    using health_labels(2) [OF ys2] by (simp add: filter_id_conv desc_defs)
  with none have "filter (\<lambda>m. fqName (me_desc m) = ?name) ms = m3" unfolding split by simp
  with collect ys2 that show thesis by blast
qed

text \<open>
  C27: What a scrape says about mounts is what is mounted: after any publish and unpublish calls, a
  collection has exactly one health metric for each target with a stored mount and none for
  any other path, labelled with the remote and the read-only flag of that mount.
\<close>

theorem scrape_lists_mounts:
  assumes "vfs_stats_keys h" and "reachable_node h once s" and "range_order rngh" and "range_order rngv"
  shows "\<exists>ms t. run_state (Collect h rngc rngh rngv remoteStats (Some (newMetricsCollector b rt n d e True))) s = (Reply ms, t)
    \<and> (let hs = filter (\<lambda>m. fqName (me_desc m) = ''csi_driver_mount_healthy'') ms in
       distinct (List.map (\<lambda>m. me_labels m ! 2) hs)
       \<and> {me_labels m ! 2 |m. m \<in> set hs} = {tg. getMountContext s tg \<noteq> None}
       \<and> (\<forall>m \<in> set hs. \<forall>mc. getMountContext s (me_labels m ! 2) = Some mc \<longrightarrow>
            me_labels m ! 3 = mc_remoteName mc \<and> me_labels m ! 7 = isReadOnly mc))"
proof -
  obtain ms t hs where collect: "run_state (Collect h rngc rngh rngv remoteStats
        (Some (newMetricsCollector b rt n d e True))) s = (Reply ms, t)"
    and hs: "filter (\<lambda>m. fqName (me_desc m) = ''csi_driver_mount_healthy'') ms = hs"
    and ys: "list_all2 (health_metric (newMetricsCollector b rt n d e True)) (rngh (stored_contexts s)) (List.map Reply hs)"
    by (rule scrape_health_metrics [OF assms])
  note h = health_labels [OF ys]
  have wf: "wf_map (stored_contexts s)" by (rule reachable_stored_wf [OF assms(2)])
  have member: "(tg, mc) \<in> set (rngh (stored_contexts s)) \<longleftrightarrow> getMountContext s tg = Some mc" for tg mc
    using wf range_order_set [OF assms(3), of "stored_contexts s"] by (simp add: getMountContext_stored wf_map_def)
  have "fst ` A = {k. \<exists>v. (k, v) \<in> A}" for A :: "(string \<times> mount_context) set" by force
  then have keys: "fst ` set (rngh (stored_contexts s)) = {tg. getMountContext s tg \<noteq> None}"
    by (simp add: member)
  have "distinct (List.map fst (rngh (stored_contexts s)))"
    using wf range_order_wf [OF assms(3), of "stored_contexts s"] by (simp add: wf_map_def)
  then have "distinct (List.map (\<lambda>m. me_labels m ! 2) hs)" by (simp only: h(1))
  moreover have "{me_labels m ! 2 |m. m \<in> set hs} = set (List.map (\<lambda>m. me_labels m ! 2) hs)" by auto
  then have "{me_labels m ! 2 |m. m \<in> set hs} = {tg. getMountContext s tg \<noteq> None}"
    unfolding h(1) using keys by simp
  moreover have "me_labels m ! 3 = mc_remoteName mc \<and> me_labels m ! 7 = isReadOnly mc"
    if "m \<in> set hs" and mc: "getMountContext s (me_labels m ! 2) = Some mc" for m mc
  proof -
    from bspec [OF h(2) that(1)] obtain mc' where "(me_labels m ! 2, mc') \<in> set (rngh (stored_contexts s))"
      and l: "me_labels m ! 3 = mc_remoteName mc'" "me_labels m ! 7 = isReadOnly mc'" by (elim conjE exE)
    then have "mc' = mc" using mc by (simp only: member option.inject)
    then show ?thesis using l by simp
  qed
  ultimately show ?thesis using collect unfolding Let_def hs [symmetric] by blast
qed

theorem scrape_lists_mounts_witness:
  "\<exists>ms t. run_state (Collect sample_host rev rev rev (Inl ''no stats'')
       (Some (newMetricsCollector default_build sample_runtime ''node-1'' ''rclone'' ''unix:///csi.sock'' True))) sample_published = (Reply ms, t)
     \<and> {me_labels m ! 2 |m. m \<in> set (filter (\<lambda>m. fqName (me_desc m) = ''csi_driver_mount_healthy'') ms)} = {''/pods/p/mount''}"
proof -
  have "node_step sample_host True (new_node_state sample_start) sample_published"
    by (rule node_step.publish [OF sample_publish_run]) (simp_all add: getMountContext_def new_node_state_def)
  from reachable_node.step [OF reachable_node.start this]
  have r: "reachable_node sample_host True sample_published" .
  have "{tg. getMountContext sample_published tg \<noteq> None} = {''/pods/p/mount''}"
    by (auto simp: sample_published_def sample_node_def sample_entry_def getMountContext_def)
  with scrape_lists_mounts [OF sample_vfs_stats_keys r range_order_rev range_order_rev, of rev "Inl ''no stats''"
      default_build sample_runtime "''node-1''" "''rclone''" "''unix:///csi.sock''"]
  show ?thesis unfolding Let_def by metis
qed

end
