(* ===== verification/Context_Mutex.thy ===== *)
theory Context_Mutex
  imports Go_Prelude
begin

text \<open>
  The read-write mutex \<open>mu\<close> of the node server (\<open>pkg/rclone/nodeserver.go\<close>), which guards the
  stored mount contexts, and the calls that take it: the accessors of the handlers and the
  collection of metrics (\<open>pkg/rclone/metrics_collector.go\<close>).  Goroutines are lists of lock
  operations; the mutex follows \<open>sync.RWMutex\<close>: a writer that waits for the readers keeps
  new readers out.
\<close>

section \<open>The mutex and its goroutines\<close>

datatype lock_op = RLock | RUnlock | Lock | Unlock

text \<open>
  \<open>announced\<close> is the goroutine that called \<open>Lock\<close>, from the call to its \<open>Unlock\<close>; \<open>acquired\<close>
  says that the readers before it are gone and it owns the mutex.
\<close>

record rw_system =
  readers :: nat
  announced :: "nat option"
  acquired :: bool
  progs :: "lock_op list list"

inductive rw_step :: "rw_system \<Rightarrow> rw_system \<Rightarrow> bool" where
  rlock: "i < length (progs s) \<Longrightarrow> progs s ! i = RLock # ops \<Longrightarrow> announced s = None \<Longrightarrow>
     rw_step s (s\<lparr>readers := readers s + 1, progs := (progs s)[i := ops]\<rparr>)"
| runlock: "i < length (progs s) \<Longrightarrow> progs s ! i = RUnlock # ops \<Longrightarrow> 0 < readers s \<Longrightarrow>
     rw_step s (s\<lparr>readers := readers s - 1, progs := (progs s)[i := ops]\<rparr>)"
| announce: "i < length (progs s) \<Longrightarrow> progs s ! i = Lock # ops \<Longrightarrow> announced s = None \<Longrightarrow>
     rw_step s (s\<lparr>announced := Some i\<rparr>)"
| acquire: "i < length (progs s) \<Longrightarrow> progs s ! i = Lock # ops \<Longrightarrow> announced s = Some i \<Longrightarrow>
     \<not> acquired s \<Longrightarrow> readers s = 0 \<Longrightarrow>
     rw_step s (s\<lparr>acquired := True, progs := (progs s)[i := ops]\<rparr>)"
| unlock: "i < length (progs s) \<Longrightarrow> progs s ! i = Unlock # ops \<Longrightarrow> announced s = Some i \<Longrightarrow> acquired s \<Longrightarrow>
     rw_step s (s\<lparr>announced := None, acquired := False, progs := (progs s)[i := ops]\<rparr>)"

definition start_rw :: "lock_op list list \<Rightarrow> rw_system" where
  "start_rw ps = \<lparr>readers = 0, announced = None, acquired = False, progs = ps\<rparr>"

inductive_cases rw_stepE: "rw_step s t"

abbreviation rw_steps :: "rw_system \<Rightarrow> rw_system \<Rightarrow> bool" where
  "rw_steps \<equiv> rw_step\<^sup>*\<^sup>*"

section \<open>Who takes the mutex\<close>

definition getMountContext_ops :: "lock_op list" where
  "getMountContext_ops = [RLock, RUnlock]"

definition setMountContext_ops :: "lock_op list" where
  "setMountContext_ops = [Lock, Unlock]"

definition deleteMountContext_ops :: "lock_op list" where
  "deleteMountContext_ops = [Lock, Unlock]"

text \<open>The health check looks the context up when the directory can be read.\<close>

definition isMountHealthy_ops :: "bool \<Rightarrow> lock_op list" where
  "isMountHealthy_ops readable = (if readable then getMountContext_ops else [])"

text \<open>
  A collection holds the mutex for reading while it checks the health of every mount; the
  argument says which of the directories can be read.
\<close>

definition collectVFSMetrics_ops :: "bool list \<Rightarrow> lock_op list" where
  "collectVFSMetrics_ops mounts = RLock # concat (map isMountHealthy_ops mounts) @ [RUnlock]"

text \<open>
  The calls of the node service: publish stores the context of a new mount, unpublish looks
  the context up and deletes it unless an error ends it before, statistics check the health.
\<close>

datatype node_call = Publish bool | Unpublish bool | GetVolumeStats bool

definition publish_ops :: "bool \<Rightarrow> lock_op list" where
  "publish_ops mounted = (if mounted then setMountContext_ops else [])"

definition unpublish_ops :: "bool \<Rightarrow> lock_op list" where
  "unpublish_ops unmounted = getMountContext_ops @ (if unmounted then deleteMountContext_ops else [])"

declare publish_ops_def [simp] unpublish_ops_def [simp]

fun handler_ops :: "node_call \<Rightarrow> lock_op list" where
  "handler_ops (Publish mounted) = publish_ops mounted"
| "handler_ops (Unpublish unmounted) = unpublish_ops unmounted"
| "handler_ops (GetVolumeStats readable) = isMountHealthy_ops readable"

section \<open>Without nesting there is no deadlock\<close>

text \<open>A program whose critical sections are not nested.\<close>

fun flat :: "lock_op list \<Rightarrow> bool" where
  "flat [] = True"
| "flat (RLock # RUnlock # ops) = flat ops"
| "flat (Lock # Unlock # ops) = flat ops"
| "flat _ = False"

lemma flat_handler: "flat (handler_ops c)"
  by (cases c) (simp_all add: setMountContext_ops_def getMountContext_ops_def deleteMountContext_ops_def isMountHealthy_ops_def)

lemma flat_append: "flat p \<Longrightarrow> flat q \<Longrightarrow> flat (p @ q)"
  by (induction p rule: flat.induct) simp_all

lemma flat_concat: "\<forall>p \<in> set ps. flat p \<Longrightarrow> flat (concat ps)"
  by (induction ps) (auto intro: flat_append)

text \<open>At a point of a flat program: outside, or inside a critical section.\<close>

definition flat_point :: "lock_op list \<Rightarrow> bool" where
  "flat_point p \<longleftrightarrow> flat p \<or> (\<exists>q. (p = RUnlock # q \<or> p = Unlock # q) \<and> flat q)"

lemma flat_point_RLock: "flat_point (RLock # ops) \<Longrightarrow> \<exists>q. ops = RUnlock # q \<and> flat q"
  by (cases ops rule: flat.cases) (auto simp: flat_point_def elim: flat.elims)

lemma flat_point_Lock: "flat_point (Lock # ops) \<Longrightarrow> \<exists>q. ops = Unlock # q \<and> flat q"
  by (auto simp: flat_point_def elim: flat.elims)

lemma flat_point_leave: "flat_point (RUnlock # ops) \<Longrightarrow> flat ops" "flat_point (Unlock # ops) \<Longrightarrow> flat ops"
  by (auto simp: flat_point_def)

definition next_op :: "lock_op list \<Rightarrow> lock_op option" where
  "next_op p = (case p of [] \<Rightarrow> None | x # _ \<Rightarrow> Some x)"

lemma next_op_simps [simp]: "next_op [] = None" "next_op (x # p) = Some x"
  by (simp_all add: next_op_def)

lemma next_opD: "next_op p = Some x \<Longrightarrow> \<exists>q. p = x # q"
  by (cases p) simp_all

lemma flat_next: "flat p \<Longrightarrow> next_op p \<noteq> Some RUnlock \<and> next_op p \<noteq> Some Unlock"
  by (cases p rule: flat.cases) simp_all

definition reading :: "rw_system \<Rightarrow> nat set" where
  "reading s = {i. i < length (progs s) \<and> next_op (progs s ! i) = Some RUnlock}"

text \<open>
  Every goroutine is at a point of a flat program, the reader count is the number of
  goroutines that read, and the announced goroutine is the only one that is about to lock
  or, once it has the mutex, to unlock; then nobody reads.
\<close>

definition owner_inv :: "rw_system \<Rightarrow> bool" where
  "owner_inv s \<longleftrightarrow>
     (\<forall>i < length (progs s). next_op (progs s ! i) = Some Unlock \<longleftrightarrow> acquired s \<and> announced s = Some i)
     \<and> (\<forall>i. announced s = Some i \<longrightarrow> i < length (progs s)
          \<and> next_op (progs s ! i) = Some (if acquired s then Unlock else Lock))
     \<and> (acquired s \<longrightarrow> announced s \<noteq> None \<and> readers s = 0)"

definition rw_inv :: "rw_system \<Rightarrow> bool" where
  "rw_inv s \<longleftrightarrow> (\<forall>p \<in> set (progs s). flat_point p) \<and> readers s = card (reading s) \<and> owner_inv s"

lemma finite_reading [simp]: "finite (reading s)"
  by (simp add: reading_def)

lemma set_update_points:
  "\<forall>p \<in> set xs. flat_point p \<Longrightarrow> flat_point q \<Longrightarrow> \<forall>p \<in> set (xs[i := q]). flat_point p"
  using set_update_subset_insert [of xs i q] by blast

lemma rw_inv_point: "rw_inv s \<Longrightarrow> i < length (progs s) \<Longrightarrow> flat_point (progs s ! i)"
  by (simp add: rw_inv_def)

lemma rw_inv_start:
  assumes "\<forall>p \<in> set ps. flat p"
  shows "rw_inv (start_rw ps)"
proof -
  have "next_op (ps ! i) \<noteq> Some RUnlock \<and> next_op (ps ! i) \<noteq> Some Unlock" if "i < length ps" for i
    using assms that by (simp add: flat_next)
  then show ?thesis using assms by (auto simp: rw_inv_def owner_inv_def start_rw_def reading_def flat_point_def)
qed

lemma rw_inv_step: "rw_step s t \<Longrightarrow> rw_inv s \<Longrightarrow> rw_inv t"
proof (induction rule: rw_step.induct)
  case (rlock i s ops)
  let ?t = "s\<lparr>readers := readers s + 1, progs := (progs s)[i := ops]\<rparr>"
  obtain q where q: "ops = RUnlock # q" "flat q"
    using rw_inv_point [OF rlock.prems rlock.hyps(1)] flat_point_RLock unfolding rlock.hyps(2) by blast
  have "reading ?t = insert i (reading s)"
    using rlock q by (auto simp: reading_def nth_list_update)
  moreover have "i \<notin> reading s" using rlock by (simp add: reading_def)
  ultimately have "readers ?t = card (reading ?t)" using rlock by (simp add: rw_inv_def)
  moreover have "\<forall>p \<in> set (progs ?t). flat_point p"
    using rlock q set_update_points [of "progs s" ops i] by (auto simp: rw_inv_def flat_point_def)
  moreover have "owner_inv ?t"
    using rlock q by (auto simp: rw_inv_def owner_inv_def nth_list_update)
  ultimately show ?case by (simp only: rw_inv_def)
next
  case (runlock i s ops)
  let ?t = "s\<lparr>readers := readers s - 1, progs := (progs s)[i := ops]\<rparr>"
  have q: "flat ops" using rw_inv_point [OF runlock.prems runlock.hyps(1)] flat_point_leave unfolding runlock.hyps(2) by blast
  have "reading ?t = reading s - {i}"
    using runlock flat_next [OF q] by (auto simp: reading_def nth_list_update)
  moreover have "i \<in> reading s" using runlock by (simp add: reading_def)
  ultimately have "readers ?t = card (reading ?t)" using runlock by (simp add: rw_inv_def)
  moreover have "\<forall>p \<in> set (progs ?t). flat_point p"
    using runlock q set_update_points [of "progs s" ops i] by (simp add: rw_inv_def flat_point_def)
  moreover have "owner_inv ?t"
    using runlock flat_next [OF q] by (auto simp: rw_inv_def owner_inv_def nth_list_update)
  ultimately show ?case by (simp only: rw_inv_def)
next
  case (announce i s ops)
  then show ?case by (auto simp: rw_inv_def owner_inv_def reading_def)
next
  case (acquire i s ops)
  let ?t = "s\<lparr>acquired := True, progs := (progs s)[i := ops]\<rparr>"
  obtain q where q: "ops = Unlock # q" "flat q"
    using rw_inv_point [OF acquire.prems acquire.hyps(1)] flat_point_Lock unfolding acquire.hyps(2) by blast
  have "reading ?t = reading s" using acquire q by (auto simp: reading_def nth_list_update)
  moreover have "\<forall>p \<in> set (progs ?t). flat_point p"
    using acquire q set_update_points [of "progs s" ops i] by (auto simp: rw_inv_def flat_point_def)
  moreover have "owner_inv ?t"
    using acquire q by (auto simp: rw_inv_def owner_inv_def nth_list_update)
  ultimately show ?case using acquire by (simp add: rw_inv_def)
next
  case (unlock i s ops)
  let ?t = "s\<lparr>announced := None, acquired := False, progs := (progs s)[i := ops]\<rparr>"
  have q: "flat ops" using rw_inv_point [OF unlock.prems unlock.hyps(1)] flat_point_leave unfolding unlock.hyps(2) by blast
  have "reading ?t = reading s" using unlock flat_next [OF q] by (auto simp: reading_def nth_list_update)
  moreover have "\<forall>p \<in> set (progs ?t). flat_point p"
    using unlock q set_update_points [of "progs s" ops i] by (auto simp: rw_inv_def flat_point_def)
  moreover have "owner_inv ?t"
    using unlock flat_next [OF q] by (auto simp: rw_inv_def owner_inv_def nth_list_update)
  ultimately show ?case using unlock by (simp add: rw_inv_def)
qed

lemma rw_inv_steps: "rw_steps s t \<Longrightarrow> rw_inv s \<Longrightarrow> rw_inv t"
  by (induction rule: rtranclp_induct) (auto intro: rw_inv_step)

lemma rw_progress:
  assumes "rw_inv s" and "j < length (progs s)" and "progs s ! j \<noteq> []"
  shows "\<exists>t. rw_step s t"
proof (cases "readers s = 0")
  case False
  then obtain i where "i \<in> reading s" using assms(1) by (metis card.empty ex_in_conv rw_inv_def)
  then obtain q where "i < length (progs s)" and "progs s ! i = RUnlock # q"
    by (auto simp: reading_def dest: next_opD)
  with False show ?thesis using rw_step.runlock by blast
next
  case True
  show ?thesis
  proof (cases "announced s")
    case (Some i)
    then have "i < length (progs s)" and "next_op (progs s ! i) = Some (if acquired s then Unlock else Lock)"
      using assms(1) by (auto simp: rw_inv_def owner_inv_def)
    then show ?thesis
      using Some True by (cases "acquired s") (auto dest!: next_opD intro: rw_step.unlock rw_step.acquire)
  next
    case None
    obtain x q where x: "progs s ! j = x # q" using assms(3) by (cases "progs s ! j") auto
    have "x \<noteq> Unlock" using assms(1,2) None x by (auto simp: rw_inv_def owner_inv_def)
    moreover have "x \<noteq> RUnlock" using assms(1,2) True x by (auto simp: rw_inv_def reading_def)
    ultimately show ?thesis using assms(2) None x
      by (cases x) (auto intro: rw_step.rlock rw_step.announce)
  qed
qed

text \<open>A measure that every step decreases: operations left, with the announcement of a writer.\<close>

definition work :: "rw_system \<Rightarrow> nat" where
  "work s = 2 * sum_list (map length (progs s)) + (if announced s = None then 1 else 0)"

lemma sum_update: "i < length ps \<Longrightarrow> ps ! i = x # ops \<Longrightarrow>
    Suc (sum_list (map length (ps[i := ops]))) = sum_list (map length ps)"
  by (induction ps arbitrary: i) (auto split: nat.splits)

lemma work_decreases: "rw_step s t \<Longrightarrow> work t < work s"
  by (induction rule: rw_step.induct) (auto simp: work_def dest: sum_update)

lemma rw_step_active: "rw_step s t \<Longrightarrow> \<exists>i < length (progs s). progs s ! i \<noteq> []"
  by (induction rule: rw_step.induct) auto

lemma rw_step_wf: "wfp rw_step\<inverse>\<inverse>"
proof -
  have "wfp (\<lambda>t s. work t < work s)" by (rule wfp_if_convertible_to_nat [where f = work]) simp
  then show ?thesis by (rule wfp_subset) (auto dest: work_decreases)
qed

lemma flat_calls: "flat (concat (map handler_ops cs))"
  by (rule flat_concat) (auto simp: flat_handler)

lemma start_calls_inv: "rw_inv (start_rw (map (\<lambda>cs. concat (map handler_ops cs)) calls))"
  by (rule rw_inv_start) (auto simp: flat_calls)

text \<open>
  C13: As long as no metrics are collected, the handlers never block each other for good: with
  any number of goroutines, each serving any sequence of publish, unpublish and statistics
  calls, every run is finite and only ends when all of them have returned; and a writer
  never overlaps with readers.
\<close>

theorem handlers_never_deadlock:
  assumes "rw_steps (start_rw (map (\<lambda>cs. concat (map handler_ops cs)) calls)) s"
  shows "wfp rw_step\<inverse>\<inverse> \<and> ((\<nexists>t. rw_step s t) \<longleftrightarrow> (\<forall>p \<in> set (progs s). p = []))
    \<and> (acquired s \<longrightarrow> readers s = 0)"
proof -
  have inv: "rw_inv s" using rw_inv_steps [OF assms start_calls_inv] .
  have "\<nexists>t. rw_step s t" if "\<forall>p \<in> set (progs s). p = []"
    using that rw_step_active by (metis nth_mem)
  moreover have "\<forall>p \<in> set (progs s). p = []" if "\<nexists>t. rw_step s t"
    using rw_progress [OF inv] that by (metis in_set_conv_nth)
  moreover have "acquired s \<longrightarrow> readers s = 0" using inv unfolding rw_inv_def owner_inv_def by blast
  ultimately show ?thesis using rw_step_wf by blast
qed

theorem handlers_never_deadlock_witness:
  "\<exists>t. rw_step (start_rw [handler_ops (Publish True), handler_ops (Unpublish True)]) t"
proof -
  let ?s = "start_rw (map (\<lambda>cs. concat (map handler_ops cs)) [[Publish True], [Unpublish True]])"
  have "\<exists>p \<in> set (progs ?s). p \<noteq> []" by (simp add: start_rw_def setMountContext_ops_def)
  then have "\<exists>t. rw_step ?s t" using handlers_never_deadlock [of "[[Publish True], [Unpublish True]]" ?s] by blast
  then show ?thesis by simp
qed

section \<open>A collection can block the driver for good\<close>

lemma concat_health:
  "True \<in> set mounts \<Longrightarrow> \<exists>q. concat (map isMountHealthy_ops mounts) = RLock # q"
  by (induction mounts) (auto simp: isMountHealthy_ops_def getMountContext_ops_def)

lemma flat_blocked:
  "flat p \<Longrightarrow> p = [] \<or> (\<exists>q. p = RLock # q \<or> p = Lock # q)"
  by (cases p rule: flat.cases) simp_all

text \<open>
  C19: The collection of metrics holds the mutex for reading while the health check takes it for
  reading again.  With one readable mount, a publish call that stores its context between the
  two makes a state in which the collection waits for the publish call and the publish call for
  the collection; every other call that needs the mutex waits as well, for good.
\<close>

theorem scrape_deadlocks_driver:
  assumes "True \<in> set mounts"
  shows "\<exists>s. rw_steps (start_rw ([collectVFSMetrics_ops mounts, handler_ops (Publish True)]
        @ map (\<lambda>cs. concat (map handler_ops cs)) calls)) s
    \<and> (\<nexists>t. rw_step s t)
    \<and> progs s ! 0 \<noteq> [] \<and> progs s ! 1 = handler_ops (Publish True)
    \<and> drop 2 (progs s) = map (\<lambda>cs. concat (map handler_ops cs)) calls"
proof -
  let ?others = "map (\<lambda>cs. concat (map handler_ops cs)) calls"
  obtain q where q: "concat (map isMountHealthy_ops mounts) = RLock # q" using concat_health [OF assms] by blast
  let ?s0 = "start_rw ([collectVFSMetrics_ops mounts, handler_ops (Publish True)] @ ?others)"
  let ?s1 = "\<lparr>readers = 1, announced = None, acquired = False,
     progs = [RLock # q @ [RUnlock], [Lock, Unlock]] @ ?others\<rparr>"
  let ?s2 = "?s1\<lparr>announced := Some 1\<rparr>"
  have "rw_step ?s0 ?s1"
    using rw_step.rlock [of 0 ?s0 "RLock # q @ [RUnlock]"]
    by (simp add: start_rw_def collectVFSMetrics_ops_def q setMountContext_ops_def)
  moreover have "rw_step ?s1 ?s2" by (rule rw_step.announce [of 1 _ "[Unlock]"]) simp_all
  moreover have "\<not> rw_step ?s2 t" for t
  proof
    have others: "progs ?s2 ! i = [] \<or> (\<exists>p. progs ?s2 ! i = RLock # p \<or> progs ?s2 ! i = Lock # p)"
      if "i < length (progs ?s2)" for i
      using that flat_blocked [OF flat_calls] by (cases i) (auto simp: nth_append nth_Cons split: nat.splits)
    assume "rw_step ?s2 t"
    then show False by (cases rule: rw_step.cases) (use others in fastforce)+
  qed
  ultimately show ?thesis
    by (intro exI [of _ ?s2]) (auto simp: setMountContext_ops_def intro: converse_rtranclp_into_rtranclp)
qed

theorem scrape_deadlocks_driver_witness:
  "\<exists>s. rw_steps (start_rw [collectVFSMetrics_ops [True], handler_ops (Publish True), handler_ops (Unpublish True)]) s
     \<and> (\<nexists>t. rw_step s t) \<and> progs s ! 0 \<noteq> []"
  using scrape_deadlocks_driver [of "[True]" "[[Unpublish True]]"] by auto

end
