(* ===== verification/Monitor.thy ===== *)
theory Monitor
  imports Go_Prelude
begin

text \<open>
  Methods that run under a mutex (\<open>sync.Mutex\<close>), with any number of callers whose single steps
  interleave.  A caller waits outside, takes the mutex in a turn of its own when it is free, makes
  one step of its method in each later turn, and gives the mutex back when it returns.
  The locale \<open>monitor\<close> shows once that such callers are served one after the other.
\<close>

section \<open>Callers and the mutex\<close>

datatype ('l, 'r) caller = Outside 'l | Inside 'l | Returned 'r

record ('l, 'r, 's) monitor_state =
  owner :: "nat option"
  callers :: "('l, 'r) caller list"
  shared :: 's

type_synonym ('l, 'r, 's) micro_step = "'l \<Rightarrow> 's \<Rightarrow> ('l \<times> 's) + 'r"

text \<open>A turn of a caller: a blocked or returned one does nothing.\<close>

definition monitor_turn ::
    "('l, 'r, 's) micro_step \<Rightarrow> nat \<Rightarrow> ('l, 'r, 's) monitor_state \<Rightarrow> ('l, 'r, 's) monitor_state" where
  "monitor_turn step i m =
     (if i < length (callers m)
      then (case callers m ! i of
              Outside l \<Rightarrow> (case owner m of
                  None \<Rightarrow> m\<lparr>owner := Some i, callers := (callers m)[i := Inside l]\<rparr>
                | Some j \<Rightarrow> m)
            | Inside l \<Rightarrow> (case step l (shared m) of
                  Inl (l2, s) \<Rightarrow> m\<lparr>callers := (callers m)[i := Inside l2], shared := s\<rparr>
                | Inr r \<Rightarrow> m\<lparr>owner := None, callers := (callers m)[i := Returned r]\<rparr>)
            | Returned r \<Rightarrow> m)
      else m)"

definition monitor_run ::
    "('l, 'r, 's) micro_step \<Rightarrow> nat list \<Rightarrow> ('l, 'r, 's) monitor_state \<Rightarrow> ('l, 'r, 's) monitor_state" where
  "monitor_run step is m = fold (monitor_turn step) is m"

lemma monitor_run_simps [simp]:
  "monitor_run step [] m = m"
  "monitor_run step (i # is) m = monitor_run step is (monitor_turn step i m)"
  "monitor_run step (is @ js) m = monitor_run step js (monitor_run step is m)"
  by (simp_all add: monitor_run_def)

text \<open>Some methods return before they take the mutex.\<close>

fun entry_caller :: "'l + 'r \<Rightarrow> ('l, 'r) caller" where
  "entry_caller (Inl l) = Outside l"
| "entry_caller (Inr r) = Returned r"

definition start_monitor :: "('j \<Rightarrow> 'l + 'r) \<Rightarrow> 'j list \<Rightarrow> 's \<Rightarrow> ('l, 'r, 's) monitor_state" where
  "start_monitor entry js s = \<lparr>owner = None, callers = List.map (\<lambda>j. entry_caller (entry j)) js, shared = s\<rparr>"

text \<open>The same calls as whole methods, one after the other in a given order.\<close>

fun serial :: "('j \<Rightarrow> 's \<Rightarrow> 'r \<times> 's) \<Rightarrow> 'j list \<Rightarrow> nat list \<Rightarrow> 's \<Rightarrow> 'r list \<times> 's" where
  "serial whole js [] s = ([], s)"
| "serial whole js (i # is) s =
     (let (r, t) = whole (js ! i) s; (rs, u) = serial whole js is t in (r # rs, u))"

lemma serial_snoc:
  "serial whole js (is @ [i]) s =
     (let (rs, t) = serial whole js is s; (r, u) = whole (js ! i) t in (rs @ [r], u))"
  by (induction "is" arbitrary: s) (simp_all add: Let_def split: prod.splits)

definition returned :: "('l, 'r, 's) monitor_state \<Rightarrow> nat \<Rightarrow> bool" where
  "returned m i \<longleftrightarrow> i < length (callers m) \<and> (case callers m ! i of Returned r \<Rightarrow> True | _ \<Rightarrow> False)"

lemma returned_iff: "returned m i \<longleftrightarrow> i < length (callers m) \<and> (\<exists>r. callers m ! i = Returned r)"
  by (auto simp: returned_def split: caller.splits)

section \<open>Invariants of the shared state\<close>

text \<open>What every step keeps, from points with some property, holds at every moment in between.\<close>

definition caller_point :: "('l \<Rightarrow> bool) \<Rightarrow> ('l, 'r) caller \<Rightarrow> bool" where
  "caller_point Q c = (case c of Outside l \<Rightarrow> Q l | Inside l \<Rightarrow> Q l | Returned r \<Rightarrow> True)"

lemma monitor_turn_invariant:
  assumes "P (shared m)" and "\<forall>c \<in> set (callers m). caller_point Q c"
    and step: "\<And>l s l2 t. Q l \<Longrightarrow> P s \<Longrightarrow> step l s = Inl (l2, t) \<Longrightarrow> Q l2 \<and> P t"
  shows "P (shared (monitor_turn step i m)) \<and> (\<forall>c \<in> set (callers (monitor_turn step i m)). caller_point Q c)"
proof (cases "i < length (callers m)")
  case True
  then have c: "caller_point Q (callers m ! i)" using assms(2) by simp
  have upd: "\<forall>x \<in> set ((callers m)[i := y]). caller_point Q x" if "caller_point Q y" for y
    using that assms(2) set_update_subset_insert [of "callers m" i y] by blast
  show ?thesis
  proof (cases "callers m ! i")
    case (Outside l)
    then show ?thesis
      using True assms(1,2) c upd [of "Inside l"] by (simp add: monitor_turn_def caller_point_def split: option.split)
  next
    case (Inside l)
    then have Q: "Q l" using c by (simp add: caller_point_def)
    show ?thesis
    proof (cases "step l (shared m)")
      case (Inl x)
      obtain l2 t where x: "x = (l2, t)" by (cases x)
      show ?thesis
        using True Inside Inl x step [OF Q assms(1) Inl [unfolded x]] upd [of "Inside l2"]
        by (simp add: monitor_turn_def caller_point_def)
    next
      case (Inr r)
      show ?thesis using True Inside Inr assms(1) upd [of "Returned r"] by (simp add: monitor_turn_def caller_point_def)
    qed
  next
    case (Returned r)
    then show ?thesis using True assms(1,2) by (simp add: monitor_turn_def)
  qed
qed (use assms(1,2) in \<open>simp add: monitor_turn_def\<close>)

lemma monitor_run_invariant:
  assumes "P (shared m)" and "\<forall>c \<in> set (callers m). caller_point Q c"
    and "\<And>l s l2 t. Q l \<Longrightarrow> P s \<Longrightarrow> step l s = Inl (l2, t) \<Longrightarrow> Q l2 \<and> P t"
  shows "P (shared (monitor_run step is m))"
  using assms(1,2)
proof (induction "is" arbitrary: m)
  case (Cons i "is")
  from monitor_turn_invariant [of P m Q step i, OF Cons.prems assms(3)] Cons.IH show ?case by simp
qed simp

section \<open>One after the other\<close>

text \<open>
  The contract between a method and its steps: running the rest of a method is making its next
  step and running what is left then, and something gets less with every step.
\<close>

locale monitor =
  fixes entry :: "'j \<Rightarrow> 'l + 'r"
    and step :: "'l \<Rightarrow> 's \<Rightarrow> ('l \<times> 's) + 'r"
    and rest :: "'l \<Rightarrow> 's \<Rightarrow> 'r \<times> 's"
    and whole :: "'j \<Rightarrow> 's \<Rightarrow> 'r \<times> 's"
    and left :: "'l \<Rightarrow> nat"
  assumes entry_rest: "entry j = Inl l \<Longrightarrow> whole j s = rest l s"
    and entry_done: "entry j = Inr r \<Longrightarrow> whole j s = (r, s)"
    and step_rest: "step l s = Inl (l2, t) \<Longrightarrow> rest l s = rest l2 t"
    and step_done: "step l s = Inr r \<Longrightarrow> rest l s = (r, s)"
    and step_left: "step l s = Inl (l2, t) \<Longrightarrow> left l2 < left l"
begin

definition position :: "'j list \<Rightarrow> nat list \<Rightarrow> ('l, 'r, 's) monitor_state \<Rightarrow> nat \<Rightarrow> bool" where
  "position js order m i \<longleftrightarrow>
     (case callers m ! i of
        Outside l \<Rightarrow> i \<notin> set order \<and> owner m \<noteq> Some i \<and> entry (js ! i) = Inl l
      | Inside l \<Rightarrow> i \<notin> set order \<and> owner m = Some i
      | Returned r \<Rightarrow> i \<in> set order \<and> owner m \<noteq> Some i)"

text \<open>
  The invariant: the callers in \<open>order\<close> have returned what they return when they run whole and in
  this order, and the owner is on its way from the state that they leave.
\<close>

definition served :: "'j list \<Rightarrow> 's \<Rightarrow> nat list \<Rightarrow> ('l, 'r, 's) monitor_state \<Rightarrow> bool" where
  "served js s0 order m \<longleftrightarrow>
     length (callers m) = length js \<and> distinct order \<and> set order \<subseteq> {..<length js}
     \<and> (\<forall>i < length js. position js order m i)
     \<and> List.map Returned (fst (serial whole js order s0)) = List.map ((!) (callers m)) order
     \<and> (case owner m of
          None \<Rightarrow> shared m = snd (serial whole js order s0)
        | Some i \<Rightarrow> i < length js \<and> (\<exists>l. callers m ! i = Inside l
            \<and> whole (js ! i) (snd (serial whole js order s0)) = rest l (shared m)))"

lemma served_callers: "served js s0 order m \<Longrightarrow> i < length js \<Longrightarrow> position js order m i"
  by (simp add: served_def)

lemma position_other:
  "position js order m j \<Longrightarrow> callers m2 ! j = callers m ! j \<Longrightarrow> (j \<in> set order2 \<longleftrightarrow> j \<in> set order)
    \<Longrightarrow> (owner m2 = Some j \<longleftrightarrow> owner m = Some j) \<Longrightarrow> position js order2 m2 j"
  by (simp add: position_def split: caller.splits)

text \<open>A turn changes one caller; the others stay where they are.\<close>

lemma served_update:
  assumes "served js s0 order m" and "i < length js" and "i \<notin> set order" and "owner m = None \<or> owner m = Some i"
    and m2: "m2 = m\<lparr>owner := own, callers := (callers m)[i := c], shared := t\<rparr>" and "own = None \<or> own = Some i"
    and "order2 = order \<and> (\<forall>r. c \<noteq> Returned r) \<or> order2 = order @ [i]
      \<and> (\<exists>r u. c = Returned r \<and> serial whole js order2 s0 = (fst (serial whole js order s0) @ [r], u))"
    and "position js order2 m2 i"
    and "case own of None \<Rightarrow> t = snd (serial whole js order2 s0)
        | Some k \<Rightarrow> \<exists>l. c = Inside l \<and> whole (js ! i) (snd (serial whole js order2 s0)) = rest l t"
  shows "served js s0 order2 m2"
proof -
  have len: "length (callers m) = length js" and old: "List.map Returned (fst (serial whole js order s0)) = List.map ((!) (callers m)) order"
    using assms(1) by (simp_all add: served_def)
  have "position js order2 m2 j" if "j < length js" for j
  proof (cases "j = i")
    case False
    show ?thesis
      by (rule position_other [OF served_callers [OF assms(1) that]]) (use False assms(4,6,7) m2 in auto)
  qed (use assms(8) in simp)
  moreover have "distinct order2" "set order2 \<subseteq> {..<length js}" using assms(1,2,3,7) by (auto simp: served_def)
  moreover have "List.map ((!) (callers m2)) order = List.map ((!) (callers m)) order"
    using assms(3) m2 by (intro list.map_cong) (auto intro!: nth_list_update_neq)
  then have "List.map Returned (fst (serial whole js order2 s0)) = List.map ((!) (callers m2)) order2"
    using assms(2,7) len old m2 by auto
  moreover have "case owner m2 of None \<Rightarrow> shared m2 = snd (serial whole js order2 s0)
        | Some k \<Rightarrow> k < length js \<and> (\<exists>l. callers m2 ! k = Inside l
            \<and> whole (js ! k) (snd (serial whole js order2 s0)) = rest l (shared m2))"
    using assms(2,6,9) len m2 by (auto split: option.splits)
  moreover have "length (callers m2) = length js" using len m2 by simp
  ultimately show ?thesis unfolding served_def by blast
qed

lemma served_turn:
  assumes "served js s0 order m"
  shows "\<exists>order2. served js s0 order2 (monitor_turn step i m)"
proof (cases "i < length (callers m)")
  case True
  with assms have i: "i < length js" by (simp add: served_def)
  note pos = served_callers [OF assms i] and update = served_update [OF assms i]
  show ?thesis
  proof (cases "callers m ! i")
    case (Outside l)
    with pos have o: "i \<notin> set order" and e: "entry (js ! i) = Inl l" by (simp_all add: position_def)
    show ?thesis
    proof (cases "owner m")
      case None
      then have sh: "shared m = snd (serial whole js order s0)" using assms by (simp add: served_def)
      let ?m = "m\<lparr>owner := Some i, callers := (callers m)[i := Inside l], shared := shared m\<rparr>"
      have "served js s0 order ?m"
        by (rule update [OF o _ refl]) (use True o None sh entry_rest [OF e] in \<open>simp_all add: position_def\<close>)
      then show ?thesis using True Outside None by (auto simp: monitor_turn_def)
    next
      case (Some k)
      then have "monitor_turn step i m = m" using True Outside by (simp add: monitor_turn_def)
      then show ?thesis using assms by auto
    qed
  next
    case (Inside l)
    with pos have o: "owner m = Some i" "i \<notin> set order" by (simp_all add: position_def)
    with assms Inside have run: "whole (js ! i) (snd (serial whole js order s0)) = rest l (shared m)"
      by (simp add: served_def)
    show ?thesis
    proof (cases "step l (shared m)")
      case (Inl x)
      obtain l2 t where x: "x = (l2, t)" by (cases x)
      let ?m = "m\<lparr>owner := owner m, callers := (callers m)[i := Inside l2], shared := t\<rparr>"
      have "served js s0 order ?m"
        by (rule update [OF o(2) _ refl])
          (use True o run step_rest [OF Inl [unfolded x]] in \<open>simp_all add: position_def\<close>)
      then show ?thesis using True Inside Inl x by (auto simp: monitor_turn_def)
    next
      case (Inr r)
      let ?m = "m\<lparr>owner := None, callers := (callers m)[i := Returned r], shared := shared m\<rparr>"
      have ran: "serial whole js (order @ [i]) s0 = (fst (serial whole js order s0) @ [r], shared m)"
        using run step_done [OF Inr] by (cases "serial whole js order s0") (simp add: serial_snoc Let_def)
      have "served js s0 (order @ [i]) ?m"
        by (rule update [OF o(2) _ refl]) (use True o ran in \<open>simp_all add: position_def\<close>)
      then show ?thesis using True Inside Inr by (auto simp: monitor_turn_def)
    qed
  next
    case (Returned r)
    then have "monitor_turn step i m = m" using True by (simp add: monitor_turn_def)
    then show ?thesis using assms by auto
  qed
next
  case False
  then have "monitor_turn step i m = m" by (simp add: monitor_turn_def)
  then show ?thesis using assms by auto
qed

lemma serial_done:
  "\<forall>i \<in> set is. entry (js ! i) = Inr (f i) \<Longrightarrow> serial whole js is s = (List.map f is, s)"
  by (induction "is") (simp_all add: entry_done)

lemma served_start: "\<exists>order. served js s (order) (start_monitor entry js s)"
proof -
  define order where "order = filter (\<lambda>i. \<exists>r. entry (js ! i) = Inr r) [0..<length js]"
  have "\<forall>i \<in> set order. entry (js ! i) = Inr (projr (entry (js ! i)))" by (auto simp: order_def)
  note ran = serial_done [OF this, of s]
  have "position js order (start_monitor entry js s) i" if "i < length js" for i
    using that by (cases "entry (js ! i)") (auto simp: position_def start_monitor_def order_def)
  moreover have "Returned (projr (entry (js ! i))) = callers (start_monitor entry js s) ! i" if "i \<in> set order" for i
    using that by (auto simp: order_def start_monitor_def)
  ultimately have "served js s order (start_monitor entry js s)"
    unfolding served_def ran by (auto simp: start_monitor_def order_def)
  then show ?thesis by blast
qed

lemma served_run: "served js s0 order m \<Longrightarrow> \<exists>order2. served js s0 order2 (monitor_run step is m)"
proof (induction "is" arbitrary: order m)
  case (Cons i "is")
  from served_turn [OF Cons.prems, of i] Cons.IH show ?case by auto
qed auto

lemma run_served:
  assumes "m = monitor_run step is (start_monitor entry js s)"
  obtains order where "served js s order m"
  using served_start [of js s] served_run assms by blast

text \<open>
  Serialisability: whatever the interleaving, the callers that have returned answer what they answer
  when they run whole in some order, and a free mutex guards the state that they leave then.
\<close>

lemma serialised:
  assumes "m = monitor_run step is (start_monitor entry js s)"
  obtains order where "distinct order" and "set order = {i. returned m i}"
    and "List.map Returned (fst (serial whole js order s)) = List.map ((!) (callers m)) order"
    and "owner m = None \<longrightarrow> shared m = snd (serial whole js order s)"
proof -
  from assms obtain order where served: "served js s order m" by (rule run_served)
  then have len: "length (callers m) = length js" and sub: "set order \<subseteq> {..<length js}" by (simp_all add: served_def)
  have "i \<in> set order \<longleftrightarrow> returned m i" for i
  proof (cases "i < length js")
    case True
    from served_callers [OF served this] show ?thesis
      using True len by (auto simp: position_def returned_iff split: caller.splits)
  qed (use len sub in \<open>auto simp: returned_iff\<close>)
  then have "set order = {i. returned m i}" by auto
  then show thesis using served by (intro that) (auto simp: served_def)
qed

lemma all_returned:
  assumes "m = monitor_run step is (start_monitor entry js s)" and "\<forall>i < length js. returned m i"
  shows "{i. returned m i} = {..<length js}" and "owner m = None"
proof -
  from assms(1) obtain order where served: "served js s order m" by (rule run_served)
  then have "length (callers m) = length js" by (simp add: served_def)
  with assms(2) show "{i. returned m i} = {..<length js}" by (auto simp: returned_iff)
  show "owner m = None"
    using served assms(2) by (cases "owner m") (auto simp: served_def returned_iff)
qed

section \<open>Everybody returns\<close>

lemma finish_owner:
  assumes "i < length (callers m)" and "callers m ! i = Inside l"
  shows "\<exists>n r t. monitor_run step (replicate n i) m
    = m\<lparr>owner := None, callers := (callers m)[i := Returned r], shared := t\<rparr>"
  using assms
proof (induction "left l" arbitrary: l m rule: less_induct)
  case less
  show ?case
  proof (cases "step l (shared m)")
    case (Inl x)
    obtain l2 t where x: "x = (l2, t)" by (cases x)
    let ?m = "m\<lparr>callers := (callers m)[i := Inside l2], shared := t\<rparr>"
    from less.hyps [OF step_left [OF Inl [unfolded x]], of ?m] less.prems obtain n r u where
      "monitor_run step (replicate n i) ?m = ?m\<lparr>owner := None, callers := (callers ?m)[i := Returned r], shared := u\<rparr>"
      by auto
    moreover have "monitor_turn step i m = ?m" using less.prems Inl x by (simp add: monitor_turn_def)
    ultimately have "monitor_run step (replicate (Suc n) i) m
        = m\<lparr>owner := None, callers := (callers m)[i := Returned r], shared := u\<rparr>" by simp
    then show ?thesis by blast
  next
    case (Inr r)
    with less.prems have "monitor_run step (replicate 1 i) m
        = m\<lparr>owner := None, callers := (callers m)[i := Returned r], shared := shared m\<rparr>"
      by (simp add: monitor_turn_def)
    then show ?thesis by blast
  qed
qed

definition waiting :: "('l, 'r, 's) monitor_state \<Rightarrow> nat set" where
  "waiting m = {i. i < length (callers m) \<and> \<not> returned m i}"

lemma finish_all:
  assumes "served js s order m"
  shows "\<exists>is. waiting (monitor_run step is m) = {} \<and> owner (monitor_run step is m) = None"
  using assms
proof (induction "card (waiting m)" arbitrary: m order rule: less_induct)
  case less
  have fin: "finite (waiting m)" by (simp add: waiting_def)
  have serve: "\<exists>is. waiting (monitor_run step is m) = {} \<and> owner (monitor_run step is m) = None"
    if "i \<in> waiting m" and "m2 = monitor_run step js2 m" and "i < length (callers m2)" "callers m2 ! i = Inside l"
      and same: "waiting m2 = waiting m" for i m2 js2 l
  proof -
    from finish_owner [OF that(3,4)] obtain n r t where
      n: "monitor_run step (replicate n i) m2 = m2\<lparr>owner := None, callers := (callers m2)[i := Returned r], shared := t\<rparr>"
      (is "_ = ?m3") by blast
    have "waiting ?m3 = waiting m - {i}"
      unfolding same [symmetric] using that(3) by (auto simp: waiting_def returned_iff nth_list_update split: if_splits)
    then have less3: "card (waiting ?m3) < card (waiting m)" using that(1) fin by (simp only: card_Diff1_less)
    have m3: "?m3 = monitor_run step (js2 @ replicate n i) m" using n that(2) by simp
    obtain order3 where "served js s order3 ?m3" unfolding m3 using served_run [OF less.prems] by blast
    from less.hyps [OF less3 this] obtain is3 where
      "waiting (monitor_run step is3 ?m3) = {} \<and> owner (monitor_run step is3 ?m3) = None" by blast
    then have "waiting (monitor_run step ((js2 @ replicate n i) @ is3) m) = {}
        \<and> owner (monitor_run step ((js2 @ replicate n i) @ is3) m) = None" unfolding m3 by simp
    then show ?thesis by blast
  qed
  show ?case
  proof (cases "owner m")
    case (Some i)
    with less.prems obtain l where "i < length (callers m)" "callers m ! i = Inside l" by (auto simp: served_def)
    then show ?thesis by (intro serve [of i m "[]" l]) (auto simp: waiting_def returned_iff)
  next
    case None
    show ?thesis
    proof (cases "waiting m = {}")
      case False
      then obtain i where i: "i \<in> waiting m" by blast
      then have l: "i < length (callers m)" "i < length js" using less.prems by (simp_all add: waiting_def served_def)
      from served_callers [OF less.prems l(2)] i None obtain x where x: "callers m ! i = Outside x"
        by (auto simp: position_def waiting_def returned_iff split: caller.splits)
      have turn: "monitor_run step [i] m = m\<lparr>owner := Some i, callers := (callers m)[i := Inside x]\<rparr>"
        using l x None by (simp add: monitor_turn_def)
      show ?thesis
        by (rule serve [OF i turn [symmetric], of x])
          (use l x in \<open>auto simp: waiting_def returned_iff nth_list_update split: if_splits\<close>)
    qed (use None in \<open>auto intro!: exI [of _ "[]"]\<close>)
  qed
qed

text \<open>No caller is kept out for good: from every point on, all can return.\<close>

lemma all_return:
  assumes "m = monitor_run step is (start_monitor entry js s)"
  shows "\<exists>more. (\<forall>i < length js. returned (monitor_run step more m) i) \<and> owner (monitor_run step more m) = None"
proof -
  from assms obtain order where served: "served js s order m" by (rule run_served)
  from finish_all [OF this] obtain more where
    more: "waiting (monitor_run step more m) = {}" "owner (monitor_run step more m) = None" by blast
  moreover obtain order2 where "served js s order2 (monitor_run step more m)" using served_run [OF served] by blast
  then have "length (callers (monitor_run step more m)) = length js" by (simp add: served_def)
  ultimately show ?thesis by (auto simp: waiting_def)
qed

end

end
