(* ===== verification/Config_Mutex.thy ===== *)
theory Config_Mutex
  imports Monitor Config_Load
begin

text \<open>
  The mutex \<open>configMu\<close> of the node server (\<open>pkg/rclone/nodeserver.go\<close>): \<open>loadRcloneConfig\<close>, \<open>cleanupConfigRemotes\<close>
  and the clean-up in \<open>unmountVolume\<close> write rclone's configuration under it, entry by entry.  The other
  theories take each of them as one step; here this is shown.  A call of \<open>config.UpdateRemote\<close>
  is one step: nothing else writes while the mutex is held.
\<close>

section \<open>The critical sections in steps\<close>

datatype config_call =
    LoadCall "params \<Rightarrow> params" "(string, params) gomap \<Rightarrow> (string, params) gomap" publish_volume_params
  | CleanCall "string list"

text \<open>
  The points of the nested loops: before the next remote, before the next key of a remote, before the
  update that follows the key \<open>type\<close>; and before the next deletion.
\<close>

datatype config_point =
    NextRemote "params \<Rightarrow> params" params "string list" "(string, params) gomap"
  | NextKey "params \<Rightarrow> params" params "string list" string params "(string, params) gomap"
  | NextUpdate "params \<Rightarrow> params" params "string list" string params params "(string, params) gomap"
  | NextDelete "string list"
  | Leaving "string list outcome"

fun config_entry :: "'w host \<Rightarrow> config_call \<Rightarrow> config_point + string list outcome" where
  "config_entry h (LoadCall rng rngs pvp) =
     (if configData pvp = '''' then Inr (Reply [])
      else case parseAllConfigRemotes (h_fuel h) (configData pvp) of
        None \<Rightarrow> Inr (Panicked ''stack overflow'')
      | Some (Inl err) \<Rightarrow> Inr (Failed (StatusError InvalidArgument (''failed to parse configData: '' @ err)))
      | Some (Inr allRemotes) \<Rightarrow> Inl (NextRemote rng (pvp_params pvp) [] (rngs allRemotes)))"
| "config_entry h (CleanCall remotes) = (if remotes = [] then Inr (Reply []) else Inl (NextDelete remotes))"

fun config_step ::
    "'w host \<Rightarrow> config_point \<Rightarrow> 'w node_state \<Rightarrow> (config_point \<times> 'w node_state) + string list outcome" where
  "config_step h (NextRemote rng p remotes []) s = Inr (Reply remotes)"
| "config_step h (NextRemote rng p remotes ((name, remoteData) # rs)) s =
     Inl (NextKey rng p remotes name (rng remoteData) rs, s)"
| "config_step h (NextKey rng p remotes name [] rs) s = Inl (NextRemote rng p (remotes @ [name]) rs, s)"
| "config_step h (NextKey rng p remotes name ((key, val) # es) rs) s =
     Inl (let remoteParams = extractRemoteTypeParams (rng p) val in
          if key = ''type'' \<and> p \<noteq> [] \<and> remoteParams \<noteq> []
          then NextUpdate rng p remotes name remoteParams es rs
          else NextKey rng p remotes name es rs,
          s\<lparr>storage := SetSectionValue (storage s) name key val\<rparr>)"
| "config_step h (NextUpdate rng p remotes name remoteParams es rs) s =
     (case run_state (UpdateRemote h name remoteParams) s of
        (Some e, t) \<Rightarrow> Inl (Leaving (Failed (StatusError Internal (''failed to update remote: '' @ e))), t)
      | (None, t) \<Rightarrow> Inl (NextKey rng p remotes name es rs, t))"
| "config_step h (NextDelete []) s = Inr (Reply [])"
| "config_step h (NextDelete (name # ns)) s = Inl (NextDelete ns, s\<lparr>storage := DeleteSection (storage s) name\<rparr>)"
| "config_step h (Leaving r) s = Inr r"

text \<open>The same calls as whole functions of the source.\<close>

fun config_method :: "'w host \<Rightarrow> config_call \<Rightarrow> 'w node_state \<Rightarrow> string list outcome \<times> 'w node_state" where
  "config_method h (LoadCall rng rngs pvp) s = run_state (loadRcloneConfig h rng rngs pvp) s"
| "config_method h (CleanCall remotes) s = (Reply [], snd (run_state (cleanupConfigRemotes remotes) s))"

section \<open>The steps make up the functions\<close>

definition load_answer :: "(go_error + string list) \<times> 'w node_state \<Rightarrow> string list outcome \<times> 'w node_state" where
  "load_answer x = (case fst x of Inl e \<Rightarrow> Failed e | Inr remotes \<Rightarrow> Reply remotes, snd x)"

lemma load_answer_simps [simp]:
  "load_answer (Inl e, s) = (Failed e, s)" "load_answer (Inr remotes, s) = (Reply remotes, s)"
  by (simp_all add: load_answer_def)

definition keys_then_remotes ::
    "'w host \<Rightarrow> (params \<Rightarrow> params) \<Rightarrow> params \<Rightarrow> string list \<Rightarrow> string \<Rightarrow> params \<Rightarrow> (string, params) gomap
       \<Rightarrow> ('w, go_error + string list) node_prog" where
  "keys_then_remotes h rng p remotes name es rs = do {
     r \<leftarrow> load_keys h rng p name es;
     case r of Some e \<Rightarrow> return (Inl e) | None \<Rightarrow> load_remotes h rng p (remotes @ [name]) rs }"

fun config_rest :: "'w host \<Rightarrow> config_point \<Rightarrow> 'w node_state \<Rightarrow> string list outcome \<times> 'w node_state" where
  "config_rest h (NextRemote rng p remotes rs) s = load_answer (run_state (load_remotes h rng p remotes rs) s)"
| "config_rest h (NextKey rng p remotes name es rs) s =
     load_answer (run_state (keys_then_remotes h rng p remotes name es rs) s)"
| "config_rest h (NextUpdate rng p remotes name remoteParams es rs) s =
     (case run_state (UpdateRemote h name remoteParams) s of
        (Some e, t) \<Rightarrow> (Failed (StatusError Internal (''failed to update remote: '' @ e)), t)
      | (None, t) \<Rightarrow> load_answer (run_state (keys_then_remotes h rng p remotes name es rs) t))"
| "config_rest h (NextDelete ns) s =
     (Reply [], s\<lparr>storage := fold (\<lambda>name st. DeleteSection st name) ns (storage s)\<rparr>)"
| "config_rest h (Leaving r) s = (r, s)"

fun config_left :: "config_point \<Rightarrow> nat" where
  "config_left (NextRemote rng p remotes rs) = (\<Sum>(n, d) \<leftarrow> rs. 2 * length (rng d) + 2)"
| "config_left (NextKey rng p remotes name es rs) = 2 * length es + 1 + (\<Sum>(n, d) \<leftarrow> rs. 2 * length (rng d) + 2)"
| "config_left (NextUpdate rng p remotes name rp es rs) = 2 * length es + 2 + (\<Sum>(n, d) \<leftarrow> rs. 2 * length (rng d) + 2)"
| "config_left (NextDelete ns) = length ns"
| "config_left (Leaving r) = 0"

lemma config_entry_rest: "config_entry h j = Inl l \<Longrightarrow> config_method h j s = config_rest h l s"
  by (cases j) (auto simp: loadRcloneConfig_def cleanupConfigRemotes_def load_answer_def
      split: if_splits option.splits sum.splits prod.splits)

lemma config_entry_done: "config_entry h j = Inr r \<Longrightarrow> config_method h j s = (r, s)"
  by (cases j) (auto simp: loadRcloneConfig_def cleanupConfigRemotes_def split: if_splits option.splits sum.splits)

lemma config_step_rest: "config_step h l s = Inl (l2, t) \<Longrightarrow> config_rest h l s = config_rest h l2 t"
  by (cases "(h, l, s)" rule: config_step.cases)
    (auto simp: keys_then_remotes_def Let_def split: prod.splits option.splits if_splits)

lemma config_step_done: "config_step h l s = Inr r \<Longrightarrow> config_rest h l s = (r, s)"
  by (cases "(h, l, s)" rule: config_step.cases) (auto simp: load_answer_def split: prod.splits option.splits)

lemma config_step_left: "config_step h l s = Inl (l2, t) \<Longrightarrow> config_left l2 < config_left l"
  by (cases "(h, l, s)" rule: config_step.cases) (auto simp: Let_def split: prod.splits option.splits if_splits)

interpretation cm: monitor "config_entry h" "config_step h" "config_rest h" "config_method h" config_left
  for h :: "'w host"
  by standard (fact config_entry_rest config_entry_done config_step_rest config_step_done config_step_left)+

section \<open>Loads and clean-ups are one after the other\<close>

text \<open>
  C5: However the single writes of concurrent loads and clean-ups interleave, all of them can still
  return, and when they have, rclone's configuration and their answers are those of
  the same calls run whole, one after the other: no call sees or leaves half a remote of another.
\<close>

theorem config_calls_serialise:
  assumes "m = monitor_run (config_step h) is (start_monitor (config_entry h) js s)"
  shows "(\<exists>more. \<forall>i < length js. returned (monitor_run (config_step h) more m) i)
    \<and> ((\<forall>i < length js. returned m i) \<longrightarrow>
        (\<exists>order answers. distinct order \<and> set order = {..<length js}
          \<and> serial (config_method h) js order s = (answers, shared m)
          \<and> List.map Returned answers = List.map ((!) (callers m)) order))"
proof (intro conjI impI)
  show "\<exists>more. \<forall>i < length js. returned (monitor_run (config_step h) more m) i"
    using cm.all_return [OF assms] by blast
  assume all: "\<forall>i < length js. returned m i"
  obtain order where o: "distinct order" "set order = {i. returned m i}"
    "List.map Returned (fst (serial (config_method h) js order s)) = List.map ((!) (callers m)) order"
    "owner m = None \<longrightarrow> shared m = snd (serial (config_method h) js order s)"
    by (rule cm.serialised [OF assms])
  have "set order = {..<length js}" and "owner m = None"
    using cm.all_returned [OF assms all] o(2) by simp_all
  moreover from this(2) o(4) have "serial (config_method h) js order s = (fst (serial (config_method h) js order s), shared m)"
    by (simp add: prod_eq_iff)
  ultimately show "\<exists>order answers. distinct order \<and> set order = {..<length js}
      \<and> serial (config_method h) js order s = (answers, shared m)
      \<and> List.map Returned answers = List.map ((!) (callers m)) order"
    using o(1,3) by blast
qed

text \<open>A load and a clean-up of one of its remotes: the clean-up comes second, although it asks first.\<close>

definition sample_calls :: "config_call list" where
  "sample_calls = [LoadCall (\<lambda>m. m) (\<lambda>m. m) sample_pvp, CleanCall [''s3'']]"

definition sample_interleaving :: "nat list" where
  "sample_interleaving = [0, 1, 0, 0, 1, 0, 0, 0, 0, 1, 0, 0, 0, 1, 1, 1, 1]"

abbreviation sample_config_race :: "(config_point, string list outcome, sample_world node_state) monitor_state" where
  "sample_config_race \<equiv> monitor_run (config_step sample_host) sample_interleaving
     (start_monitor (config_entry sample_host) sample_calls (new_node_state sample_start))"

theorem config_calls_serialise_witness:
  "(\<exists>order answers. distinct order \<and> set order = {..<2}
      \<and> serial (config_method sample_host) sample_calls order (new_node_state sample_start)
          = (answers, shared sample_config_race))
   \<and> HasSection (storage (shared sample_config_race)) ''crypt''
   \<and> \<not> HasSection (storage (shared sample_config_race)) ''s3''"
proof -
  have "length sample_calls = 2" by (simp add: sample_calls_def)
  moreover have "returned sample_config_race 0" "returned sample_config_race 1" by code_simp+
  then have "\<forall>i < 2. returned sample_config_race i" by (simp add: less_2_cases_iff)
  moreover have "HasSection (storage (shared sample_config_race)) ''crypt''"
    "\<not> HasSection (storage (shared sample_config_race)) ''s3''" by code_simp+
  ultimately show ?thesis using config_calls_serialise
      [of _ sample_host sample_interleaving sample_calls "new_node_state sample_start", OF refl] by metis
qed

section \<open>What a reader sees in between\<close>

text \<open>
  Creating a file system reads the configuration without the mutex, possibly in the middle of a
  load of another request.  The sections that a call may still touch, from a point on:
\<close>

fun point_sections :: "config_point \<Rightarrow> string set" where
  "point_sections (NextRemote rng p remotes rs) = fst ` set rs"
| "point_sections (NextKey rng p remotes name es rs) = insert name (fst ` set rs)"
| "point_sections (NextUpdate rng p remotes name rp es rs) = insert name (fst ` set rs)"
| "point_sections (NextDelete ns) = set ns"
| "point_sections (Leaving r) = {}"

definition call_sections :: "'w host \<Rightarrow> config_call \<Rightarrow> string set" where
  "call_sections h j = (case config_entry h j of Inl l \<Rightarrow> point_sections l | Inr r \<Rightarrow> {})"

lemma config_step_sections:
  assumes "updates_own_section h" and "config_step h l s = Inl (l2, t)"
  shows "point_sections l2 \<subseteq> point_sections l \<and> same_outside (point_sections l) (storage s) (storage t)"
proof (cases "(h, l, s)" rule: config_step.cases)
  case (4 h' rng p remotes name key val es rs s')
  have "same_outside (point_sections l) (storage s) (SetSectionValue (storage s) name key val)"
    using 4 by (intro same_outside_set) simp
  then show ?thesis using assms(2) 4 by (auto simp: Let_def split: if_splits)
next
  case (5 h' rng p remotes name rp es rs s')
  obtain x u where u: "run_state (UpdateRemote h name rp) s = (x, u)" by (cases "run_state (UpdateRemote h name rp) s")
  from run_UpdateRemote(1) [OF assms(1) u] have "same_outside (point_sections l) (storage s) (storage u)"
    using 5 by (elim same_outside_mono) simp
  then show ?thesis using assms(2) 5 u by (cases x) auto
next
  case (7 h' name ns s')
  have "same_outside (point_sections l) (storage s) (DeleteSection (storage s) name)"
    using 7 by (intro same_outside_delete) simp
  then show ?thesis using assms(2) 7 by auto
qed (use assms(2) in auto)

text \<open>
  C22: At every moment of every interleaving of loads and clean-ups, half-done ones included, a remote that none
  of them names has exactly the section that it had before: a file system that is created
  meanwhile reads a complete configuration.
\<close>

theorem readers_undisturbed:
  assumes "updates_own_section h" and "m = monitor_run (config_step h) is (start_monitor (config_entry h) js s)"
    and "\<forall>j \<in> set js. n \<notin> call_sections h j"
  shows "HasSection (storage (shared m)) n = HasSection (storage s) n
    \<and> (\<forall>k. StoreValue (storage (shared m)) n k = StoreValue (storage s) n k)"
proof -
  let ?P = "\<lambda>u :: 'a node_state. same_outside (- {n}) (storage s) (storage u)"
  let ?Q = "\<lambda>l. n \<notin> point_sections l"
  have "?P (shared m)"
    unfolding assms(2)
  proof (rule monitor_run_invariant [where Q = ?Q])
    show "?P (shared (start_monitor (config_entry h) js s))" by (simp add: start_monitor_def)
    have "caller_point ?Q (entry_caller (config_entry h j))" if "j \<in> set js" for j
      using assms(3) that by (cases "config_entry h j") (auto simp: caller_point_def call_sections_def)
    then show "\<forall>c \<in> set (callers (start_monitor (config_entry h) js s)). caller_point ?Q c"
      by (auto simp: start_monitor_def)
    fix l u l2 t assume Q: "?Q l" and P: "?P u" and step: "config_step h l u = Inl (l2, t)"
    note e = config_step_sections [OF assms(1) step]
    have "same_outside (- {n}) (storage u) (storage t)" by (rule same_outside_mono [of "point_sections l"]) (use e Q in auto)
    then show "?Q l2 \<and> ?P t" using e Q same_outside_trans [OF P] by auto
  qed
  then show ?thesis by (simp add: same_outside_def)
qed

text \<open>In the middle of the sample load, another remote.\<close>

theorem readers_undisturbed_witness:
  "let s = (new_node_state sample_start)\<lparr>storage := SetSectionValue newDefaultStorage ''gcs'' ''type'' ''gcs''\<rparr> in
   StoreValue (storage (shared (monitor_run (config_step sample_host) (take 6 sample_interleaving)
     (start_monitor (config_entry sample_host) sample_calls s)))) ''gcs'' ''type'' = Some ''gcs''"
proof -
  have "call_sections sample_host (LoadCall (\<lambda>m. m) (\<lambda>m. m) sample_pvp) = {''crypt'', ''s3''}"
    using sample_parse by (simp add: call_sections_def sample_remotes_def sample_pvp_def)
  moreover have "call_sections sample_host (CleanCall [''s3'']) = {''s3''}" by (simp add: call_sections_def)
  ultimately have "\<forall>j \<in> set sample_calls. ''gcs'' \<notin> call_sections sample_host j" by (simp add: sample_calls_def)
  from readers_undisturbed [OF sample_updates_own_section refl this] show ?thesis
    by (simp add: Let_def cs.look_upd)
qed

end
