(* ===== verification/Volume_Locks_Mutex.thy ===== *)
theory Volume_Locks_Mutex
  imports Monitor Volume_Locks
begin

text \<open>
  The methods \<open>TryAcquire\<close> and \<open>Release\<close> of \<open>pkg/rclone/utils.go\<close> in single steps under the mutex \<open>mux\<close> of
  the table.  The other theories take each of them as one step; here this is shown.
\<close>

section \<open>The methods in steps\<close>

datatype lock_call = AcquireCall string | ReleaseCall string

text \<open>The point in a method, and what it returns: whether the key was acquired, or nothing.\<close>

datatype lock_point = Testing string | Inserting string | Removing string | Finished "bool option"

fun lock_entry :: "lock_call \<Rightarrow> lock_point + bool option" where
  "lock_entry (AcquireCall k) = Inl (Testing k)"
| "lock_entry (ReleaseCall k) = Inl (Removing k)"

fun lock_step :: "lock_point \<Rightarrow> volume_locks \<Rightarrow> (lock_point \<times> volume_locks) + bool option" where
  "lock_step (Testing k) vl = Inl (if k \<in> locks vl then Finished (Some False) else Inserting k, vl)"
| "lock_step (Inserting k) vl = Inl (Finished (Some True), vl\<lparr>locks := insert k (locks vl)\<rparr>)"
| "lock_step (Removing k) vl = Inl (Finished None, vl\<lparr>locks := locks vl - {k}\<rparr>)"
| "lock_step (Finished r) vl = Inr r"

fun lock_method :: "lock_call \<Rightarrow> volume_locks \<Rightarrow> bool option \<times> volume_locks" where
  "lock_method (AcquireCall k) vl = (case TryAcquire vl k of (b, vl2) \<Rightarrow> (Some b, vl2))"
| "lock_method (ReleaseCall k) vl = (None, Release vl k)"

fun lock_rest :: "lock_point \<Rightarrow> volume_locks \<Rightarrow> bool option \<times> volume_locks" where
  "lock_rest (Testing k) vl = lock_method (AcquireCall k) vl"
| "lock_rest (Inserting k) vl = (Some True, vl\<lparr>locks := insert k (locks vl)\<rparr>)"
| "lock_rest (Removing k) vl = lock_method (ReleaseCall k) vl"
| "lock_rest (Finished r) vl = (r, vl)"

fun lock_left :: "lock_point \<Rightarrow> nat" where
  "lock_left (Testing k) = 2"
| "lock_left (Inserting k) = 1"
| "lock_left (Removing k) = 1"
| "lock_left (Finished r) = 0"

interpretation vm: monitor lock_entry lock_step lock_rest lock_method lock_left
proof
  show "lock_method j s = lock_rest l s" if "lock_entry j = Inl l" for j l s using that by (cases j) auto
  show "lock_method j s = (r, s)" if "lock_entry j = Inr r" for j r s using that by (cases j) auto
  show "lock_rest l s = lock_rest l2 t" if "lock_step l s = Inl (l2, t)" for l s l2 t
    using that by (cases l) (auto simp: TryAcquire_def Release_def split: if_splits)
  show "lock_rest l s = (r, s)" if "lock_step l s = Inr r" for l s r using that by (cases l) auto
  show "lock_left l2 < lock_left l" if "lock_step l s = Inl (l2, t)" for l s l2 t
    using that by (cases l) (auto split: if_splits)
qed

section \<open>One of many acquires\<close>

definition winners :: "string \<Rightarrow> lock_call list \<Rightarrow> (nat \<times> bool option) list \<Rightarrow> (nat \<times> bool option) list" where
  "winners k js irs = filter (\<lambda>(i, r). js ! i = AcquireCall k \<and> r = Some True) irs"

lemma serial_length: "length (fst (serial f js is s)) = length is"
  by (induction "is" arbitrary: s) (simp_all add: Let_def split: prod.splits, metis fst_conv)

lemma serial_winners:
  assumes "\<forall>i \<in> set is. js ! i \<noteq> ReleaseCall k"
  shows "length (winners k js (zip is (fst (serial lock_method js is vl))))
    = (if k \<notin> locks vl \<and> (\<exists>i \<in> set is. js ! i = AcquireCall k) then 1 else 0)"
  using assms
proof (induction "is" arbitrary: vl)
  case (Cons i "is")
  obtain r t where r: "lock_method (js ! i) vl = (r, t)" by (cases "lock_method (js ! i) vl")
  have "k \<in> locks t \<longleftrightarrow> k \<in> locks vl \<or> js ! i = AcquireCall k"
    and "js ! i = AcquireCall k \<Longrightarrow> r = Some (k \<notin> locks vl)"
    using r Cons.prems by (cases "js ! i"; auto simp: TryAcquire_def Release_def split: if_splits)+
  with Cons.IH [of t] Cons.prems r show ?case
    by (cases "serial lock_method js is t") (auto simp: winners_def Let_def split: if_splits)
qed (simp add: winners_def)

text \<open>
  C28: Of any number of concurrent calls of \<open>TryAcquire\<close> for one free key exactly one acquires it, however
  their single steps interleave with each other and with calls for other keys; and at every
  moment all of them can still return.
\<close>

theorem one_request_wins:
  assumes "m = monitor_run lock_step is (start_monitor lock_entry js vl)"
    and "k \<notin> locks vl" and "AcquireCall k \<in> set js" and "ReleaseCall k \<notin> set js"
  shows "(\<exists>more. \<forall>i < length js. returned (monitor_run lock_step more m) i)
    \<and> ((\<forall>i < length js. returned m i) \<longrightarrow>
        (\<exists>!i. i < length js \<and> js ! i = AcquireCall k \<and> callers m ! i = Returned (Some True)))"
proof (intro conjI impI)
  show "\<exists>more. \<forall>i < length js. returned (monitor_run lock_step more m) i"
    using vm.all_return [OF assms(1)] by blast
  assume all: "\<forall>i < length js. returned m i"
  from assms(1) obtain order where "distinct order" and order: "set order = {i. returned m i}"
    and res: "List.map Returned (fst (serial lock_method js order vl)) = List.map ((!) (callers m)) order"
    by (rule vm.serialised)
  let ?rs = "fst (serial lock_method js order vl)"
  have set: "set order = {..<length js}" using vm.all_returned(1) [OF assms(1) all] order by simp
  have rel: "\<forall>i \<in> set order. js ! i \<noteq> ReleaseCall k" using assms(4) set by (auto simp: in_set_conv_nth)
  have acq: "\<exists>i \<in> set order. js ! i = AcquireCall k" using assms(3) set by (auto simp: in_set_conv_nth)
  have "length (winners k js (zip order ?rs)) = 1"
    using serial_winners [OF rel, of vl] acq assms(2) by simp
  then obtain i r where w: "winners k js (zip order ?rs) = [(i, r)]" by (auto simp: length_Suc_conv)
  have pair: "(j, x) \<in> set (zip order ?rs) \<longleftrightarrow> j < length js \<and> callers m ! j = Returned x" for j x
  proof -
    have at: "Returned (?rs ! p) = callers m ! (order ! p)" if "p < length order" for p
      using arg_cong [OF res, of "\<lambda>xs. xs ! p"] that by (simp add: serial_length)
    have "(j, x) \<in> set (zip order ?rs) \<longleftrightarrow> (\<exists>p < length order. order ! p = j \<and> ?rs ! p = x)"
      by (auto simp: set_zip serial_length)
    also have "\<dots> \<longleftrightarrow> j \<in> set order \<and> callers m ! j = Returned x"
      using at by (metis caller.inject(3) in_set_conv_nth)
    finally show ?thesis by (simp add: set)
  qed
  have won: "(j, x) \<in> set (winners k js (zip order ?rs))
      \<longleftrightarrow> j < length js \<and> callers m ! j = Returned x \<and> js ! j = AcquireCall k \<and> x = Some True" for j x
    using pair [of j x] by (auto simp: winners_def)
  show "\<exists>!i. i < length js \<and> js ! i = AcquireCall k \<and> callers m ! i = Returned (Some True)"
  proof (rule ex1I [of _ i])
    show "i < length js \<and> js ! i = AcquireCall k \<and> callers m ! i = Returned (Some True)"
      using won [of i r] w by simp
    show "j = i" if "j < length js \<and> js ! j = AcquireCall k \<and> callers m ! j = Returned (Some True)" for j
      using won [of j "Some True"] w that by simp
  qed
qed

definition sample_race :: "(lock_point, bool option, volume_locks) monitor_state" where
  "sample_race = monitor_run lock_step [1, 0, 1, 2, 0, 1, 1, 0, 2, 0, 2, 0, 2, 2, 2, 2]
     (start_monitor lock_entry [AcquireCall ''v-t'', AcquireCall ''v-t'', AcquireCall ''w-t''] NewVolumeLocks)"

theorem one_request_wins_witness:
  "\<exists>!i. i < length [AcquireCall ''v-t'', AcquireCall ''v-t'', AcquireCall ''w-t'']
     \<and> [AcquireCall ''v-t'', AcquireCall ''v-t'', AcquireCall ''w-t''] ! i = AcquireCall ''v-t''
     \<and> callers sample_race ! i = Returned (Some True)"
proof -
  have "\<forall>i < length [AcquireCall ''v-t'', AcquireCall ''v-t'', AcquireCall ''w-t'']. returned sample_race i"
    by code_simp
  with one_request_wins [OF sample_race_def, of "''v-t''"] show ?thesis
    by (simp add: NewVolumeLocks_def)
qed

end
