(* ===== verification/Remote_Path.thy ===== *)
theory Remote_Path
  imports Publish_Params
begin

text \<open>
  How rclone reads the path that \<open>buildFsPath\<close> of \<open>pkg/rclone/nodeserver.go\<close> hands to it:
  \<open>vendor/github.com/rclone/rclone/fs/fspath/path.go\<close>, with the regular expressions for the names of
  remotes and the state machine of \<open>Parse\<close>.  Text is ASCII, and separators are those of Unix.
\<close>

section \<open>Regular expressions\<close>

datatype regex =
    Nothing
  | Blank
  | Class "char \<Rightarrow> bool"
  | Both regex regex
  | Either regex regex
  | Many regex

fun takes_blank :: "regex \<Rightarrow> bool" where
  "takes_blank Nothing \<longleftrightarrow> False"
| "takes_blank Blank \<longleftrightarrow> True"
| "takes_blank (Class p) \<longleftrightarrow> False"
| "takes_blank (Both r q) \<longleftrightarrow> takes_blank r \<and> takes_blank q"
| "takes_blank (Either r q) \<longleftrightarrow> takes_blank r \<or> takes_blank q"
| "takes_blank (Many r) \<longleftrightarrow> True"

text \<open>What is left to match after a character.\<close>

fun after :: "regex \<Rightarrow> char \<Rightarrow> regex" where
  "after Nothing c = Nothing"
| "after Blank c = Nothing"
| "after (Class p) c = (if p c then Blank else Nothing)"
| "after (Both r q) c = (let front = Both (after r c) q in
     if takes_blank r then Either front (after q c) else front)"
| "after (Either r q) c = Either (after r c) (after q c)"
| "after (Many r) c = Both (after r c) (Many r)"

fun fits :: "regex \<Rightarrow> string \<Rightarrow> bool" where
  "fits r [] = takes_blank r"
| "fits r (c # s) = fits (after r c) s"

abbreviation some :: "(char \<Rightarrow> bool) \<Rightarrow> regex" where
  "some p \<equiv> Both (Class p) (Many (Class p))"

lemma fits_Nothing [simp]: "\<not> fits Nothing s"
  by (induction s) simp_all

lemma fits_Blank [simp]: "fits Blank s \<longleftrightarrow> s = []"
  by (cases s) simp_all

lemma fits_Class [simp]: "fits (Class p) s \<longleftrightarrow> (\<exists>c. s = [c] \<and> p c)"
  by (cases s) auto

lemma fits_Either [simp]: "fits (Either r q) s \<longleftrightarrow> fits r s \<or> fits q s"
  by (induction s arbitrary: r q) simp_all

lemma fits_Both: "fits (Both r q) s \<longleftrightarrow> (\<exists>u v. s = u @ v \<and> fits r u \<and> fits q v)"
proof (induction s arbitrary: r)
  case (Cons c s)
  have "(\<exists>u v. c # s = u @ v \<and> fits r u \<and> fits q v)
      \<longleftrightarrow> takes_blank r \<and> fits q (c # s) \<or> (\<exists>u v. s = u @ v \<and> fits r (c # u) \<and> fits q v)"
  proof (intro iffI; elim disjE exE conjE)
    fix u v assume uv: "c # s = u @ v" "fits r u" "fits q v"
    then show "takes_blank r \<and> fits q (c # s) \<or> (\<exists>u v. s = u @ v \<and> fits r (c # u) \<and> fits q v)"
      by (cases u) auto
  next
    assume "takes_blank r" "fits q (c # s)"
    then show "\<exists>u v. c # s = u @ v \<and> fits r u \<and> fits q v" by (intro exI [of _ "[]"] exI [of _ "c # s"]) simp
  next
    fix u v assume "s = u @ v" "fits r (c # u)" "fits q v"
    then show "\<exists>u v. c # s = u @ v \<and> fits r u \<and> fits q v" by (intro exI [of _ "c # u"] exI [of _ v]) simp
  qed
  then show ?case using Cons.IH by (auto simp: Let_def)
qed auto

lemma fits_Many_Cons: "fits (Many r) (c # s) \<longleftrightarrow> (\<exists>u v. s = u @ v \<and> fits r (c # u) \<and> fits (Many r) v)"
  by (simp add: fits_Both)

text \<open>The characters that an expression can read.\<close>

fun reads :: "regex \<Rightarrow> char \<Rightarrow> bool" where
  "reads Nothing c \<longleftrightarrow> False"
| "reads Blank c \<longleftrightarrow> False"
| "reads (Class p) c \<longleftrightarrow> p c"
| "reads (Both r q) c \<longleftrightarrow> reads r c \<or> reads q c"
| "reads (Either r q) c \<longleftrightarrow> reads r c \<or> reads q c"
| "reads (Many r) c \<longleftrightarrow> reads r c"

lemma fits_reads: "fits r s \<Longrightarrow> c \<in> set s \<Longrightarrow> reads r c"
proof (induction r arbitrary: s)
  case (Many r)
  have "fits (Many r) s \<Longrightarrow> c \<in> set s \<Longrightarrow> reads r c" for s
  proof (induction "length s" arbitrary: s rule: less_induct)
    case less
    obtain x xs where s: "s = x # xs" using less.prems by (cases s) auto
    then obtain u v where "xs = u @ v" "fits r (x # u)" "fits (Many r) v"
      using less.prems fits_Many_Cons by blast
    then show ?case using s less.hyps [of v] less.prems(2) Many.IH [of "x # u"] by auto
  qed
  then show ?case using Many.prems by auto
next
  case (Both r q)
  then obtain u v where "s = u @ v" "fits r u" "fits q v" by (auto simp: fits_Both)
  then show ?case using Both by (metis UnE reads.simps(4) set_append)
qed auto

section \<open>Names of remotes\<close>

definition is_alphanumeric :: "char \<Rightarrow> bool" where
  "is_alphanumeric c \<longleftrightarrow> (let n = of_char c :: nat in
     97 \<le> n \<and> n \<le> 122 \<or> 65 \<le> n \<and> n \<le> 90 \<or> 48 \<le> n \<and> n \<le> 57)"

definition word_char :: "char \<Rightarrow> bool" where
  "word_char c \<longleftrightarrow> is_alphanumeric c \<or> c \<in> set ''_.+@''"

definition configNameRe :: regex where
  "configNameRe = Both (some word_char)
     (Many (Both (some (\<lambda>c. c \<in> set '' -'')) (some (\<lambda>c. word_char c \<or> c = CHR ''-''))))"

definition CheckConfigName :: "string \<Rightarrow> bool" where
  "CheckConfigName configName = fits configNameRe configName"

text \<open>Not anchored at its end: after a comma anything may follow.\<close>

definition remoteNameRe :: regex where
  "remoteNameRe = Both (Either Blank (Class (\<lambda>c. c = CHR '':''))) (Both configNameRe
     (Either (Class (\<lambda>c. c = CHR '':'')) (Both (Class (\<lambda>c. c = CHR '','')) (Many (Class (\<lambda>c. True))))))"

definition errInvalidCharacters :: string where
  "errInvalidCharacters = ''config name contains invalid characters - may only contain numbers, letters, `_`, `-`, `.`, `+`, `@` and space, while not start with `-` or space, and not end with space''"

definition checkRemoteName :: "string \<Rightarrow> string option" where
  "checkRemoteName rn =
     (if rn = '':'' \<or> rn = ''::'' then Some ''config name can't be empty''
      else if \<not> fits remoteNameRe rn then Some errInvalidCharacters
      else None)"

section \<open>Parsing a path\<close>

definition isConfigParam :: "char \<Rightarrow> bool" where
  "isConfigParam c \<longleftrightarrow> is_alphanumeric c \<or> c = CHR ''_'' \<or> c = CHR ''.''"

record parsed_path =
  pa_Name :: string
  pa_ConfigString :: string
  pa_Path :: string
  pa_Config :: "params option"

definition local_path :: "string \<Rightarrow> parsed_path" where
  "local_path path = \<lparr>pa_Name = '''', pa_ConfigString = '''', pa_Path = path, pa_Config = None\<rparr>"

datatype parse_state = InName | InParam | InValue | InQuotedValue | AfterQuote

record parser =
  ps_state :: parse_state
  ps_prev :: nat
  ps_quote :: char
  ps_param :: string
  ps_doubled :: bool
  ps_Name :: string
  ps_Config :: "params option"

text \<open>A character moves the parser, ends the loop, or returns from the function.\<close>

datatype parse_move = Next parser | EndLoop parser | Leave "string + parsed_path"

definition between :: "nat \<Rightarrow> nat \<Rightarrow> string \<Rightarrow> string" where
  "between i j s = take (j - i) (drop i s)"

definition IsDriveLetter :: "string \<Rightarrow> bool" where
  "IsDriveLetter name = False"

definition set_config :: "string \<Rightarrow> string \<Rightarrow> parser \<Rightarrow> parser" where
  "set_config k v p = p\<lparr>ps_Config := map_option (put k v) (ps_Config p)\<rparr>"

definition parse_name :: "string \<Rightarrow> nat \<Rightarrow> char \<Rightarrow> parser \<Rightarrow> parse_move" where
  "parse_name path i c p =
     (if i = 0 \<and> c = CHR '':'' then Next p
      else if c = CHR ''/'' \<or> c = CHR 0x5C
      then Leave (if hd path = CHR '':'' then Inl errInvalidCharacters else Inr (local_path path))
      else if c = CHR '':'' \<or> c = CHR '',''
      then (let name = take i path; p2 = p\<lparr>ps_Name := name, ps_prev := i + 1\<rparr> in
            case checkRemoteName (name @ '':'') of
              Some e \<Rightarrow> Leave (Inl e)
            | None \<Rightarrow>
                if c = CHR '':''
                then (if IsDriveLetter name then Leave (Inr (local_path path)) else EndLoop p2)
                else Next (p2\<lparr>ps_state := InParam, ps_Config := Some []\<rparr>))
      else Next p)"

definition parse_param :: "string \<Rightarrow> nat \<Rightarrow> char \<Rightarrow> parser \<Rightarrow> parse_move" where
  "parse_param path i c p =
     (if c = CHR '':'' \<or> c = CHR '','' \<or> c = CHR ''=''
      then (let param = between (ps_prev p) i path; p2 = p\<lparr>ps_param := param, ps_prev := i + 1\<rparr> in
            if param = '''' then Leave (Inl ''config parameters can't be empty'')
            else if c = CHR ''='' then Next (p2\<lparr>ps_state := InValue\<rparr>)
            else if c = CHR '':'' then EndLoop (set_config param ''true'' p2)
            else Next (set_config param ''true'' p2))
      else if \<not> isConfigParam c
      then Leave (Inl ''config parameters may only contain `0-9`, `A-Z`, `a-z`, `_` and `.`'')
      else Next p)"

definition parse_value_char :: "string \<Rightarrow> nat \<Rightarrow> char \<Rightarrow> parser \<Rightarrow> parse_move" where
  "parse_value_char path i c p =
     (if c = CHR 0x27 \<or> c = CHR 0x22
      then (if i = ps_prev p
            then Next (p\<lparr>ps_quote := c, ps_state := InQuotedValue, ps_prev := i + 1, ps_doubled := False\<rparr>)
            else Next p)
      else if c = CHR '':'' \<or> c = CHR '',''
      then (let p2 = set_config (ps_param p) (between (ps_prev p) i path) (p\<lparr>ps_prev := i + 1\<rparr>) in
            if c = CHR '':'' then EndLoop p2 else Next (p2\<lparr>ps_state := InParam\<rparr>))
      else Next p)"

definition parse_after_quote :: "string \<Rightarrow> nat \<Rightarrow> char \<Rightarrow> parser \<Rightarrow> parse_move" where
  "parse_after_quote path i c p =
     (if c = CHR '':'' \<or> c = CHR '',''
      then (let v = between (ps_prev p) (i - 1) path; q = [ps_quote p];
                val = (if ps_doubled p then ReplaceAll v (q @ q) q else v);
                p2 = set_config (ps_param p) val (p\<lparr>ps_prev := i + 1\<rparr>) in
            if c = CHR '':'' then EndLoop p2 else Next (p2\<lparr>ps_state := InParam\<rparr>))
      else if c = ps_quote p then Next (p\<lparr>ps_state := InQuotedValue, ps_doubled := True\<rparr>)
      else Leave (Inl ''expecting `:` or `,` or another quote after a quote''))"

definition parse_char :: "string \<Rightarrow> nat \<Rightarrow> char \<Rightarrow> parser \<Rightarrow> parse_move" where
  "parse_char path i c p =
     (case ps_state p of
        InName \<Rightarrow> parse_name path i c p
      | InParam \<Rightarrow> parse_param path i c p
      | InValue \<Rightarrow> parse_value_char path i c p
      | InQuotedValue \<Rightarrow> Next (if c = ps_quote p then p\<lparr>ps_state := AfterQuote\<rparr> else p)
      | AfterQuote \<Rightarrow> parse_after_quote path i c p)"

fun state_error :: "parse_state \<Rightarrow> string" where
  "state_error InName = ''config name needs a trailing `:`''"
| "state_error InParam = ''config parameter must end with `,` or `:`''"
| "state_error InValue = ''unquoted config value must end with `,` or `:`''"
| "state_error InQuotedValue = ''unterminated quoted config value''"
| "state_error AfterQuote = ''expecting `:` or `,` or another quote after a quote''"

fun parse_loop :: "string \<Rightarrow> nat \<Rightarrow> string \<Rightarrow> parser \<Rightarrow> string + parsed_path" where
  "parse_loop path i [] p = Inl (state_error (ps_state p))"
| "parse_loop path i (c # cs) p =
     (case parse_char path i c p of
        Next p2 \<Rightarrow> parse_loop path (i + 1) cs p2
      | EndLoop p2 \<Rightarrow> Inr \<lparr>pa_Name = ps_Name p2, pa_ConfigString = take i path,
                          pa_Path = drop (i + 1) path, pa_Config = ps_Config p2\<rparr>
      | Leave r \<Rightarrow> r)"

definition start_parser :: parser where
  "start_parser = \<lparr>ps_state = InName, ps_prev = 0, ps_quote = CHR 0x00, ps_param = '''', ps_doubled = False,
     ps_Name = '''', ps_Config = None\<rparr>"

definition Parse_path :: "string \<Rightarrow> string + parsed_path" where
  "Parse_path path =
     (if path = '''' then Inl ''can't use empty string as a path''
      else if CHR '':'' \<notin> set path then Inr (local_path path)
      else parse_loop path 0 path start_parser)"

section \<open>Legal names\<close>

lemma config_name_chars:
  assumes "CheckConfigName n"
  shows "n \<noteq> ''''" and "\<forall>c \<in> set n. word_char c \<or> c \<in> set '' -''"
  using assms fits_reads [of configNameRe n]
  by (auto simp: CheckConfigName_def configNameRe_def)

lemma not_word_char: "\<not> word_char CHR '':''" "\<not> word_char CHR '',''" "\<not> word_char CHR ''/''" "\<not> word_char CHR 0x5C"
  by (simp_all add: word_char_def is_alphanumeric_def)

lemma config_name_plain:
  assumes "CheckConfigName n"
  shows "set n \<inter> set '':,/'' = {}" "CHR 0x5C \<notin> set n"
  using config_name_chars [OF assms] not_word_char by auto

text \<open>The names that a path may begin with: those of configured remotes, and those of backends on the fly.\<close>

definition path_name :: "string \<Rightarrow> bool" where
  "path_name n \<longleftrightarrow> CheckConfigName n \<or> (\<exists>b. n = CHR '':'' # b \<and> CheckConfigName b)"

lemma path_name_split: "path_name n \<longleftrightarrow> (\<exists>a b. n = a @ b \<and> (a = '''' \<or> a = '':'') \<and> CheckConfigName b)"
proof
  assume "path_name n"
  then show "\<exists>a b. n = a @ b \<and> (a = '''' \<or> a = '':'') \<and> CheckConfigName b"
    unfolding path_name_def
  proof (elim disjE exE conjE)
    fix b assume "n = CHR '':'' # b" "CheckConfigName b"
    then show ?thesis by (intro exI [of _ "'':''"] exI [of _ b]) simp
  qed (auto intro: exI [of _ "[]"])
qed (auto simp: path_name_def)

lemma checkRemoteName_iff:
  assumes "CHR '','' \<notin> set n"
  shows "checkRemoteName (n @ '':'') = None \<longleftrightarrow> path_name n"
proof
  assume "checkRemoteName (n @ '':'') = None"
  then have "fits remoteNameRe (n @ '':'')" by (simp add: checkRemoteName_def split: if_splits)
  then obtain a b c where s: "n @ '':'' = a @ b @ c" and a: "a = '''' \<or> a = '':''" and b: "CheckConfigName b"
    and c: "c = '':'' \<or> (\<exists>d. c = CHR '','' # d)"
    by (auto simp: remoteNameRe_def fits_Both CheckConfigName_def)
  have "c = '':''"
  proof (rule ccontr)
    assume "c \<noteq> '':''"
    with c obtain d where "c = CHR '','' # d" by blast
    with s have "CHR '','' \<in> set (n @ '':'')" by simp
    with assms show False by simp
  qed
  with s have "n = a @ b" by (simp flip: append_assoc)
  with a b show "path_name n" unfolding path_name_split by blast
next
  assume "path_name n"
  then obtain a b where n: "n = a @ b" and a: "a = '''' \<or> a = '':''" and b: "CheckConfigName b"
    unfolding path_name_split by blast
  have "fits (Either Blank (Class (\<lambda>c. c = CHR '':''))) a" using a by auto
  moreover have "fits (Both configNameRe (Either (Class (\<lambda>c. c = CHR '':''))
      (Both (Class (\<lambda>c. c = CHR '','')) (Many (Class (\<lambda>c. True)))))) (b @ '':'')"
    using b unfolding fits_Both [of configNameRe] CheckConfigName_def by fastforce
  ultimately have "fits remoteNameRe (n @ '':'')"
    unfolding remoteNameRe_def fits_Both [of "Either Blank r" for r] n append_assoc by blast
  moreover have "n \<noteq> ''''" "n \<noteq> '':''"
    using n a config_name_chars(1) [OF b] config_name_plain(1) [OF b] by auto
  ultimately show "checkRemoteName (n @ '':'') = None" by (auto simp: checkRemoteName_def Cons_eq_append_conv append_eq_Cons_conv)
qed

section \<open>What a path names\<close>

text \<open>The parser walks over the characters of a name.\<close>

lemma parse_loop_name:
  assumes "set n \<inter> set '':,/'' = {}" and "CHR 0x5C \<notin> set n" and "ps_state p = InName"
  shows "parse_loop path i (n @ cs) p = parse_loop path (i + length n) cs p"
  using assms
proof (induction n arbitrary: i)
  case (Cons c n)
  then show ?case using Cons.IH [of "i + 1"] by (auto simp: parse_char_def parse_name_def)
qed simp

lemma parse_loop_colon:
  assumes "ps_state p = InName" and "0 < i" and "checkRemoteName (take i path @ '':'') = None"
  shows "parse_loop path i (CHR '':'' # cs) p
    = Inr \<lparr>pa_Name = take i path, pa_ConfigString = take i path, pa_Path = drop (i + 1) path, pa_Config = ps_Config p\<rparr>"
  using assms by (simp add: parse_char_def parse_name_def IsDriveLetter_def Let_def)

lemma parse_legal:
  assumes "path_name n"
  shows "Parse_path (n @ '':'' @ p) = Inr \<lparr>pa_Name = n, pa_ConfigString = n, pa_Path = p, pa_Config = None\<rparr>"
proof -
  obtain a b where n: "n = a @ b" and a: "a = '''' \<or> a = '':''" and b: "CheckConfigName b"
    using assms unfolding path_name_split by blast
  note plain = config_name_plain [OF b] and ne = config_name_chars(1) [OF b]
  have "CHR '','' \<notin> set n" using n a plain by auto
  then have check: "checkRemoteName (n @ '':'') = None" using checkRemoteName_iff assms by blast
  have "parse_loop (n @ '':'' @ p) 0 (n @ '':'' @ p) start_parser
      = parse_loop (n @ '':'' @ p) (length a) (b @ '':'' @ p) start_parser"
    using a n by (auto simp: parse_char_def parse_name_def start_parser_def)
  also have "\<dots> = parse_loop (n @ '':'' @ p) (length n) ('':'' @ p) start_parser"
    using parse_loop_name [OF plain, of start_parser] n by (simp add: start_parser_def)
  also have "\<dots> = Inr \<lparr>pa_Name = n, pa_ConfigString = n, pa_Path = p, pa_Config = None\<rparr>"
    using parse_loop_colon [of start_parser "length n" "n @ '':'' @ p" p] check ne n by (simp add: start_parser_def)
  finally show ?thesis by (simp add: Parse_path_def)
qed

lemma buildFsPath_eq: "buildFsPath n p = n @ '':'' @ p"
  by (simp add: buildFsPath_def)

text \<open>Conversely the parser names a remote only after checking the name.\<close>

definition checked_name :: "string \<Rightarrow> bool" where
  "checked_name n \<longleftrightarrow> CHR '','' \<notin> set n \<and> checkRemoteName (n @ '':'') = None"

lemma set_config_parts [simp]:
  "ps_state (set_config k v p) = ps_state p" "ps_Name (set_config k v p) = ps_Name p"
  by (simp_all add: set_config_def)

lemma parse_name_step:
  assumes "CHR '','' \<notin> set (take i path)"
  shows "case parse_name path i c p of
      Next p2 \<Rightarrow> p2 = p \<and> c \<noteq> CHR '','' \<or> ps_state p2 \<noteq> InName \<and> checked_name (ps_Name p2)
    | EndLoop p2 \<Rightarrow> checked_name (ps_Name p2)
    | Leave r \<Rightarrow> (case r of Inl e \<Rightarrow> True | Inr q \<Rightarrow> q = local_path path)"
  using assms
  by (auto simp: parse_name_def Let_def checked_name_def IsDriveLetter_def split: option.splits)

lemma parse_char_step:
  assumes "ps_state p \<noteq> InName"
  shows "case parse_char path i c p of
      Next p2 \<Rightarrow> ps_state p2 \<noteq> InName \<and> ps_Name p2 = ps_Name p
    | EndLoop p2 \<Rightarrow> ps_Name p2 = ps_Name p
    | Leave r \<Rightarrow> (\<exists>e. r = Inl e)"
  using assms
  by (cases "ps_state p")
    (auto simp: parse_char_def parse_param_def parse_value_char_def parse_after_quote_def Let_def)

lemma parse_loop_checked:
  assumes "parse_loop path i cs p = Inr r" and "drop i path = cs" and "i + length cs = length path"
    and "ps_state p = InName \<Longrightarrow> CHR '','' \<notin> set (take i path)"
    and "ps_state p \<noteq> InName \<Longrightarrow> checked_name (ps_Name p)"
  shows "r = local_path path \<or> checked_name (pa_Name r)"
  using assms
proof (induction cs arbitrary: i p)
  case (Cons c cs)
  have "drop (i + 1) path = drop 1 (drop i path)" by simp
  then have next_i: "drop (i + 1) path = cs" "i + 1 + length cs = length path" "take (i + 1) path = take i path @ [c]"
    using Cons.prems(2,3) by (simp_all add: take_Suc_conv_app_nth nth_via_drop)
  show ?case
  proof (cases "ps_state p = InName")
    case True
    note step = parse_name_step [OF Cons.prems(4) [OF True], of p c]
    have ch: "parse_char path i c p = parse_name path i c p" using True by (simp add: parse_char_def)
    show ?thesis
    proof (cases "parse_name path i c p")
      case (Next p2)
      with step show ?thesis
        using Cons.IH [of "i + 1" p2] Cons.prems(1,4) ch next_i True by auto
    next
      case (EndLoop p2)
      with step show ?thesis using Cons.prems(1) ch by auto
    next
      case (Leave q)
      with step show ?thesis using Cons.prems(1) ch by (auto split: sum.splits)
    qed
  next
    case False
    note step = parse_char_step [OF False, of path i c]
    show ?thesis
    proof (cases "parse_char path i c p")
      case (Next p2)
      with step show ?thesis
        using Cons.IH [of "i + 1" p2] Cons.prems(1,5) next_i False by auto
    next
      case (EndLoop p2)
      with step show ?thesis using Cons.prems(1,5) False by auto
    next
      case (Leave q)
      with step show ?thesis using Cons.prems(1) by auto
    qed
  qed
qed simp

text \<open>
  C12: The path that a publish builds from a remote and a path is read back as just these two, for every
  path, exactly when the remote is a legal name of a remote or, after a colon, of a backend;
  nothing in the driver checks this.
\<close>

theorem built_path_names_remote:
  "(\<exists>cs cfg. Parse_path (buildFsPath n p) = Inr \<lparr>pa_Name = n, pa_ConfigString = cs, pa_Path = p, pa_Config = cfg\<rparr>)
     \<longleftrightarrow> CheckConfigName n \<or> (\<exists>b. n = CHR '':'' # b \<and> CheckConfigName b)"
proof -
  have "path_name n" if "Parse_path (n @ '':'' @ p)
      = Inr \<lparr>pa_Name = n, pa_ConfigString = cs, pa_Path = p, pa_Config = cfg\<rparr>" for cs cfg
  proof -
    let ?r = "\<lparr>pa_Name = n, pa_ConfigString = cs, pa_Path = p, pa_Config = cfg\<rparr>"
    have "parse_loop (n @ '':'' @ p) 0 (n @ '':'' @ p) start_parser = Inr ?r"
      using that by (simp add: Parse_path_def)
    then have "?r = local_path (n @ '':'' @ p) \<or> checked_name (pa_Name ?r)"
      by (rule parse_loop_checked) (simp_all add: start_parser_def)
    then show ?thesis using checkRemoteName_iff by (auto simp: local_path_def checked_name_def)
  qed
  then have "(\<exists>cs cfg. Parse_path (n @ '':'' @ p) = Inr \<lparr>pa_Name = n, pa_ConfigString = cs, pa_Path = p, pa_Config = cfg\<rparr>)
      \<longleftrightarrow> path_name n"
    using parse_legal by blast
  then show ?thesis by (simp add: buildFsPath_eq path_name_def)
qed

lemma Parse_path_samples:
  "Parse_path ''s3:bucket/a:b'' = Inr \<lparr>pa_Name = ''s3'', pa_ConfigString = ''s3'', pa_Path = ''bucket/a:b'', pa_Config = None\<rparr>"
  "Parse_path ''s3,region=eu,v2:x'' = Inr \<lparr>pa_Name = ''s3'', pa_ConfigString = ''s3,region=eu,v2'', pa_Path = ''x'',
     pa_Config = Some [(''region'', ''eu''), (''v2'', ''true'')]\<rparr>"
  "Parse_path ''/srv/data:x'' = Inr (local_path ''/srv/data:x'')"
  "Parse_path ''my remote :x'' = Inl errInvalidCharacters"
  "Parse_path '':s3,a=''  = Inl ''unquoted config value must end with `,` or `:`''"
  "Parse_path ''s3,k='' = Inr (local_path ''s3,k='')"
  by code_simp+

end
