(* ===== verification/Backend_Config.thy ===== *)
theory Backend_Config
  imports Remote_Path Config_Load
begin

text \<open>
  From a path to the options of a backend, as rclone does it under the driver: the layers of
  \<open>fs/config/configmap\<close> and \<open>fs/configmap.go\<close>, the registry of backends (\<open>fs/registry.go\<close>), \<open>ParseRemote\<close> and \<open>ConfigFs\<close>
  (\<open>fs/newfs.go\<close>), and \<open>UpdateRemote\<close> (\<open>fs/config/config.go\<close>), all under \<open>vendor/github.com/rclone/rclone\<close>.
  The registry, the environment, the obscuring of passwords and the interactive set-up of the backends are
  arguments.
\<close>

section \<open>Layers of options\<close>

abbreviation PriorityNormal :: nat where "PriorityNormal \<equiv> 0"
abbreviation PriorityConfig :: nat where "PriorityConfig \<equiv> 1"
abbreviation PriorityDefault :: nat where "PriorityDefault \<equiv> 2"
abbreviation PriorityMax :: nat where "PriorityMax \<equiv> 3"

type_synonym config_map = "(getter \<times> nat) list"

text \<open>Sorting by priority is stable.\<close>

definition AddGetter :: "getter \<Rightarrow> nat \<Rightarrow> config_map \<Rightarrow> config_map" where
  "AddGetter g priority m = sort_key snd (m @ [(g, priority)])"

fun GetPriority :: "config_map \<Rightarrow> string \<Rightarrow> nat \<Rightarrow> string option" where
  "GetPriority [] key maxPriority = None"
| "GetPriority ((g, priority) # m) key maxPriority =
     (if maxPriority < priority then None
      else case g key of Some v \<Rightarrow> Some v | None \<Rightarrow> GetPriority m key maxPriority)"

definition MapGet :: "config_map \<Rightarrow> string \<Rightarrow> string option" where
  "MapGet m key = GetPriority m key PriorityMax"

section \<open>Backends and their options\<close>

record option_info =
  oi_Name :: string
  oi_IsDefault :: bool
  oi_String :: string
  oi_NoPrefix :: bool
  oi_IsPassword :: bool

record reg_info =
  ri_Name :: string
  ri_Prefix :: string
  ri_Options :: "option_info list"
  ri_hasConfig :: bool

definition FileName :: "reg_info \<Rightarrow> string" where
  "FileName ri = ReplaceAll (ri_Name ri) '' '' ''''"

definition Find :: "reg_info list \<Rightarrow> string \<Rightarrow> string + reg_info" where
  "Find registry name =
     (case List.find (\<lambda>ri. ri_Name ri = name \<or> ri_Prefix ri = name \<or> FileName ri = name) registry of
        Some ri \<Rightarrow> Inr ri
      | None \<Rightarrow> Inl (''didn't find backend called '' @ go_quote name))"

definition GetOption :: "option_info list \<Rightarrow> string \<Rightarrow> option_info option" where
  "GetOption options name = List.find (\<lambda>oi. oi_Name oi = name) options"

section \<open>Environment variables\<close>

definition upper_char :: "char \<Rightarrow> char" where
  "upper_char c = (let n = of_char c :: nat in if 97 \<le> n \<and> n \<le> 122 then char_of (n - 32) else c)"

definition ToUpper :: "string \<Rightarrow> string" where
  "ToUpper s = List.map upper_char s"

definition ConfigToEnv :: "string \<Rightarrow> string \<Rightarrow> string" where
  "ConfigToEnv sec name = ''RCLONE_CONFIG_'' @ ToUpper (sec @ ''_'' @ ReplaceAll name ''-'' ''_'')"

definition OptionToEnv :: "string \<Rightarrow> string" where
  "OptionToEnv name = ''RCLONE_'' @ ToUpper (ReplaceAll name ''-'' ''_'')"

type_synonym environment = "string \<Rightarrow> string option"

definition configEnvVars :: "environment \<Rightarrow> string \<Rightarrow> getter" where
  "configEnvVars env configName key = env (ConfigToEnv configName key)"

definition optionEnvVars :: "environment \<Rightarrow> string \<Rightarrow> option_info list \<Rightarrow> getter" where
  "optionEnvVars env pfx options key =
     (case GetOption options key of
        None \<Rightarrow> None
      | Some oi \<Rightarrow>
          (case env (if pfx = '''' then OptionToEnv key else OptionToEnv (pfx @ ''-'' @ key)) of
             Some v \<Rightarrow> Some v
           | None \<Rightarrow> if oi_NoPrefix oi then env (OptionToEnv key) else None))"

text \<open>The value of a flag, when one is set, or the default.\<close>

definition regInfoValues :: "option_info list \<Rightarrow> bool \<Rightarrow> getter" where
  "regInfoValues options useDefault key =
     (case GetOption options key of
        None \<Rightarrow> None
      | Some oi \<Rightarrow> if useDefault \<or> \<not> oi_IsDefault oi then Some (oi_String oi) else None)"

text \<open>An empty value in the configuration counts as none.\<close>

definition getConfigFile :: "config_storage \<Rightarrow> string \<Rightarrow> getter" where
  "getConfigFile st sec key =
     (case StoreValue st sec key of None \<Rightarrow> None | Some v \<Rightarrow> if v = '''' then None else Some v)"

definition ConfigMap ::
    "environment \<Rightarrow> config_storage \<Rightarrow> string \<Rightarrow> option_info list option \<Rightarrow> string \<Rightarrow> params option \<Rightarrow> config_map" where
  "ConfigMap env st pfx options configName connectionStringConfig =
     (let c1 = (case connectionStringConfig of
                  None \<Rightarrow> []
                | Some m \<Rightarrow> if m = [] then [] else AddGetter (get m) PriorityNormal []);
          c2 = (case options of None \<Rightarrow> c1 | Some os \<Rightarrow> AddGetter (regInfoValues os False) PriorityNormal c1);
          c3 = (if configName \<noteq> '''' then AddGetter (configEnvVars env configName) PriorityNormal c2 else c2);
          c4 = (case options of None \<Rightarrow> c3 | Some os \<Rightarrow> AddGetter (optionEnvVars env pfx os) PriorityNormal c3);
          c5 = (if configName \<noteq> '''' then AddGetter (getConfigFile st configName) PriorityConfig c4 else c4)
      in (case options of None \<Rightarrow> c5 | Some os \<Rightarrow> AddGetter (regInfoValues os True) PriorityDefault c5))"

section \<open>From a path to a backend\<close>

record opened_remote =
  or_fsInfo :: reg_info
  or_configName :: string
  or_fsPath :: string
  or_connection :: "params option"

definition ParseRemote ::
    "reg_info list \<Rightarrow> environment \<Rightarrow> config_storage \<Rightarrow> string \<Rightarrow> string + opened_remote" where
  "ParseRemote registry env st path =
     (case Parse_path path of
        Inl e \<Rightarrow> Inl e
      | Inr parsed \<Rightarrow>
          (let name = pa_Name parsed;
               found = (\<lambda>fsName configName. case Find registry fsName of
                   Inl e \<Rightarrow> Inl e
                 | Inr ri \<Rightarrow> Inr \<lparr>or_fsInfo = ri, or_configName = configName, or_fsPath = pa_Path parsed,
                                 or_connection = pa_Config parsed\<rparr>) in
           if name = '''' then found ''local'' ''local''
           else if HasPrefix name '':'' then found (tl name) name
           else case MapGet (ConfigMap env st '''' None name (pa_Config parsed)) ''type'' of
                  None \<Rightarrow> Inl (''didn't find section in config file ('' @ go_quote name @ '')'')
                | Some fsName \<Rightarrow> found fsName name))"

definition ConfigFs ::
    "reg_info list \<Rightarrow> environment \<Rightarrow> config_storage \<Rightarrow> string \<Rightarrow> string + (opened_remote \<times> config_map)" where
  "ConfigFs registry env st path =
     (case ParseRemote registry env st path of
        Inl e \<Rightarrow> Inl e
      | Inr r \<Rightarrow> Inr (r, ConfigMap env st (ri_Prefix (or_fsInfo r)) (Some (ri_Options (or_fsInfo r)))
                           (or_configName r) (or_connection r)))"

section \<open>Updating a remote\<close>

text \<open>
  \<open>rx_Obscure\<close> and \<open>rx_revealed\<close> are \<open>obscure.Obscure\<close> and the success of \<open>obscure.Reveal\<close>; \<open>rx_Config\<close> is the set-up of the
  backends that have one, without an answer to its questions.
\<close>

record 'w rclone_env =
  rx_registry :: "reg_info list"
  rx_environ :: environment
  rx_Obscure :: "string \<Rightarrow> string + string"
  rx_revealed :: "string \<Rightarrow> bool"
  rx_Config :: "string \<Rightarrow> reg_info \<Rightarrow> params \<Rightarrow> config_storage \<Rightarrow> 'w \<Rightarrow> string option \<times> config_storage \<times> 'w"

definition GetConfigValue :: "environment \<Rightarrow> config_storage \<Rightarrow> string \<Rightarrow> string \<Rightarrow> string" where
  "GetConfigValue env st remote key =
     (case env (ConfigToEnv remote key) of
        Some v \<Rightarrow> v
      | None \<Rightarrow> (case StoreValue st remote key of None \<Rightarrow> '''' | Some v \<Rightarrow> v))"

definition line_break :: "string \<Rightarrow> bool" where
  "line_break s \<longleftrightarrow> CHR 0x0A \<in> set s \<or> CHR 0x0D \<in> set s"

text \<open>The value to store: a password is obscured unless it already is.\<close>

definition obscured :: "'w rclone_env \<Rightarrow> reg_info \<Rightarrow> string \<Rightarrow> string \<Rightarrow> string + string" where
  "obscured rx ri k v =
     (if (\<exists>oi \<in> set (ri_Options ri). oi_IsPassword oi \<and> oi_Name oi = k) \<and> \<not> rx_revealed rx v
      then (case rx_Obscure rx v of
              Inl e \<Rightarrow> Inl (''update remote: obscure failed: '' @ e)
            | Inr u \<Rightarrow> Inr u)
      else Inr v)"

fun set_choices ::
    "'w rclone_env \<Rightarrow> reg_info \<Rightarrow> string \<Rightarrow> params \<Rightarrow> params \<Rightarrow> config_storage \<Rightarrow> (string + params) \<times> config_storage" where
  "set_choices rx ri name [] choices st = (Inr choices, st)"
| "set_choices rx ri name ((k, v) # es) choices st =
     (if line_break k \<or> line_break v
      then (Inl (''update remote: invalid key or value contains '' @ [CHR 0x5C] @ ''n or '' @ [CHR 0x5C] @ ''r''), st)
      else case obscured rx ri k v of
        Inl e \<Rightarrow> (Inl e, st)
      | Inr vStr \<Rightarrow> set_choices rx ri name es (put k vStr choices)
          (if HasPrefix k ''config_'' then st else SetSectionValue st name k vStr))"

definition updateRemote ::
    "'w rclone_env \<Rightarrow> (params \<Rightarrow> params) \<Rightarrow> string \<Rightarrow> params \<Rightarrow> config_storage \<Rightarrow> 'w
       \<Rightarrow> string option \<times> config_storage \<times> 'w" where
  "updateRemote rx rng name keyValues st w =
     (if \<not> CheckConfigName name then (Some errInvalidCharacters, st, w)
      else let fsType = GetConfigValue (rx_environ rx) st name ''type'' in
        if fsType = '''' then (Some ''couldn't find type field in config'', st, w)
        else case Find (rx_registry rx) fsType of
          Inl e \<Rightarrow> (Some (''couldn't find backend for type '' @ go_quote fsType), st, w)
        | Inr ri \<Rightarrow>
            (case set_choices rx ri name (rng keyValues) [] st of
               (Inl e, st2) \<Rightarrow> (Some e, st2, w)
             | (Inr choices, st2) \<Rightarrow>
                 if ri_hasConfig ri
                 then rx_Config rx name ri (put ''config_fs_edit'' ''true'' choices) st2 w
                 else (None, st2, w)))"

section \<open>Updating stays in its section\<close>

lemma set_choices_frame:
  "set_choices rx ri name es choices st = (r, st2) \<Longrightarrow>
     same_outside {name} st st2 \<and> (HasSection st name \<longrightarrow> HasSection st2 name)"
proof (induction es arbitrary: choices st)
  case (Cons e es)
  obtain k v where e: "e = (k, v)" by (cases e)
  let ?st = "\<lambda>u. if HasPrefix k ''config_'' then st else SetSectionValue st name k u"
  have one: "same_outside {name} st (?st u) \<and> (HasSection st name \<longrightarrow> HasSection (?st u) name)" for u
    by (simp add: same_outside_set cs.has_upd)
  show ?case
  proof (cases "(line_break k \<or> line_break v) \<or> (\<exists>x. obscured rx ri k v = Inl x)")
    case True
    then show ?thesis using Cons.prems e by (auto split: if_splits)
  next
    case False
    then obtain u where u: "obscured rx ri k v = Inr u" by (cases "obscured rx ri k v") auto
    with False Cons.prems e have "set_choices rx ri name es (put k u choices) (?st u) = (r, st2)" by simp
    from Cons.IH [OF this] one [of u] show ?thesis using same_outside_trans by blast
  qed
qed simp

text \<open>The set-up of a backend gets a view of its own section only.\<close>

definition setup_own_section :: "'w rclone_env \<Rightarrow> bool" where
  "setup_own_section rx \<longleftrightarrow> (\<forall>name ri choices st w.
     same_outside {name} st (fst (snd (rx_Config rx name ri choices st w)))
     \<and> (HasSection st name \<longrightarrow> HasSection (fst (snd (rx_Config rx name ri choices st w))) name))"

lemma updateRemote_frame:
  assumes "setup_own_section rx" and "updateRemote rx rng name p st w = (e, st2, w2)"
  shows "same_outside {name} st st2 \<and> (HasSection st name \<longrightarrow> HasSection st2 name)"
proof (cases "\<exists>ri. CheckConfigName name \<and> GetConfigValue (rx_environ rx) st name ''type'' \<noteq> ''''
    \<and> Find (rx_registry rx) (GetConfigValue (rx_environ rx) st name ''type'') = Inr ri")
  case True
  then obtain ri where ri: "CheckConfigName name" "GetConfigValue (rx_environ rx) st name ''type'' \<noteq> ''''"
    "Find (rx_registry rx) (GetConfigValue (rx_environ rx) st name ''type'') = Inr ri" by blast
  obtain r st1 where c: "set_choices rx ri name (rng p) [] st = (r, st1)"
    by (cases "set_choices rx ri name (rng p) [] st")
  note f = set_choices_frame [OF c]
  show ?thesis
  proof (cases "\<exists>choices. r = Inr choices \<and> ri_hasConfig ri")
    case True
    then obtain choices where "r = Inr choices" and "ri_hasConfig ri" by blast
    then have "rx_Config rx name ri (put ''config_fs_edit'' ''true'' choices) st1 w = (e, st2, w2)"
      using assms(2) ri c by (simp add: updateRemote_def)
    with assms(1) have "same_outside {name} st1 st2 \<and> (HasSection st1 name \<longrightarrow> HasSection st2 name)"
      unfolding setup_own_section_def by (metis fst_conv snd_conv)
    with f show ?thesis using same_outside_trans by blast
  next
    case False
    then have "st2 = st1" using assms(2) ri c by (auto simp: updateRemote_def split: sum.splits)
    with f show ?thesis by simp
  qed
next
  case False
  then have "st2 = st"
    using assms(2) by (auto simp: updateRemote_def Let_def split: if_splits sum.splits)
  then show ?thesis by simp
qed

text \<open>
  C21: The contract that the theorems about the handlers ask of \<open>config.UpdateRemote\<close> holds for its code: whatever
  the parameters, it changes no section but that of its remote, and does not remove that one,
  provided that the set-up of the backend edits its own section only.
\<close>

theorem update_stays_in_section:
  assumes "h_UpdateRemote h = updateRemote rx rng" and "setup_own_section rx"
  shows "updates_own_section h"
  unfolding updates_own_section_def assms(1)
  using updateRemote_frame [OF assms(2)] by (metis prod.collapse)

section \<open>What a backend finds in its section\<close>

text \<open>A value that is one of \<open>vs\<close> stays one of them, if what is written is.\<close>

lemma set_choices_value:
  assumes "set_choices rx ri name es choices st = (Inr r, st2)"
    and "\<forall>x u. (k, x) \<in> set es \<longrightarrow> obscured rx ri k x = Inr u \<longrightarrow> u \<in> vs"
    and "\<exists>v \<in> vs. StoreValue st name k = Some v"
  shows "\<exists>v \<in> vs. StoreValue st2 name k = Some v"
  using assms
proof (induction es arbitrary: choices st)
  case (Cons e es)
  obtain j x where e: "e = (j, x)" by (cases e)
  from Cons.prems(1) e obtain u where u: "obscured rx ri j x = Inr u"
    and run: "set_choices rx ri name es (put j u choices)
      (if HasPrefix j ''config_'' then st else SetSectionValue st name j u) = (Inr r, st2)"
    by (auto split: if_splits sum.splits)
  have "j = k \<Longrightarrow> u \<in> vs" using u Cons.prems(2) e by auto
  then have "\<exists>v \<in> vs. StoreValue (if HasPrefix j ''config_'' then st else SetSectionValue st name j u) name k = Some v"
    using Cons.prems(3) by (simp add: cs.look_upd)
  with Cons.IH [OF run] Cons.prems(2) show ?case by simp
qed simp

text \<open>The set-up of a backend, if it has one, leaves an option alone when it succeeds.\<close>

definition setup_keeps :: "'w rclone_env \<Rightarrow> reg_info \<Rightarrow> string \<Rightarrow> bool" where
  "setup_keeps rx ri k \<longleftrightarrow> (ri_hasConfig ri \<longrightarrow> (\<forall>name choices st w.
     fst (rx_Config rx name ri choices st w) = None \<longrightarrow>
     StoreValue (fst (snd (rx_Config rx name ri choices st w))) name k = StoreValue st name k))"

lemma updateRemote_value:
  assumes "updateRemote rx rng name p st w = (None, st2, w2)" and "range_order rng"
    and "rx_environ rx (ConfigToEnv name ''type'') = None" and "StoreValue st name ''type'' = Some T"
    and "Find (rx_registry rx) T = Inr ri" and "setup_keeps rx ri k"
    and "\<forall>x u. (k, x) \<in> set p \<longrightarrow> obscured rx ri k x = Inr u \<longrightarrow> u \<in> vs"
    and "\<exists>v \<in> vs. StoreValue st name k = Some v"
  shows "\<exists>v \<in> vs. StoreValue st2 name k = Some v"
proof -
  have "GetConfigValue (rx_environ rx) st name ''type'' = T" using assms(3,4) by (simp add: GetConfigValue_def)
  then obtain choices st1 where c: "set_choices rx ri name (rng p) [] st = (Inr choices, st1)"
    and e: "(if ri_hasConfig ri then rx_Config rx name ri (put ''config_fs_edit'' ''true'' choices) st1 w
      else (None, st1, w)) = (None, st2, w2)"
    using assms(1,5) by (auto simp: updateRemote_def Let_def split: if_splits prod.splits sum.splits)
  have "\<exists>v \<in> vs. StoreValue st1 name k = Some v"
    using set_choices_value [OF c _ assms(8)] assms(7) range_order_set [OF assms(2), of p] by simp
  moreover have "StoreValue st2 name k = StoreValue st1 name k"
  proof (cases "ri_hasConfig ri")
    case True
    then have "rx_Config rx name ri (put ''config_fs_edit'' ''true'' choices) st1 w = (None, st2, w2)" using e by simp
    with assms(6) True show ?thesis unfolding setup_keeps_def by (metis fst_conv snd_conv)
  qed (use e in simp)
  ultimately show ?thesis by simp
qed

lemma updateRemote_legal: "updateRemote rx rng name p st w = (None, st2, w2) \<Longrightarrow> CheckConfigName name"
  by (simp add: updateRemote_def split: if_splits)

end
