(* ===== verification/Published_Backend.thy ===== *)
theory Published_Backend
  imports Backend_Config Node_Server
begin

text \<open>
  From the parameters of a volume to the backend that serves it: what \<open>fs.NewFs\<close> finds when a publish has
  loaded its configuration (\<open>pkg/rclone/nodeserver.go\<close> over the parts of rclone in \<open>Backend_Config\<close>), and the
  remotes for which it finds something else.
\<close>

section \<open>Looking up options\<close>

text \<open>What comes before the configuration: a flag that is set, and the environment of the process.\<close>

definition overriding :: "environment \<Rightarrow> string \<Rightarrow> reg_info \<Rightarrow> string \<Rightarrow> string option" where
  "overriding env n ri k = (case regInfoValues (ri_Options ri) False k of
      Some u \<Rightarrow> Some u
    | None \<Rightarrow> (case configEnvVars env n k of
        Some u \<Rightarrow> Some u
      | None \<Rightarrow> optionEnvVars env (ri_Prefix ri) (ri_Options ri) k))"

text \<open>The layers in their order: overriding values, the section, the default of the backend.\<close>

definition layered :: "environment \<Rightarrow> string \<Rightarrow> reg_info \<Rightarrow> string option \<Rightarrow> string \<Rightarrow> string option" where
  "layered env n ri entry k = (case overriding env n ri k of
      Some u \<Rightarrow> Some u
    | None \<Rightarrow> (if entry = None \<or> entry = Some '''' then regInfoValues (ri_Options ri) True k else entry))"

lemma MapGet_layered:
  assumes "n \<noteq> ''''"
  shows "MapGet (ConfigMap env st (ri_Prefix ri) (Some (ri_Options ri)) n None) k = layered env n ri (StoreValue st n k) k"
  using assms
  by (simp add: MapGet_def ConfigMap_def AddGetter_def layered_def overriding_def getConfigFile_def split: option.split)

lemma MapGet_type:
  assumes "env (ConfigToEnv n ''type'') = None" and "n \<noteq> ''''"
  shows "MapGet (ConfigMap env st '''' None n None) ''type'' = getConfigFile st n ''type''"
  using assms
  by (simp add: MapGet_def ConfigMap_def AddGetter_def configEnvVars_def split: option.split)

lemma ConfigFs_loaded:
  assumes "CheckConfigName n" and "env (ConfigToEnv n ''type'') = None"
    and "StoreValue st n ''type'' = Some T" and "T \<noteq> ''''" and "Find registry T = Inr ri"
  shows "\<exists>cfg. ConfigFs registry env st (buildFsPath n p)
      = Inr (\<lparr>or_fsInfo = ri, or_configName = n, or_fsPath = p, or_connection = None\<rparr>, cfg)
    \<and> (\<forall>k. MapGet cfg k = layered env n ri (StoreValue st n k) k)"
proof -
  have n: "n \<noteq> ''''" "\<not> HasPrefix n '':''"
    using config_name_chars(1) [OF assms(1)] config_name_plain(1) [OF assms(1)]
    by (auto simp: HasPrefix_iff)
  have "Parse_path (buildFsPath n p) = Inr \<lparr>pa_Name = n, pa_ConfigString = n, pa_Path = p, pa_Config = None\<rparr>"
    using parse_legal [of n p] assms(1) by (simp add: buildFsPath_eq path_name_def)
  moreover have "MapGet (ConfigMap env st '''' None n None) ''type'' = Some T"
    using MapGet_type [where env = env and n = n and st = st] assms(2-4) n(1) by (simp add: getConfigFile_def)
  ultimately show ?thesis using n assms(5) MapGet_layered [OF n(1)] by (simp add: ConfigFs_def ParseRemote_def Let_def)
qed

section \<open>Loading a generated configuration\<close>

text \<open>A value is one of \<open>vs\<close> afterwards, if every write of a load to its key is one of them.\<close>

lemma load_keys_value:
  assumes "h_UpdateRemote h = updateRemote rx rngu" and "range_order rngu"
    and "rx_environ rx (ConfigToEnv name ''type'') = None" and "Find (rx_registry rx) T = Inr ri" and "setup_keeps rx ri k"
    and "\<forall>x u. (k, x) \<in> set (extractRemoteTypeParams (rng p) T) \<longrightarrow> obscured rx ri k x = Inr u \<longrightarrow> u \<in> vs"
    and "\<forall>x. (''type'', x) \<in> set es \<longrightarrow> x = T" and "\<forall>x. (k, x) \<in> set es \<longrightarrow> x \<in> vs"
    and "run_state (load_keys h rng p name es) s = (None, t)"
    and "(\<exists>v \<in> vs. StoreValue (storage s) name k = Some v) \<or> k \<in> fst ` set es"
  shows "\<exists>v \<in> vs. StoreValue (storage t) name k = Some v"
  using assms(7-10)
proof (induction es arbitrary: s)
  case (Cons e es)
  obtain key val where e: "e = (key, val)" by (cases e)
  let ?s = "s\<lparr>storage := SetSectionValue (storage s) name key val\<rparr>"
  let ?X = "extractRemoteTypeParams (rng p) val"
  let ?m = "if key = ''type'' \<and> p \<noteq> []
    then let remoteParams = ?X in if remoteParams \<noteq> [] then UpdateRemote h name remoteParams else return None
    else return None"
  obtain x u where u: "run_state ?m ?s = (x, u)" by (cases "run_state ?m ?s")
  have run: "x = None" "run_state (load_keys h rng p name es) u = (None, t)"
    using Cons.prems(3) u e by (cases x; simp)+
  have here: "(\<exists>v \<in> vs. StoreValue (storage ?s) name k = Some v) \<or> k \<in> fst ` set es"
    using Cons.prems(2,4) e by (auto simp: cs.look_upd)
  have "\<exists>v \<in> vs. StoreValue (storage u) name k = Some v" if "\<exists>v \<in> vs. StoreValue (storage ?s) name k = Some v"
  proof (cases "key = ''type'' \<and> p \<noteq> [] \<and> ?X \<noteq> []")
    case True
    then have val: "val = T" using Cons.prems(1) e by auto
    from u True run(1) obtain st2 w2 where
      up: "updateRemote rx rngu name ?X (storage ?s) (world s) = (None, st2, w2)" and "storage u = st2"
      using assms(1) by (auto simp: UpdateRemote_def Let_def split: prod.splits)
    moreover have "StoreValue (storage ?s) name ''type'' = Some T" using True val by (simp add: cs.look_upd)
    ultimately show ?thesis
      using updateRemote_value [OF up assms(2,3) _ assms(4,5) _ that] assms(6) val by simp
  next
    case False
    then have "u = ?s" using u by (auto simp: Let_def split: if_splits)
    with that show ?thesis by simp
  qed
  with here have "(\<exists>v \<in> vs. StoreValue (storage u) name k = Some v) \<or> k \<in> fst ` set es" by blast
  with Cons.IH [OF _ _ run(2)] Cons.prems(1,2) show ?case by auto
qed auto

lemma generated_pvp:
  assumes "generateConfigData rng pvp0 = Inr pvp" and "configData pvp0 = ''''"
  shows "remoteType pvp0 \<noteq> ''''" and "extractRemoteTypeParams (rng (pvp_params pvp0)) (remoteType pvp0) \<noteq> []"
    and "pvp = pvp0\<lparr>configData := generateRecloneConfigFromParams
      (rng (extractRemoteTypeParams (rng (pvp_params pvp0)) (remoteType pvp0))) (remoteType pvp0) (remoteName pvp0)\<rparr>"
  using assms by (auto simp: generateConfigData_def Let_def split: if_splits)

lemma singleton_order: "range_order rng \<Longrightarrow> rng [x] = [x]"
  using range_order_def by (metis mset_single_iff_right mset.simps(1) mset.simps(2))

lemma load_generated:
  assumes "range_order rng" and "range_order rngs" and "0 < h_fuel h"
    and "generateConfigData rng pvp0 = Inr pvp" and "configData pvp0 = ''''"
    and "es = extractRemoteTypeParams (rng (pvp_params pvp0)) (remoteType pvp0)"
    and "\<forall>e \<in> set es. plain_key (fst e) \<and> plain_value (snd e)"
    and "plain_value (remoteType pvp0)" and "plain_section (remoteName pvp0)"
    and "run_state (loadRcloneConfig h rng rngs pvp) s = (Reply remotes, t)"
  obtains m where "get m = [''type'' \<mapsto> remoteType pvp0] ++ get es" and "wf_map m"
    and "run_state (load_keys h rng (pvp_params pvp0) (remoteName pvp0) (rng m)) s = (None, t)"
proof -
  note gen = generated_pvp(3) [OF assms(4,5), folded assms(6)]
  have wf: "wf_map (rng es)" and es: "get (rng es) = get es" "set (rng es) = set es"
    using range_order_wf [OF assms(1), of es] range_order_get [OF assms(1), of es] range_order_set [OF assms(1), of es]
      assms(6) by simp_all
  obtain f where fuel: "h_fuel h = Suc f" using assms(3) gr0_implies_Suc by blast
  obtain m where parsed: "parseAllConfigRemotes (h_fuel h) (configData pvp) = Some (Inr [(remoteName pvp0, m)])"
    and m: "get m = [''type'' \<mapsto> remoteType pvp0] ++ get es"
    using parse_generated [OF wf _ assms(8,9), of f] assms(7) es gen fuel by auto
  have wfm: "wf_map m" using parse_inner_wf [OF parsed] by simp
  have ne: "configData pvp \<noteq> ''''" using gen by (simp add: generateRecloneConfigFromParams_def)
  from load_config_cases [OF assms(10) ne parsed]
  have "run_state (load_remotes h rng (pvp_params pvp) [] [(remoteName pvp0, m)]) s = (Inr remotes, t)"
    using singleton_order [OF assms(2)] by (metis outcome.distinct(1) outcome.inject(1))
  moreover obtain x u where u: "run_state (load_keys h rng (pvp_params pvp) (remoteName pvp0) (rng m)) s = (x, u)"
    by (cases "run_state (load_keys h rng (pvp_params pvp) (remoteName pvp0) (rng m)) s")
  ultimately have "x = None \<and> u = t" by (cases x) simp_all
  with u gen show thesis using that [OF m wfm] by simp
qed

text \<open>\<open>UpdateRemote\<close> checks the name of the remote, so a load that calls it succeeds for legal names only.\<close>

lemma load_keys_legal:
  assumes "h_UpdateRemote h = updateRemote rx rngu" and "p \<noteq> []" and "extractRemoteTypeParams (rng p) T \<noteq> []"
    and "run_state (load_keys h rng p name es) s = (None, t)" and "(''type'', T) \<in> set es"
  shows "CheckConfigName name"
  using assms(4,5)
proof (induction es arbitrary: s)
  case (Cons e es)
  obtain key val where e: "e = (key, val)" by (cases e)
  let ?m = "if key = ''type'' \<and> p \<noteq> []
    then let remoteParams = extractRemoteTypeParams (rng p) val in
      if remoteParams \<noteq> [] then UpdateRemote h name remoteParams else return None
    else return None"
  let ?s = "s\<lparr>storage := SetSectionValue (storage s) name key val\<rparr>"
  obtain x u where u: "run_state ?m ?s = (x, u)" by (cases "run_state ?m ?s")
  have run: "x = None" "run_state (load_keys h rng p name es) u = (None, t)"
    using Cons.prems(1) u e by (cases x; simp)+
  show ?case
  proof (cases "(''type'', T) \<in> set es")
    case True
    with Cons.IH run(2) show ?thesis by blast
  next
    case False
    then have "key = ''type''" "val = T" using Cons.prems(2) e by auto
    with u run(1) assms(1-3) obtain st2 w2 where
      "updateRemote rx rngu name (extractRemoteTypeParams (rng p) T) (storage ?s) (world s) = (None, st2, w2)"
      by (auto simp: UpdateRemote_def Let_def split: prod.splits)
    then show ?thesis by (rule updateRemote_legal)
  qed
qed simp

lemma generated_loaded:
  assumes "range_order rng" and "range_order rngs" and "0 < h_fuel h"
    and "generateConfigData rng pvp0 = Inr pvp" and "configData pvp0 = ''''"
    and "es = extractRemoteTypeParams (rng (pvp_params pvp0)) (remoteType pvp0)"
    and "\<forall>e \<in> set es. plain_key (fst e) \<and> plain_value (snd e)"
    and "plain_value (remoteType pvp0)" and "plain_section (remoteName pvp0)"
    and "run_state (loadRcloneConfig h rng rngs pvp) s = (Reply remotes, t)"
    and "h_UpdateRemote h = updateRemote rx rngu" and "range_order rngu"
    and "rx_environ rx (ConfigToEnv (remoteName pvp0) ''type'') = None"
    and "Find (rx_registry rx) (remoteType pvp0) = Inr ri" and type: "get es ''type'' = None"
  shows "CheckConfigName (remoteName pvp0)"
    and "setup_keeps rx ri ''type'' \<Longrightarrow> StoreValue (storage t) (remoteName pvp0) ''type'' = Some (remoteType pvp0)"
    and "setup_keeps rx ri k \<Longrightarrow> get es k = Some v \<Longrightarrow>
      \<exists>w. (w = v \<or> obscured rx ri k v = Inr w) \<and> StoreValue (storage t) (remoteName pvp0) k = Some w"
    and "setup_keeps rx ri k \<Longrightarrow> get es k = None \<Longrightarrow> k \<noteq> ''type'' \<Longrightarrow>
      StoreValue (storage s) (remoteName pvp0) k = Some v \<Longrightarrow> StoreValue (storage t) (remoteName pvp0) k = Some v"
proof -
  let ?n = "remoteName pvp0" and ?T = "remoteType pvp0"
  obtain m where m: "get m = [''type'' \<mapsto> ?T] ++ get es" and wfm: "wf_map m"
    and run: "run_state (load_keys h rng (pvp_params pvp0) ?n (rng m)) s = (None, t)"
    by (rule load_generated [OF assms(1-10)])
  have gm: "get (rng m) = get m" and wfr: "wf_map (rng m)"
    using range_order_get [OF assms(1) wfm] range_order_wf [OF assms(1), of m] wfm by simp_all
  have wfes: "wf_map es" using assms(6) by simp
  have entry: "(k, x) \<in> set q \<longleftrightarrow> get q k = Some x" if "wf_map q" for k x and q :: params
    using that by (simp add: wf_map_def)
  have dom: "k \<in> fst ` set q" if "get q k = Some x" for k x and q :: params
    using map_of_SomeD [OF that] by (metis fst_conv image_eqI)
  note loaded = load_keys_value [OF assms(11-14) _ _ _ _ run]
  note facts = m gm dom entry [OF wfr] entry [OF wfes, unfolded assms(6)] type [unfolded assms(6)]
  have types: "\<forall>x. (''type'', x) \<in> set (rng m) \<longrightarrow> x = ?T"
    using type by (simp add: entry [OF wfr] gm m map_add_def)
  show "StoreValue (storage t) ?n ''type'' = Some ?T" if "setup_keeps rx ri ''type''"
    using loaded [OF that _ types, of "{?T}"] types dom [of "rng m" "''type''" ?T] type
      entry [OF wfes] assms(6) by (simp add: gm m map_add_def)
  show "\<exists>w. (w = v \<or> obscured rx ri k v = Inr w) \<and> StoreValue (storage t) ?n k = Some w"
    if "setup_keeps rx ri k" "get es k = Some v"
    using loaded [OF that(1) _ types, of "{w. w = v \<or> obscured rx ri k v = Inr w}"] that(2) dom [of "rng m" k v]
      entry [OF wfes] entry [OF wfr] assms(6) by (auto simp: gm m map_add_def)
  show "StoreValue (storage t) ?n k = Some v"
    if "setup_keeps rx ri k" "get es k = None" "k \<noteq> ''type''" "StoreValue (storage s) ?n k = Some v"
    using loaded [OF that(1) _ types, of "{v}"] that(2-4) entry [OF wfes] entry [OF wfr] assms(6)
    by (simp add: gm m map_add_def)
  have es: "es \<noteq> []" using generated_pvp(2) [OF assms(4,5)] assms(6) by simp
  have "pvp_params pvp0 \<noteq> []"
  proof
    assume "pvp_params pvp0 = []"
    then have "rng (pvp_params pvp0) = []" using range_order_set [OF assms(1), of "[]"] by simp
    then show False using es assms(6) by (simp add: extractRemoteTypeParams_def)
  qed
  moreover have "(''type'', ?T) \<in> set (rng m)" using type by (simp add: entry [OF wfr] gm m map_add_def)
  ultimately show "CheckConfigName ?n" using load_keys_legal [OF assms(11) _ _ run] es assms(6) by blast
qed


text \<open>
  C37: A section is merged into, not replaced: what an earlier volume with the same name of its remote has
  left in memory is seen by the backend of the later one wherever its own parameters, the flags and the environment say
  nothing, credentials included.
\<close>

theorem stale_options_survive:
  assumes "range_order rng" and "range_order rngs" and "0 < h_fuel h"
    and "generateConfigData rng pvp0 = Inr pvp" and "configData pvp0 = ''''"
    and "es = extractRemoteTypeParams (rng (pvp_params pvp0)) (remoteType pvp0)"
    and "\<forall>e \<in> set es. plain_key (fst e) \<and> plain_value (snd e)"
    and "plain_value (remoteType pvp0)" and "plain_section (remoteName pvp0)"
    and "run_state (loadRcloneConfig h rng rngs pvp) s = (Reply remotes, t)"
    and "h_UpdateRemote h = updateRemote rx rngu" and "range_order rngu"
    and "rx_environ rx (ConfigToEnv (remoteName pvp0) ''type'') = None"
    and "Find (rx_registry rx) (remoteType pvp0) = Inr ri" and "get es ''type'' = None" and "setup_keeps rx ri ''type''"
    and "StoreValue (storage s) (remoteName pvp0) k = Some v" and "v \<noteq> ''''" and "k \<noteq> ''type''" and "get es k = None"
    and "setup_keeps rx ri k" and "overriding (rx_environ rx) (remoteName pvp0) ri k = None"
  shows "\<exists>r cfg. ConfigFs (rx_registry rx) (rx_environ rx) (storage t) (buildFsPath (remoteName pvp) (remotePath pvp))
      = Inr (r, cfg) \<and> MapGet cfg k = Some v"
proof -
  note loaded = generated_loaded [OF assms(1-15)]
  have "StoreValue (storage t) (remoteName pvp0) k = Some v" using loaded(4) [OF assms(21,20,19,17)] .
  then show ?thesis
    using ConfigFs_loaded [where env = "rx_environ rx" and registry = "rx_registry rx", OF loaded(1) assms(13) loaded(2) [OF assms(16)] generated_pvp(1) [OF assms(4,5)] assms(14),
        of "remotePath pvp"] generated_pvp(3) [OF assms(4,5)] assms(18,22)
    by (auto simp: layered_def)
qed

section \<open>Sample backends\<close>

definition sample_option :: "bool \<Rightarrow> string \<Rightarrow> option_info" where
  "sample_option pass n = \<lparr>oi_Name = n, oi_IsDefault = True, oi_String = '''', oi_NoPrefix = False, oi_IsPassword = pass\<rparr>"

text \<open>
  A few of the options of \<open>s3\<close>, whose set-up may write the option \<open>endpoint\<close>, and of \<open>sftp\<close>, which has a password
  and no set-up.
\<close>

definition sample_s3 :: reg_info where
  "sample_s3 = \<lparr>ri_Name = ''s3'', ri_Prefix = ''s3'',
     ri_Options = List.map (sample_option False) [''provider'', ''access_key_id'', ''secret_access_key'', ''region'', ''endpoint''],
     ri_hasConfig = True\<rparr>"

definition sample_sftp :: reg_info where
  "sample_sftp = \<lparr>ri_Name = ''sftp'', ri_Prefix = ''sftp'',
     ri_Options = [sample_option False ''host'', sample_option True ''pass''], ri_hasConfig = False\<rparr>"

definition sample_local :: reg_info where
  "sample_local = \<lparr>ri_Name = ''local'', ri_Prefix = ''local'', ri_Options = [], ri_hasConfig = False\<rparr>"

text \<open>The set-up of \<open>s3\<close>: for one provider, a service says the endpoint that belongs to the access key.\<close>

definition sample_setup ::
    "string \<Rightarrow> reg_info \<Rightarrow> params \<Rightarrow> config_storage \<Rightarrow> 'w \<Rightarrow> string option \<times> config_storage \<times> 'w" where
  "sample_setup name ri choices st w =
     (let m = ConfigMap (\<lambda>x. None) st (ri_Prefix ri) (Some (ri_Options ri)) name None in
      if MapGet m ''provider'' \<noteq> Some ''IDrive'' \<or> MapGet m ''access_key_id'' = None \<or> MapGet m ''access_key_id'' = Some ''''
      then (None, st, w)
      else (None, SetSectionValue st name ''endpoint'' ''e2.example'', w))"

text \<open>Obscuring puts a mark before a password.\<close>

definition sample_rx :: "sample_world rclone_env" where
  "sample_rx = \<lparr>rx_registry = [sample_local, sample_s3, sample_sftp], rx_environ = (\<lambda>x. None),
     rx_Obscure = (\<lambda>v. Inr (CHR ''*'' # v)), rx_revealed = (\<lambda>v. HasPrefix v ''*''), rx_Config = sample_setup\<rparr>"

lemma sample_setup_keeps: "k \<noteq> ''endpoint'' \<Longrightarrow> setup_keeps sample_rx ri k"
  by (simp add: setup_keeps_def sample_rx_def sample_setup_def Let_def cs.look_upd)

lemma sample_setup_own: "setup_own_section sample_rx"
  by (simp add: setup_own_section_def sample_rx_def sample_setup_def Let_def same_outside_set cs.has_upd)

definition rclone_host :: "sample_world host" where
  "rclone_host = sample_host\<lparr>h_UpdateRemote := updateRemote sample_rx (\<lambda>m. m)\<rparr>"

lemma rclone_host_parts:
  "h_UpdateRemote rclone_host = updateRemote sample_rx (\<lambda>m. m)" "0 < h_fuel rclone_host"
  by (simp_all add: rclone_host_def sample_host_def)

theorem update_stays_in_section_witness: "updates_own_section rclone_host"
  by (rule update_stays_in_section [OF rclone_host_parts(1) sample_setup_own])

definition tenant_volume :: "string \<Rightarrow> params \<Rightarrow> publish_volume_params" where
  "tenant_volume ty p = \<lparr>remoteName = ''store'', remotePath = ''bucket'', configData = '''', remoteType = ty, pvp_params = p\<rparr>"

abbreviation generated :: "publish_volume_params \<Rightarrow> publish_volume_params" where
  "generated pvp \<equiv> projr (generateConfigData (\<lambda>m. m) pvp)"

text \<open>Loading a volume of the sample host, in a state.\<close>

definition loaded_state :: "(params \<Rightarrow> params) \<Rightarrow> publish_volume_params \<Rightarrow> sample_world node_state \<Rightarrow> sample_world node_state" where
  "loaded_state rng pvp s = snd (run_state (loadRcloneConfig rclone_host rng (\<lambda>m. m) (projr (generateConfigData rng pvp))) s)"

definition first_tenant :: publish_volume_params where
  "first_tenant = tenant_volume ''s3'' [(''s3_region'', ''eu''), (''s3_secret_access_key'', ''alpha'')]"

definition second_tenant :: publish_volume_params where
  "second_tenant = tenant_volume ''s3'' [(''s3_region'', ''us''), (''s3_provider'', ''IDrive''), (''s3_access_key_id'', ''beta'')]"

definition second_options :: params where
  "second_options = [(''region'', ''us''), (''provider'', ''IDrive''), (''access_key_id'', ''beta'')]"

definition first_state :: "sample_world node_state" where
  "first_state = loaded_state (\<lambda>m. m) first_tenant (new_node_state sample_start)"

definition both_tenants :: "sample_world node_state" where
  "both_tenants = loaded_state (\<lambda>m. m) second_tenant first_state"

lemma second_tenant_facts:
  "generateConfigData (\<lambda>m. m) second_tenant = Inr (generated second_tenant)"
  "configData second_tenant = ''''"
  "second_options = extractRemoteTypeParams (pvp_params second_tenant) (remoteType second_tenant)"
  "\<forall>e \<in> set second_options. plain_key (fst e) \<and> plain_value (snd e)"
  "plain_value (remoteType second_tenant)" "plain_section (remoteName second_tenant)"
  "Find (rx_registry sample_rx) (remoteType second_tenant) = Inr sample_s3" "get second_options ''type'' = None"
  by code_simp+

lemma second_load:
  "run_state (loadRcloneConfig rclone_host (\<lambda>m. m) (\<lambda>m. m) (generated second_tenant)) first_state = (Reply [''store''], both_tenants)"
proof -
  have "fst (run_state (loadRcloneConfig rclone_host (\<lambda>m. m) (\<lambda>m. m) (generated second_tenant)) first_state) = Reply [''store'']"
    by code_simp
  then show ?thesis unfolding both_tenants_def loaded_state_def by (simp add: prod_eq_iff)
qed

lemma sample_environ: "rx_environ sample_rx x = None"
  by (simp add: sample_rx_def)

lemmas second_tenant_load = range_order_id range_order_id rclone_host_parts(2) second_tenant_facts(1-6) second_load
  rclone_host_parts(1) range_order_id sample_environ second_tenant_facts(7,8) sample_setup_keeps


theorem stale_options_survive_witness:
  "\<exists>r cfg. ConfigFs (rx_registry sample_rx) (rx_environ sample_rx) (storage both_tenants) ''store:bucket'' = Inr (r, cfg)
     \<and> MapGet cfg ''secret_access_key'' = Some ''alpha''"
proof -
  have "get second_options ''secret_access_key'' = None"
    "StoreValue (storage first_state) (remoteName second_tenant) ''secret_access_key'' = Some ''alpha''"
    "overriding (rx_environ sample_rx) (remoteName second_tenant) sample_s3 ''secret_access_key'' = None" by code_simp+
  moreover have "buildFsPath (remoteName (generated second_tenant)) (remotePath (generated second_tenant)) = ''store:bucket''" by code_simp
  moreover have "setup_keeps sample_rx sample_s3 ''secret_access_key''" by (simp add: sample_setup_keeps)
  ultimately show ?thesis
    using stale_options_survive [OF second_tenant_load, of "''secret_access_key''" "''alpha''"] by simp
qed

section \<open>Obscuring a password is a matter of chance\<close>

text \<open>
  A password among the parameters is in the generated text as it is.  \<open>UpdateRemote\<close> obscures it when the key \<open>type\<close>
  is visited; if the runtime visits the key of the password after that, the text overwrites it.
\<close>

theorem obscured_by_chance:
  "StoreValue (storage (loaded_state (\<lambda>m. m) (tenant_volume ''sftp'' [(''sftp_pass'', ''word'')]) (new_node_state sample_start)))
     ''store'' ''pass'' = Some ''word''
   \<and> StoreValue (storage (loaded_state rev (tenant_volume ''sftp'' [(''sftp_pass'', ''word'')]) (new_node_state sample_start)))
     ''store'' ''pass'' = Some ''*word''"
  by code_simp

section \<open>Remotes that are not in the configuration\<close>

text \<open>
  C38: A remote that begins with a colon names a backend, not a remote of the configuration: whatever has been
  loaded, the backend is the one of that name, and each of its options comes from the flags, the environment or the
  section with just this name, colon included, and without such a section is the backend's default.
\<close>

theorem on_the_fly_backend:
  assumes "CheckConfigName b" and "Find registry b = Inr ri"
  shows "\<exists>cfg. ConfigFs registry env st (buildFsPath (CHR '':'' # b) p)
      = Inr (\<lparr>or_fsInfo = ri, or_configName = CHR '':'' # b, or_fsPath = p, or_connection = None\<rparr>, cfg)
    \<and> (\<forall>k. MapGet cfg k = layered env (CHR '':'' # b) ri (StoreValue st (CHR '':'' # b) k) k)
    \<and> (\<not> HasSection st (CHR '':'' # b) \<longrightarrow> (\<forall>k. MapGet cfg k = (case overriding env (CHR '':'' # b) ri k of
        Some u \<Rightarrow> Some u | None \<Rightarrow> regInfoValues (ri_Options ri) True k)))"
proof -
  let ?n = "CHR '':'' # b"
  have "Parse_path (buildFsPath ?n p) = Inr \<lparr>pa_Name = ?n, pa_ConfigString = ?n, pa_Path = p, pa_Config = None\<rparr>"
    unfolding buildFsPath_eq by (rule parse_legal) (use assms(1) in \<open>simp add: path_name_def\<close>)
  then have "ConfigFs registry env st (buildFsPath ?n p) = Inr (\<lparr>or_fsInfo = ri, or_configName = ?n, or_fsPath = p,
      or_connection = None\<rparr>, ConfigMap env st (ri_Prefix ri) (Some (ri_Options ri)) ?n None)"
    using assms(2) by (simp add: ConfigFs_def ParseRemote_def HasPrefix_Cons Let_def)
  moreover have "StoreValue st ?n k = None" if "\<not> HasSection st ?n" for k
    using that by (simp add: cs.look_absent)
  ultimately show ?thesis using MapGet_layered [of ?n] by (auto simp: layered_def)
qed

definition local_request :: publish_request where
  "local_request = sample_publish\<lparr>pr_volume_context := [(''remote'', '':local''), (''remotePath'', ''/etc''),
     (''configData'', ''[x]\<newline>type = s3\<newline>'')]\<rparr>"

lemma local_request_accepted:
  "map_sum id (\<lambda>pvp. buildFsPath (remoteName pvp) (remotePath pvp))
     (extractPublishParams (mergeVolumeParameters (\<lambda>m. m) local_request)) = Inr '':local:/etc''"
  by code_simp

text \<open>The sample host after a load: the backend is the local file system, and has none of the loaded options.\<close>

theorem on_the_fly_backend_witness:
  "\<exists>cfg. ConfigFs (rx_registry sample_rx) (rx_environ sample_rx) (storage both_tenants) '':local:/etc''
      = Inr (\<lparr>or_fsInfo = sample_local, or_configName = '':local'', or_fsPath = ''/etc'', or_connection = None\<rparr>, cfg)
    \<and> MapGet cfg ''region'' = None"
proof -
  have "CheckConfigName ''local''" and "Find (rx_registry sample_rx) ''local'' = Inr sample_local"
    and "\<not> HasSection (storage both_tenants) '':local''"
    and "overriding (rx_environ sample_rx) '':local'' sample_local ''region'' = None"
    and "regInfoValues (ri_Options sample_local) True ''region'' = None" by code_simp+
  then show ?thesis
    using on_the_fly_backend [of "''local''" "rx_registry sample_rx" sample_local "rx_environ sample_rx" "storage both_tenants" "''/etc''"]
    by (fastforce simp: buildFsPath_def)
qed

text \<open>A section with the name of a remote on the fly does count.\<close>

lemma on_the_fly_section:
  "map_sum id (\<lambda>x. MapGet (snd x) ''region'') (ConfigFs (rx_registry sample_rx) (rx_environ sample_rx)
     (SetSectionValue newDefaultStorage '':s3'' ''region'' ''eu'') '':s3:bucket'') = Inr (Some ''eu'')"
  by code_simp

end
