(* ===== verification/Controller_Log.thy ===== *)
theory Controller_Log
  imports Controller
begin

text \<open>
  What \<open>CreateVolume\<close> of \<open>pkg/rclone/controllerserver.go\<close> writes to the log: its own lines, with the verbosity that
  each needs, and what they give away of the parameters.
\<close>

section \<open>The lines\<close>

text \<open>The values of names that contain one of four words are masked; \<open>quote\<close> is the verb \<open>%q\<close>.\<close>

definition sensitive :: "string \<Rightarrow> bool" where
  "sensitive k \<longleftrightarrow> Contains (ToLower k) ''key'' \<or> Contains (ToLower k) ''secret''
     \<or> Contains (ToLower k) ''password'' \<or> Contains (ToLower k) ''token''"

definition parameter_line :: "(string \<Rightarrow> string) \<Rightarrow> string \<times> string \<Rightarrow> string" where
  "parameter_line quote e = ''CreateVolume parameter: '' @ quote (fst e) @ '' = '' @
     (if sensitive (fst e) then ''[MASKED]'' else quote (snd e))"

text \<open>The verb \<open>%v\<close> for a list of strings.\<close>

fun spaced :: "string list \<Rightarrow> string" where
  "spaced [] = ''''"
| "spaced [s] = s"
| "spaced (s # ss) = s @ '' '' @ spaced ss"

definition list_text :: "string list \<Rightarrow> string" where
  "list_text ss = ''['' @ spaced ss @ '']''"

definition CreateVolume_log ::
    "(string \<Rightarrow> string) \<Rightarrow> (params \<Rightarrow> params) \<Rightarrow> create_volume_request \<Rightarrow> (nat \<times> string) list" where
  "CreateVolume_log quote rng req =
     (if cv_name req = '''' then []
      else case isValidVolumeCapabilities (cv_capabilities req) of
        Some e \<Rightarrow> []
      | None \<Rightarrow>
          let parameters = (case cv_parameters req of None \<Rightarrow> [] | Some p \<Rightarrow> p);
              s = scan_parameters scan_start (rng parameters);
              remotePath = (if s_remotePath s \<noteq> ''''
                            then replaceWithMap (s_remotePath s) (rng (s_replace s))
                            else s_remotePath s)
          in [(2, ''CreateVolume: received '' @ show_nat (length parameters) @ '' parameters'')]
             @ List.map (\<lambda>e. (4, parameter_line quote e)) (rng parameters)
             @ [(4, ''Validating parameters for volume '' @ cv_name req)]
             @ (if s_unknown s \<noteq> []
                then [(2, ''Unknown parameters in storage class: '' @ list_text (s_unknown s))] else [])
             @ [(2, ''CreateVolume: name='' @ cv_name req @
                  (if s_remote s \<noteq> ''''
                   then '', remote='' @ s_remote s @ '', remotePath='' @ remotePath @
                     '', volumeID='' @ s_remote s @ volume_separator @ cv_name req
                   else '', remote from secret, remotePath='' @ remotePath @ '', volumeID='' @ cv_name req))])"

section \<open>Names of secrets\<close>

lemma HasPrefix_ex: "HasPrefix s w \<longleftrightarrow> (\<exists>v. s = w @ v)"
  unfolding HasPrefix_def by (metis append_eq_conv_conj append_take_drop_id)

lemma Contains_sublist: "Contains s w \<longleftrightarrow> sublist w s"
proof (induction s)
  case (Cons c s)
  have "sublist w (c # s) \<longleftrightarrow> HasPrefix (c # s) w \<or> sublist w s"
    unfolding HasPrefix_ex by (simp add: sublist_Cons_right prefix_def)
  then show ?case using Cons by (simp add: Contains_def)
qed (simp add: Contains_def)

text \<open>A name that has one of the words in it, in any case of its letters.\<close>

definition names_secret :: "string \<Rightarrow> bool" where
  "names_secret k \<longleftrightarrow>
     (\<exists>u w v. k = u @ w @ v \<and> ToLower w \<in> {''key'', ''secret'', ''password'', ''token''})"

lemma sublist_ToLower: "sublist w (ToLower k) \<longleftrightarrow> (\<exists>u x v. k = u @ x @ v \<and> ToLower x = w)"
proof
  assume "sublist w (ToLower k)"
  then obtain u v where "List.map lower_char k = u @ w @ v" by (auto simp: sublist_def ToLower_def)
  then obtain u1 r where k: "k = u1 @ r" and "List.map lower_char r = w @ v" by (metis map_eq_append_conv)
  then obtain x v1 where "r = x @ v1" and "List.map lower_char x = w" by (metis map_eq_append_conv)
  with k show "\<exists>u x v. k = u @ x @ v \<and> ToLower x = w" unfolding ToLower_def by blast
next
  assume "\<exists>u x v. k = u @ x @ v \<and> ToLower x = w"
  then show "sublist w (ToLower k)" unfolding ToLower_def by auto
qed

lemma sublist_ToLower_in: "(\<exists>u x v. k = u @ x @ v \<and> ToLower x \<in> ws) \<longleftrightarrow> (\<exists>w \<in> ws. sublist w (ToLower k))"
  unfolding sublist_ToLower by blast

lemma sensitive_iff: "sensitive k \<longleftrightarrow> names_secret k"
  unfolding sensitive_def names_secret_def sublist_ToLower_in Contains_sublist by simp

text \<open>Blanks around a name do not matter.\<close>

lemma TrimSpace_split: "\<exists>a b. k = a @ TrimSpace k @ b \<and> (\<forall>c \<in> set a \<union> set b. is_space c)"
proof -
  let ?d = "dropWhile is_space k" and ?b = "rev (takeWhile is_space (rev (dropWhile is_space k)))"
  have "rev ?d = takeWhile is_space (rev ?d) @ dropWhile is_space (rev ?d)" by simp
  then have "rev (rev ?d) = TrimSpace k @ ?b" unfolding TrimSpace_def rev_append [symmetric] by simp
  then have "takeWhile is_space k @ ?d = takeWhile is_space k @ TrimSpace k @ ?b" by simp
  then have "k = takeWhile is_space k @ TrimSpace k @ ?b" unfolding takeWhile_dropWhile_id .
  moreover have "\<forall>c \<in> set (takeWhile is_space k) \<union> set ?b. is_space c" by (auto dest: set_takeWhileD)
  ultimately show ?thesis by blast
qed

lemma sublist_after_blanks:
  assumes "sublist w (a @ y)" and "set a \<inter> set w = {}" and "w \<noteq> []"
  shows "sublist w y"
proof -
  have "\<not> sublist w a" using assms(2,3) set_mono_sublist [of w a] by (cases w) auto
  moreover have "sublist w y" if "w = u @ v" "suffix u a" "prefix v y" for u v
    using that assms(2) set_mono_suffix [OF that(2)] by (cases u) (auto simp: prefix_imp_sublist)
  ultimately show ?thesis using assms(1) unfolding sublist_append by blast
qed

lemma sublist_trimmed:
  assumes "sublist w (a @ x @ b)" and "\<forall>c \<in> set a \<union> set b. is_space c" and "w \<noteq> []" and "\<forall>c \<in> set w. \<not> is_space c"
  shows "sublist w x"
proof -
  have "sublist w (x @ b)" by (rule sublist_after_blanks [OF assms(1)]) (use assms(2-4) in auto)
  then have "sublist (rev w) (rev b @ rev x)" by (simp flip: rev_append)
  then have "sublist (rev w) (rev x)" by (rule sublist_after_blanks) (use assms(2-4) in auto)
  then show ?thesis by simp
qed

section \<open>What the log gives away\<close>

lemma word_blanks: "w \<in> {''key'', ''secret'', ''password'', ''token''} \<Longrightarrow> w \<noteq> [] \<and> (\<forall>c \<in> set w. \<not> is_space c)"
  by (auto simp: is_space_def)

lemma lower_space: "is_space (lower_char c) \<longleftrightarrow> is_space c"
  by (auto simp: is_space_def lower_char_def is_upper_def of_char_of take_bit_nat_eq_self char_of_eq_iff)

lemma sensitive_TrimSpace: "sensitive k \<Longrightarrow> sensitive (TrimSpace k)"
proof -
  assume k: "sensitive k"
  obtain a b where s: "k = a @ TrimSpace k @ b" "\<forall>c \<in> set a \<union> set b. is_space c"
    using TrimSpace_split by blast
  then have "ToLower k = ToLower a @ ToLower (TrimSpace k) @ ToLower b" by (simp add: ToLower_def flip: map_append)
  moreover have "\<forall>c \<in> set (ToLower a) \<union> set (ToLower b). is_space c" using s(2) by (auto simp: ToLower_def lower_space)
  ultimately have "sublist w (ToLower (TrimSpace k))"
    if "sublist w (ToLower k)" "w \<in> {''key'', ''secret'', ''password'', ''token''}" for w
    using sublist_trimmed word_blanks that by metis
  with k show ?thesis by (auto simp: sensitive_def Contains_sublist)
qed

lemma known_not_sensitive:
  "\<forall>l \<in> {''remote'', ''remotepath'', ''configdata'', pvcNamespaceKey, pvcNameKey, pvNameKey}.
     \<not> (Contains l ''key'' \<or> Contains l ''secret'' \<or> Contains l ''password'' \<or> Contains l ''token'')"
  by code_simp

text \<open>A secret is an unknown parameter, of which the scan keeps the name only.\<close>

lemma scan_secret:
  assumes "sensitive k"
  shows "scan_parameter s (k, v) = s\<lparr>s_unknown := s_unknown s @ [TrimSpace k]\<rparr>"
proof -
  have "ToLower (TrimSpace k) \<notin> {''remote'', ''remotepath'', ''configdata'', pvcNamespaceKey, pvcNameKey, pvNameKey}"
    using sensitive_TrimSpace [OF assms] known_not_sensitive by (auto simp: sensitive_def)
  then show ?thesis by (simp add: scan_parameter_def lower_params Let_def)
qed

text \<open>Parameters that differ in the values of secrets only.\<close>

abbreviation same_but_secrets :: "params \<Rightarrow> params \<Rightarrow> bool" where
  "same_but_secrets \<equiv> list_all2 (\<lambda>e f. fst e = fst f \<and> (names_secret (fst e) \<or> snd e = snd f))"

lemma scan_same:
  "same_but_secrets es fs \<Longrightarrow> scan_parameters s es = scan_parameters s fs"
proof (induction arbitrary: s rule: list_all2_induct)
  case (Cons e es f fs)
  obtain k v x where e: "e = (k, v)" "f = (k, x)" using Cons.hyps(1) by (cases e; cases f) simp
  have "scan_parameter s e = scan_parameter s f"
    using Cons.hyps(1) e scan_secret by (cases "names_secret k") (simp_all add: sensitive_iff)
  then show ?case using Cons.IH by simp
qed simp

lemma lines_same:
  "same_but_secrets es fs \<Longrightarrow> List.map (\<lambda>e. (n, parameter_line quote e)) es = List.map (\<lambda>e. (n, parameter_line quote e)) fs"
  by (induction rule: list_all2_induct) (auto simp: parameter_line_def sensitive_iff)

text \<open>
  C40: No line that \<open>CreateVolume\<close> itself logs depends on the value of a parameter whose name has one of the
  words key, secret, password and token in it, in any case of the letters: requests that differ there only, their
  parameters visited in the same order, leave the same log.  Of every other parameter the value is logged.
\<close>

theorem masked_values_not_logged:
  assumes "range_order rng" and "cv_parameters req = Some p"
    and "list_all2 (\<lambda>e f. fst e = fst f \<and> (names_secret (fst e) \<or> snd e = snd f)) (rng p) (rng q)"
  shows "CreateVolume_log quote rng (req\<lparr>cv_parameters := Some q\<rparr>) = CreateVolume_log quote rng req
    \<and> ((\<exists>v. CreateVolume rng req = Reply v) \<longrightarrow> (\<forall>(k, x) \<in> set p. \<not> names_secret k \<longrightarrow>
        (4, ''CreateVolume parameter: '' @ quote k @ '' = '' @ quote x) \<in> set (CreateVolume_log quote rng req)))"
proof
  have "length p = length q"
    using list_all2_lengthD [OF assms(3)] assms(1) by (metis range_order_def size_mset)
  then show "CreateVolume_log quote rng (req\<lparr>cv_parameters := Some q\<rparr>) = CreateVolume_log quote rng req"
    using scan_same [OF assms(3)] lines_same [OF assms(3), of "4::nat" quote] assms(2) by (simp add: CreateVolume_log_def Let_def split: option.split)
  have line: "(4, parameter_line quote (k, x)) \<in> set (CreateVolume_log quote rng req)"
    if "CreateVolume rng req = Reply v" "(k, x) \<in> set p" for k x v
  proof -
    have "cv_name req \<noteq> ''''" and "isValidVolumeCapabilities (cv_capabilities req) = None"
      using that(1) CreateVolume_ok_iff [of rng req] by (auto simp: valid_capabilities_iff)
    moreover have "(k, x) \<in> set (rng p)" using that(2) range_order_set [OF assms(1)] by simp
    ultimately show ?thesis using assms(2) by (simp add: CreateVolume_log_def Let_def)
  qed
  show "(\<exists>v. CreateVolume rng req = Reply v) \<longrightarrow> (\<forall>(k, x) \<in> set p. \<not> names_secret k \<longrightarrow>
      (4, ''CreateVolume parameter: '' @ quote k @ '' = '' @ quote x) \<in> set (CreateVolume_log quote rng req))"
    using line by (fastforce simp: parameter_line_def sensitive_iff)
qed

text \<open>The same storage class with another password, in a name of mixed case.\<close>

definition sample_class :: "string \<Rightarrow> params" where
  "sample_class v = [(''remote'', ''s3''), ('' S3-passWord '', v)]"

theorem masked_values_not_logged_witness:
  "CreateVolume_log (\<lambda>s. s) rev (sample_request\<lparr>cv_parameters := Some (sample_class ''b'')\<rparr>)
     = CreateVolume_log (\<lambda>s. s) rev (sample_request\<lparr>cv_parameters := Some (sample_class ''a'')\<rparr>)
   \<and> (4, ''CreateVolume parameter: remote = s3'')
       \<in> set (CreateVolume_log (\<lambda>s. s) rev (sample_request\<lparr>cv_parameters := Some (sample_class ''a'')\<rparr>))"
proof -
  let ?req = "sample_request\<lparr>cv_parameters := Some (sample_class ''a'')\<rparr>"
  have secret: "names_secret '' S3-passWord ''" and plain: "\<not> names_secret ''remote''"
    unfolding sensitive_iff [symmetric] by code_simp+
  then have "list_all2 (\<lambda>e f. fst e = fst f \<and> (names_secret (fst e) \<or> snd e = snd f))
      (rev (sample_class ''a'')) (rev (sample_class ''b''))" by (simp add: sample_class_def)
  moreover have "\<exists>v. CreateVolume rev ?req = Reply v"
    by (simp add: CreateVolume_ok_iff sample_request_def)
  moreover have "(''remote'', ''s3'') \<in> set (sample_class ''a'')" by (simp add: sample_class_def)
  ultimately show ?thesis
    using masked_values_not_logged [OF range_order_rev, of ?req "sample_class ''a''" "sample_class ''b''" "\<lambda>s. s"] plain
    by fastforce
qed

text \<open>
  The whole configuration of a remote is not among the secrets: \<open>configData\<close>, credentials and all, is
  logged as it is, and so is a backend's \<open>pass\<close>.
\<close>

theorem configuration_is_logged:
  "\<not> sensitive ''configData'' \<and> \<not> sensitive ''pass''
   \<and> (4, ''CreateVolume parameter: configData = [s3] secret_access_key = hunter2'')
       \<in> set (CreateVolume_log (\<lambda>s. s) (\<lambda>m. m) (sample_request
            \<lparr>cv_parameters := Some [(''configData'', ''[s3] secret_access_key = hunter2'')]\<rparr>))"
  by code_simp

end
