(* ===== verification/Server.thy ===== *)
theory Server
  imports Driver
begin

text \<open>
  The gRPC server of \<open>pkg/rclone/server.go\<close> and its helpers in \<open>pkg/rclone/utils.go\<close>:
  endpoints, the logging interceptor, and the life of the server as a step relation with the
  wait group of \<open>Start\<close> and \<open>Wait\<close>.
\<close>

section \<open>Endpoints\<close>

definition ParseEndpoint :: "string \<Rightarrow> string + (string \<times> string)" where
  "ParseEndpoint ep =
     (let rest = (if HasPrefix ep ''/'' then Inr (''unix'', ep) else Inl (''invalid endpoint: '' @ ep)) in
      if HasPrefix (ToLower ep) ''unix://'' \<or> HasPrefix (ToLower ep) ''tcp://''
      then (let s = SplitN2 ep ''://'' in
            if s ! 1 \<noteq> '''' then Inr (s ! 0, s ! 1) else rest)
      else rest)"

section \<open>Servers and the logging interceptor\<close>

text \<open>Both servers hold a pointer to the driver.\<close>

definition NewDefaultIdentityServer :: "driver \<Rightarrow> driver option" where
  "NewDefaultIdentityServer d = Some d"

definition NewControllerServer :: "driver \<Rightarrow> driver" where
  "NewControllerServer d = d"

definition getLogLevel :: "string \<Rightarrow> nat" where
  "getLogLevel method =
     (if method = ''/csi.v1.Identity/Probe'' \<or> method = ''/csi.v1.Node/NodeGetCapabilities''
         \<or> method = ''/csi.v1.Node/NodeGetVolumeStats''
      then 8 else 2)"

datatype log_line = Verbose nat string | ErrorLine string

text \<open>
  The interceptor takes a message only in the form that \<open>StripSecrets\<close> gives it; the handler is
  the method of the service, which acts on a state.
\<close>

definition logGRPC ::
    "('req \<Rightarrow> string) \<Rightarrow> ('resp \<Rightarrow> string) \<Rightarrow> 'req \<Rightarrow> string
       \<Rightarrow> ('req \<Rightarrow> 's \<Rightarrow> (go_error + 'resp) \<times> 's) \<Rightarrow> 's \<Rightarrow> (go_error + 'resp) \<times> log_line list \<times> 's" where
  "logGRPC stripRequest stripResponse req method handler s =
     (let level = getLogLevel method;
          before = [Verbose level (''GRPC call: '' @ method), Verbose level (''GRPC request: '' @ stripRequest req)];
          (result, t) = handler req s
      in (result,
          before @ [case result of Inl e \<Rightarrow> ErrorLine (''GRPC error: '' @ error_text e)
                    | Inr resp \<Rightarrow> Verbose level (''GRPC response: '' @ stripResponse resp)],
          t))"

section \<open>The life of the server\<close>

datatype serve_pc = NoServe | Spawned | BeforeServe | Serving | ServeReturned | ExitFatal string

text \<open>
  \<open>sv_wg\<close> is the counter of the wait group, \<open>sv_server\<close> the services of the gRPC server
  (\<open>None\<close> before \<open>serve\<close> has made it), \<open>sv_stopped\<close> says that the gRPC server was stopped and
  \<open>sv_stopper\<close> that the goroutine of the test mode waits.
\<close>

record grpc_server =
  sv_wg :: nat
  sv_server :: "string list option"
  sv_stopped :: bool
  sv_pc :: serve_pc
  sv_stopper :: bool

record serve_config =
  sc_Remove :: "string \<Rightarrow> (bool \<times> string) option"
  sc_Listen :: "string \<Rightarrow> string \<Rightarrow> string option"
  sc_endpoint :: string
  sc_services :: "string list"
  sc_testMode :: bool

definition NewNonBlockingGRPCServer :: grpc_server where
  "NewNonBlockingGRPCServer = \<lparr>sv_wg = 0, sv_server = None, sv_stopped = False, sv_pc = NoServe, sv_stopper = False\<rparr>"

definition Start :: "grpc_server \<Rightarrow> grpc_server" where
  "Start s = s\<lparr>sv_wg := sv_wg s + 1, sv_pc := Spawned\<rparr>"

text \<open>\<open>Wait\<close> returns in the states in which the counter of the wait group is zero.\<close>

definition Wait_returns :: "grpc_server \<Rightarrow> bool" where
  "Wait_returns s \<longleftrightarrow> sv_wg s = 0"

definition Stop :: "grpc_server \<Rightarrow> grpc_server outcome" where
  "Stop s = (case sv_server s of
     None \<Rightarrow> Panicked ''nil pointer dereference'' | Some srv \<Rightarrow> Reply (s\<lparr>sv_stopped := True\<rparr>))"

definition ForceStop :: "grpc_server \<Rightarrow> grpc_server outcome" where
  "ForceStop s = (case sv_server s of
     None \<Rightarrow> Panicked ''nil pointer dereference'' | Some srv \<Rightarrow> Reply (s\<lparr>sv_stopped := True\<rparr>))"

text \<open>
  The part of \<open>serve\<close> up to the listener: the message of the fatal error that ends the process,
  or the address.  A removal fails with a pair: whether the file did not exist, and the text.
\<close>

definition serve_listen :: "serve_config \<Rightarrow> string + (string \<times> string)" where
  "serve_listen c =
     (case ParseEndpoint (sc_endpoint c) of
        Inl e \<Rightarrow> Inl e
      | Inr (proto, addr0) \<Rightarrow>
          (let addr = (if proto = ''unix'' then ''/'' @ addr0 else addr0);
               listen = (case sc_Listen c proto addr of
                           Some e \<Rightarrow> Inl (''Failed to listen: '' @ e) | None \<Rightarrow> Inr (proto, addr)) in
           if proto = ''unix''
           then (case sc_Remove c addr of
                   Some (False, e) \<Rightarrow> Inl (''Failed to remove '' @ addr @ '', error: '' @ e)
                 | _ \<Rightarrow> listen)
           else listen))"

text \<open>
  The interleaving of \<open>serve\<close> with the goroutine of the test mode, with calls of \<open>Stop\<close> and with
  failures of the listener.  \<open>Serve\<close> of the gRPC library returns no error after a stop, and an error
  at once when the server was stopped before.
\<close>

inductive server_step :: "serve_config \<Rightarrow> grpc_server \<Rightarrow> grpc_server \<Rightarrow> bool" for c where
  start: "sv_pc s = NoServe \<Longrightarrow> server_step c s (Start s)"
| fatal: "sv_pc s = Spawned \<Longrightarrow> serve_listen c = Inl m \<Longrightarrow> server_step c s (s\<lparr>sv_pc := ExitFatal m\<rparr>)"
| prepare: "sv_pc s = Spawned \<Longrightarrow> serve_listen c = Inr a \<Longrightarrow>
     server_step c s (s\<lparr>sv_server := Some (sc_services c), sv_pc := BeforeServe,
       sv_wg := (if sc_testMode c then sv_wg s - 1 else sv_wg s), sv_stopper := sc_testMode c\<rparr>)"
| serve: "sv_pc s = BeforeServe \<Longrightarrow> \<not> sv_stopped s \<Longrightarrow> server_step c s (s\<lparr>sv_pc := Serving\<rparr>)"
| serve_late: "sv_pc s = BeforeServe \<Longrightarrow> sv_stopped s \<Longrightarrow>
     server_step c s (s\<lparr>sv_pc := ExitFatal ''Failed to serve grpc server: grpc: the server has been stopped''\<rparr>)"
| serve_error: "sv_pc s = Serving \<Longrightarrow> \<not> sv_stopped s \<Longrightarrow>
     server_step c s (s\<lparr>sv_pc := ExitFatal (''Failed to serve grpc server: '' @ e)\<rparr>)"
| serve_done: "sv_pc s = Serving \<Longrightarrow> sv_stopped s \<Longrightarrow> server_step c s (s\<lparr>sv_pc := ServeReturned\<rparr>)"
| test_stop: "sv_stopper s \<Longrightarrow> Wait_returns s \<Longrightarrow> Stop s = Reply t \<Longrightarrow> server_step c s (t\<lparr>sv_stopper := False\<rparr>)"
| stop: "Stop s = Reply t \<Longrightarrow> server_step c s t"
| force_stop: "ForceStop s = Reply t \<Longrightarrow> server_step c s t"

inductive reachable_server :: "serve_config \<Rightarrow> grpc_server \<Rightarrow> bool" for c where
  new: "reachable_server c NewNonBlockingGRPCServer"
| step: "reachable_server c s \<Longrightarrow> server_step c s t \<Longrightarrow> reachable_server c t"

section \<open>Properties\<close>

lemma lower_char_mark:
  assumes "(of_char d :: nat) < 65"
  shows "lower_char c = d \<longleftrightarrow> c = d"
proof
  assume c: "lower_char c = d"
  then have "(of_char (lower_char c) :: nat) < 65" using assms by simp
  then have "\<not> is_upper c" by (auto simp: of_lower_char is_upper_def split: if_splits)
  with c show "c = d" by (simp add: lower_char_id)
next
  assume "c = d"
  moreover have "\<not> is_upper d" using assms by (simp add: is_upper_def)
  ultimately show "lower_char c = d" by (simp add: lower_char_id)
qed

lemma prefix_split:
  assumes "HasPrefix (ToLower ep) (p @ ''://'')" and "CHR '':'' \<notin> set p"
  shows "\<exists>q a. ep = q @ ''://'' @ a \<and> ToLower q = p \<and> SplitN2 ep ''://'' = [q, a]"
proof -
  from assms(1) obtain r where r: "List.map lower_char ep = p @ ''://'' @ r"
    by (auto simp: HasPrefix_iff ToLower_def)
  then obtain q m where q: "ep = q @ m" "List.map lower_char q = p" "List.map lower_char m = ''://'' @ r"
    by (auto simp: map_eq_append_conv)
  from q(3) obtain x y z a where m: "m = x # y # z # a" "lower_char x = CHR '':''" "lower_char y = CHR ''/''"
      "lower_char z = CHR ''/''"
    by (auto simp: map_eq_Cons_conv)
  then have "m = ''://'' @ a" by (simp add: lower_char_mark)
  moreover have "CHR '':'' \<notin> set q"
  proof
    assume "CHR '':'' \<in> set q"
    then have "lower_char (CHR '':'') \<in> set p" using q(2) by auto
    moreover have "lower_char (CHR '':'') = CHR '':''" by (simp add: lower_char_mark)
    ultimately show False using assms(2) by simp
  qed
  ultimately show ?thesis using q SplitN2_cut [of "CHR '':''" q m "''//''" a] by (auto simp: ToLower_def)
qed

lemma lower_char_scheme_marks [simp]: "lower_char (CHR '':'') = CHR '':''" "lower_char (CHR ''/'') = CHR ''/''"
  by (simp_all add: lower_char_mark)

lemma split_prefix: "ToLower q = p \<Longrightarrow> HasPrefix (ToLower (q @ ''://'' @ a)) (p @ ''://'')"
  by (auto simp: HasPrefix_iff)

lemma SplitN2_scheme:
  assumes "ToLower q \<in> {''unix'', ''tcp''}"
  shows "SplitN2 (q @ ''://'' @ b) ''://'' = [q, b]"
proof (rule SplitN2_cut [of _ _ _ "''//''"])
  show "CHR '':'' \<notin> set q"
  proof
    assume "CHR '':'' \<in> set q"
    then have "lower_char (CHR '':'') \<in> set (ToLower q)" by (simp add: ToLower_def del: lower_char_scheme_marks)
    then show False using assms by auto
  qed
qed simp

lemma scheme_no_slash: "ToLower q \<in> {''unix'', ''tcp''} \<Longrightarrow> \<not> HasPrefix (q @ r) ''/''"
  by (cases q) auto

lemma scheme_prefix:
  "HasPrefix (ToLower ep) ''unix://'' \<or> HasPrefix (ToLower ep) ''tcp://'' \<longleftrightarrow>
     (\<exists>q b. ep = q @ ''://'' @ b \<and> ToLower q \<in> {''unix'', ''tcp''})"
  using prefix_split [of ep "''unix''"] prefix_split [of ep "''tcp''"]
    split_prefix [of _ "''unix''"] split_prefix [of _ "''tcp''"] by fastforce

lemma ParseEndpoint_scheme:
  assumes "ToLower q \<in> {''unix'', ''tcp''}"
  shows "ParseEndpoint (q @ ''://'' @ b) =
    (if b \<noteq> '''' then Inr (q, b) else Inl (''invalid endpoint: '' @ q @ ''://'' @ b))"
proof -
  have "HasPrefix (ToLower (q @ ''://'' @ b)) ''unix://'' \<or> HasPrefix (ToLower (q @ ''://'' @ b)) ''tcp://''"
    using assms scheme_prefix by blast
  then show ?thesis
    unfolding ParseEndpoint_def Let_def SplitN2_scheme [OF assms] if_not_P [OF scheme_no_slash [OF assms]] by simp
qed

lemma ParseEndpoint_other:
  assumes "\<nexists>q b. ep = q @ ''://'' @ b \<and> ToLower q \<in> {''unix'', ''tcp''}"
  shows "ParseEndpoint ep = (if HasPrefix ep ''/'' then Inr (''unix'', ep) else Inl (''invalid endpoint: '' @ ep))"
  unfolding ParseEndpoint_def Let_def if_not_P [OF assms [folded scheme_prefix]] by simp

lemma ParseEndpoint_iff:
  "ParseEndpoint ep = Inr (p, a) \<longleftrightarrow>
     (ep = p @ ''://'' @ a \<and> ToLower p \<in> {''unix'', ''tcp''} \<and> a \<noteq> '''')
     \<or> (HasPrefix ep ''/'' \<and> p = ''unix'' \<and> a = ep)"
proof (cases "\<exists>q b. ep = q @ ''://'' @ b \<and> ToLower q \<in> {''unix'', ''tcp''}")
  case True
  then obtain q b where q: "ep = q @ ''://'' @ b" "ToLower q \<in> {''unix'', ''tcp''}" by blast
  have "p = q \<and> a = b" if "ep = p @ ''://'' @ a" and "ToLower p \<in> {''unix'', ''tcp''}"
    using SplitN2_scheme [OF q(2), of b] SplitN2_scheme [OF that(2), of a] q(1) that(1) by simp
  then show ?thesis
    using q ParseEndpoint_scheme [OF q(2), of b] scheme_no_slash [OF q(2), of "''://'' @ b"] by auto
next
  case False
  then show ?thesis using ParseEndpoint_other [OF False] by auto
qed

text \<open>
  An endpoint is read as scheme and address exactly when the scheme is \<open>unix\<close> or \<open>tcp\<close> in
  any case and the address is not empty; a bare absolute path is a unix socket; everything else
  is refused.
\<close>

theorem ParseEndpoint_accepts:
  "ParseEndpoint ep = Inr (p, a) \<longleftrightarrow>
     (ep = p @ ''://'' @ a \<and> ToLower p \<in> {''unix'', ''tcp''} \<and> a \<noteq> '''')
     \<or> (HasPrefix ep ''/'' \<and> p = ''unix'' \<and> a = ep)"
  by (rule ParseEndpoint_iff)

text \<open>
  The scheme is handed on as it was written, but \<open>serve\<close> compares it with the lower-case word and
  \<open>net.Listen\<close> knows only lower-case networks: an upper-case scheme that the parser accepts ends
  the process.
\<close>

definition known_networks :: "serve_config \<Rightarrow> bool" where
  "known_networks c \<longleftrightarrow> (\<forall>n a. n \<notin> {''tcp'', ''tcp4'', ''tcp6'', ''unix'', ''unixpacket''} \<longrightarrow> sc_Listen c n a \<noteq> None)"

lemma uppercase_scheme_is_fatal:
  assumes "known_networks c" and "sc_endpoint c = q @ ''://'' @ a"
    and "ToLower q \<in> {''unix'', ''tcp''}" and "q \<notin> {''unix'', ''tcp''}"
  shows "\<exists>m. serve_listen c = Inl m"
proof (cases "a = ''''")
  case False
  have net: "q \<notin> {''tcp'', ''tcp4'', ''tcp6'', ''unix'', ''unixpacket''}"
    using assms(3,4) by (auto simp: lower_char_def is_upper_def)
  have "sc_Listen c q a \<noteq> None" by (rule assms(1) [unfolded known_networks_def, rule_format, OF net])
  then show ?thesis
    using False assms(2,4) ParseEndpoint_scheme [OF assms(3), of a] by (auto simp: serve_listen_def Let_def)
qed (use assms(2) ParseEndpoint_scheme [OF assms(3), of a] in \<open>simp add: serve_listen_def\<close>)

text \<open>A unix endpoint listens on its path below the root directory, after removing an old socket.\<close>

lemma unix_endpoint_path:
  assumes "sc_endpoint c = ''unix://'' @ a" and "a \<noteq> ''''"
    and "\<forall>p e. sc_Remove c p \<noteq> Some (False, e)" and "sc_Listen c ''unix'' (''/'' @ a) = None"
  shows "serve_listen c = Inr (''unix'', ''/'' @ a)"
proof -
  have "ParseEndpoint (sc_endpoint c) = Inr (''unix'', a)"
    using ParseEndpoint_scheme [of "''unix''" a] assms(1,2) by (simp add: lower_char_def is_upper_def)
  then show ?thesis using assms(3,4) by (auto simp: serve_listen_def Let_def split: option.split bool.split)
qed

subsection \<open>The interceptor\<close>

text \<open>
  The logging interceptor is transparent, and its lines show of the messages only what
  \<open>StripSecrets\<close> leaves: two calls that differ in their secrets only leave the same lines.
\<close>

lemma interceptor_transparent:
  "fst (logGRPC sq sp req method handler s) = fst (handler req s)"
  "snd (snd (logGRPC sq sp req method handler s)) = snd (handler req s)"
  by (simp_all add: logGRPC_def Let_def split: prod.splits)

lemma interceptor_hides_secrets:
  assumes "sq req = sq req'"
    and "map_sum id sp (fst (handler req s)) = map_sum id sp (fst (handler req' s))"
  shows "fst (snd (logGRPC sq sp req method handler s)) = fst (snd (logGRPC sq sp req' method handler s))"
  using assms by (cases "fst (handler req s)"; cases "fst (handler req' s)")
    (auto simp: logGRPC_def Let_def split: prod.splits)

subsection \<open>Waiting for the server\<close>

lemma wait_group_counts:
  "reachable_server c s \<Longrightarrow> \<not> sc_testMode c \<Longrightarrow>
     sv_wg s = (if sv_pc s = NoServe then 0 else 1) \<and> \<not> sv_stopper s"
proof (induction rule: reachable_server.induct)
  case (step s t)
  from step.hyps(2) step.IH step.prems show ?case
    by (cases rule: server_step.cases) (auto simp: Start_def Stop_def ForceStop_def split: option.splits)
qed (simp add: NewNonBlockingGRPCServer_def)

text \<open>
  Outside the test mode nothing ever decrements the wait group: from \<open>Start\<close> on, in every state
  the server can reach, \<open>Wait\<close> does not return; not even when \<open>Stop\<close> has ended \<open>Serve\<close>.
\<close>

theorem wait_never_returns:
  assumes "reachable_server c s" and "\<not> sc_testMode c" and "sv_pc s \<noteq> NoServe"
  shows "\<not> Wait_returns s"
  using wait_group_counts [OF assms(1,2)] assms(3) by (simp add: Wait_returns_def)

definition sample_serve :: "string \<Rightarrow> serve_config" where
  "sample_serve ep = \<lparr>sc_Remove = (\<lambda>p. Some (True, ''no such file'')),
     sc_Listen = (\<lambda>n a. if n \<in> {''tcp'', ''unix''} then None else Some ''unknown network''),
     sc_endpoint = ep, sc_services = [''Identity'', ''Controller'', ''Node''], sc_testMode = False\<rparr>"

lemma stopped_server_reachable:
  "reachable_server (sample_serve ''unix:///csi/csi.sock'')
     \<lparr>sv_wg = 1, sv_server = Some [''Identity'', ''Controller'', ''Node''], sv_stopped = True,
      sv_pc = ServeReturned, sv_stopper = False\<rparr>"
proof -
  let ?c = "sample_serve ''unix:///csi/csi.sock''"
  let ?s = "\<lambda>srv st pc. \<lparr>sv_wg = 1, sv_server = srv, sv_stopped = st, sv_pc = pc, sv_stopper = False\<rparr>"
  let ?srv = "Some [''Identity'', ''Controller'', ''Node'']"
  have "serve_listen ?c = Inr (''unix'', ''//csi/csi.sock'')"
    by (rule unix_endpoint_path [of _ "''/csi/csi.sock''", simplified]) (simp_all add: sample_serve_def)
  then have "server_step ?c (?s None False Spawned) (?s ?srv False BeforeServe)"
    using server_step.prepare [of "?s None False Spawned" ?c] by (simp add: sample_serve_def)
  moreover have "server_step ?c NewNonBlockingGRPCServer (?s None False Spawned)"
    using server_step.start [of NewNonBlockingGRPCServer ?c] by (simp add: NewNonBlockingGRPCServer_def Start_def)
  moreover have "server_step ?c (?s ?srv False BeforeServe) (?s ?srv False Serving)"
    using server_step.serve [of "?s ?srv False BeforeServe" ?c] by simp
  moreover have "server_step ?c (?s ?srv False Serving) (?s ?srv True Serving)"
    by (rule server_step.stop) (simp add: Stop_def)
  moreover have "server_step ?c (?s ?srv True Serving) (?s ?srv True ServeReturned)"
    using server_step.serve_done [of "?s ?srv True Serving" ?c] by simp
  ultimately show ?thesis by (meson reachable_server.intros)
qed

theorem wait_never_returns_witness:
  "\<not> Wait_returns \<lparr>sv_wg = 1, sv_server = Some [''Identity'', ''Controller'', ''Node''], sv_stopped = True,
      sv_pc = ServeReturned, sv_stopper = False\<rparr>"
  using wait_never_returns [OF stopped_server_reachable] by (simp add: sample_serve_def)

text \<open>Stopping a server that has not been prepared yet dereferences a nil pointer.\<close>

lemma early_stop_panics: "sv_pc s = Spawned \<Longrightarrow> sv_server s = None \<Longrightarrow> Stop s = Panicked ''nil pointer dereference''"
  by (simp add: Stop_def)

end
