(* ===== verification/Server_Options.thy ===== *)
theory Server_Options
  imports Go_Prelude
begin

text \<open>
  The two optional HTTP servers of the driver: options, validation and start of the remote
  control server (\<open>internal/rc/server.go\<close>) and of the metrics server (\<open>internal/metrics/server.go\<close>).
  Durations are nanoseconds.
\<close>

section \<open>Remote control\<close>

record rc_options =
  rc_Enabled :: bool
  rc_Address :: string
  rc_NoAuth :: bool
  rc_Username :: string
  rc_Password :: string

definition rc_NewOptions :: rc_options where
  "rc_NewOptions = \<lparr>rc_Enabled = False, rc_Address = '':5573'', rc_NoAuth = False, rc_Username = '''', rc_Password = ''''\<rparr>"

text \<open>The error of \<open>Validate\<close>; the argument is a pointer.\<close>

definition rc_Validate :: "rc_options option \<Rightarrow> string option" where
  "rc_Validate opts =
     (case opts of
        None \<Rightarrow> Some ''options cannot be nil''
      | Some o1 \<Rightarrow>
          if rc_Address o1 = '''' then Some ''address cannot be empty''
          else if rc_NoAuth o1 \<and> (rc_Username o1 \<noteq> '''' \<or> rc_Password o1 \<noteq> '''')
          then Some ''basic auth credentials must be provided unless rc.noAuth=true''
          else if \<not> rc_NoAuth o1 \<and> (rc_Username o1 = '''' \<or> rc_Password o1 = '''')
          then Some ''rc basic auth credentials must be provided unless rc.noAuth=true''
          else None)"

text \<open>The fields of rclone's \<open>rc.Opt\<close> that the driver sets.\<close>

record rcserver_options =
  so_Enabled :: bool
  so_NoAuth :: bool
  so_ListenAddr :: "string list"
  so_BasicUser :: string
  so_BasicPass :: string

text \<open>
  \<open>defaults\<close> is \<open>rc.Opt\<close>, and \<open>start\<close> is \<open>rcserver.Start\<close>.  No server and no error is \<open>Inr None\<close>.
\<close>

definition rc_Start ::
    "rcserver_options \<Rightarrow> (rcserver_options \<Rightarrow> string + 's) \<Rightarrow> rc_options option \<Rightarrow> string + 's option" where
  "rc_Start defaults start opts =
     (case opts of
        None \<Rightarrow> Inr None
      | Some o1 \<Rightarrow>
          if \<not> rc_Enabled o1 then Inr None
          else (case rc_Validate opts of
                  Some e \<Rightarrow> Inl e
                | None \<Rightarrow>
                    (let r0 = defaults\<lparr>so_Enabled := True, so_NoAuth := rc_NoAuth o1\<rparr>;
                         r1 = (if rc_Address o1 \<noteq> '''' then r0\<lparr>so_ListenAddr := [rc_Address o1]\<rparr> else r0);
                         r2 = (if \<not> rc_NoAuth o1
                               then r1\<lparr>so_BasicUser := rc_Username o1, so_BasicPass := rc_Password o1\<rparr> else r1)
                     in map_sum id Some (start r2))))"

section \<open>Metrics\<close>

record metrics_options =
  mx_MetricsPath :: string
  mx_ReadTimeout :: int
  mx_WriteTimeout :: int
  mx_IdleTimeout :: int
  mx_MetricsAddr :: string

definition metrics_NewOptions :: metrics_options where
  "metrics_NewOptions = \<lparr>mx_MetricsPath = ''/metrics'', mx_ReadTimeout = 10000000000,
     mx_WriteTimeout = 10000000000, mx_IdleTimeout = 60000000000, mx_MetricsAddr = ''''\<rparr>"

text \<open>The verb \<open>%q\<close>; \<open>quote\<close> is \<open>strconv.Quote\<close>.\<close>

definition metrics_Validate :: "(string \<Rightarrow> string) \<Rightarrow> metrics_options option \<Rightarrow> string option" where
  "metrics_Validate quote opts =
     (case opts of
        None \<Rightarrow> Some ''options cannot be nil''
      | Some o1 \<Rightarrow>
          if mx_MetricsAddr o1 = '''' then Some ''metrics address cannot be empty''
          else if \<not> HasPrefix (mx_MetricsPath o1) ''/''
          then Some (''metrics path must start with '' @ [CHR 39] @ ''/'' @ [CHR 39] @ '', got '' @ quote (mx_MetricsPath o1))
          else if mx_ReadTimeout o1 < 0 then Some ''metrics read timeout cannot be negative''
          else if mx_WriteTimeout o1 < 0 then Some ''metrics write timeout cannot be negative''
          else if mx_IdleTimeout o1 < 0 then Some ''metrics idle timeout cannot be negative''
          else None)"

text \<open>
  The server: what it was configured with, and its channel \<open>done\<close>, with at most one error in it
  and closed once \<open>Serve\<close> has returned.
\<close>

record metrics_server =
  ms_pattern :: string
  ms_ReadTimeout :: int
  ms_WriteTimeout :: int
  ms_IdleTimeout :: int
  ms_Addr :: string
  ms_done :: "string list"
  ms_closed :: bool

text \<open>\<open>listen\<close> is \<open>net.Listen\<close> on \<open>tcp\<close>: an error or the address; \<open>pattern_ok\<close> says whether the request
  multiplexer accepts a pattern, it panics otherwise.\<close>

definition metrics_Start ::
    "(string \<Rightarrow> string) \<Rightarrow> (string \<Rightarrow> bool) \<Rightarrow> (string \<Rightarrow> string + string) \<Rightarrow> metrics_options option
       \<Rightarrow> metrics_server outcome" where
  "metrics_Start quote pattern_ok listen opts =
     (case opts of
        None \<Rightarrow> Failed (PlainError ''options cannot be nil'')
      | Some o1 \<Rightarrow>
          (case metrics_Validate quote opts of
             Some e \<Rightarrow> Failed (PlainError e)
           | None \<Rightarrow>
               (case listen (mx_MetricsAddr o1) of
                  Inl e \<Rightarrow> Failed (PlainError (''failed to listen on '' @ mx_MetricsAddr o1 @ '': '' @ e))
                | Inr addr \<Rightarrow>
                    (let pattern = ''GET '' @ mx_MetricsPath o1 in
                     if \<not> pattern_ok pattern then Panicked ''parsing pattern''
                     else Reply \<lparr>ms_pattern = pattern, ms_ReadTimeout = mx_ReadTimeout o1,
                       ms_WriteTimeout = mx_WriteTimeout o1, ms_IdleTimeout = mx_IdleTimeout o1,
                       ms_Addr = addr, ms_done = [], ms_closed = False\<rparr>))))"

text \<open>The goroutine after \<open>Serve\<close> has returned: nothing, the error of an orderly end, or another error.\<close>

datatype serve_result = ServeNil | ErrServerClosed | ServeError string

definition metrics_serve_done :: "serve_result \<Rightarrow> metrics_server \<Rightarrow> metrics_server" where
  "metrics_serve_done r s =
     (case r of ServeError e \<Rightarrow> s\<lparr>ms_done := ms_done s @ [e], ms_closed := True\<rparr>
      | _ \<Rightarrow> s\<lparr>ms_closed := True\<rparr>)"

definition metrics_Addr :: "metrics_server \<Rightarrow> string" where
  "metrics_Addr s = ms_Addr s"

text \<open>Receiving from the channel: blocked (\<open>None\<close>), or the error and the channel without it.\<close>

definition metrics_Wait :: "metrics_server \<Rightarrow> (string option \<times> metrics_server) option" where
  "metrics_Wait s =
     (case ms_done s of
        e # es \<Rightarrow> Some (Some e, s\<lparr>ms_done := es\<rparr>)
      | [] \<Rightarrow> if ms_closed s then Some (None, s) else None)"

text \<open>\<open>shutdown\<close> is the \<open>Shutdown\<close> of the HTTP server; the context can be nil.\<close>

definition metrics_Shutdown :: "('c \<Rightarrow> string option) \<Rightarrow> 'c option \<Rightarrow> string option" where
  "metrics_Shutdown shutdown ctx = (case ctx of None \<Rightarrow> Some ''context cannot be nil'' | Some c \<Rightarrow> shutdown c)"

section \<open>Properties\<close>

lemma rc_Start_complete:
  assumes "rc_Start defaults start (Some opts) = Inr (Some srv)"
  shows "\<exists>r. start r = Inr srv \<and> so_ListenAddr r = [rc_Address opts] \<and> rc_Address opts \<noteq> ''''
    \<and> (if rc_NoAuth opts
       then so_NoAuth r \<and> rc_Username opts = '''' \<and> rc_Password opts = ''''
       else \<not> so_NoAuth r \<and> so_BasicUser r = rc_Username opts \<and> so_BasicUser r \<noteq> ''''
            \<and> so_BasicPass r = rc_Password opts \<and> so_BasicPass r \<noteq> '''')"
proof -
  let ?r = "(let r0 = defaults\<lparr>so_Enabled := True, so_NoAuth := rc_NoAuth opts, so_ListenAddr := [rc_Address opts]\<rparr>
     in if \<not> rc_NoAuth opts then r0\<lparr>so_BasicUser := rc_Username opts, so_BasicPass := rc_Password opts\<rparr> else r0)"
  from assms have ok: "rc_Validate (Some opts) = None" and st: "map_sum id Some (start ?r) = Inr (Some srv)"
    by (auto simp: rc_Start_def rc_Validate_def Let_def split: if_splits)
  from st have "start ?r = Inr srv" by (cases "start ?r") auto
  with ok show ?thesis
    by (intro exI [of _ ?r]) (auto simp: rc_Validate_def Let_def split: if_splits)
qed

text \<open>
  The remote control server only ever starts with one of two complete configurations: without
  authentication, if \<open>NoAuth\<close> was asked for and no credentials were given, or with a user
  and a password that are not empty.  It listens on the given address only.
\<close>

theorem rc_never_half_open:
  assumes "rc_Start defaults start (Some opts) = Inr (Some srv)"
  shows "\<exists>r. start r = Inr srv \<and> so_ListenAddr r = [rc_Address opts] \<and> rc_Address opts \<noteq> ''''
    \<and> (if rc_NoAuth opts
       then so_NoAuth r \<and> rc_Username opts = '''' \<and> rc_Password opts = ''''
       else \<not> so_NoAuth r \<and> so_BasicUser r = rc_Username opts \<and> so_BasicUser r \<noteq> ''''
            \<and> so_BasicPass r = rc_Password opts \<and> so_BasicPass r \<noteq> '''')"
  by (rule rc_Start_complete [OF assms])

theorem rc_never_half_open_witness:
  "so_BasicUser \<lparr>so_Enabled = True, so_NoAuth = False, so_ListenAddr = ['':5573''],
     so_BasicUser = ''admin'', so_BasicPass = ''secret''\<rparr> \<noteq> ''''"
proof -
  let ?o = "rc_NewOptions\<lparr>rc_Enabled := True, rc_Username := ''admin'', rc_Password := ''secret''\<rparr>"
  let ?srv = "\<lparr>so_Enabled = True, so_NoAuth = False, so_ListenAddr = ['':5573''],
        so_BasicUser = ''admin'', so_BasicPass = ''secret''\<rparr>"
  have "rc_Start \<lparr>so_Enabled = False, so_NoAuth = False, so_ListenAddr = [], so_BasicUser = '''', so_BasicPass = ''''\<rparr>
      Inr (Some ?o) = Inr (Some ?srv)"
    by (simp add: rc_Start_def rc_Validate_def rc_NewOptions_def Let_def)
  from rc_never_half_open [OF this]
  obtain r where "(Inr r :: string + rcserver_options) = Inr ?srv" and "\<not> rc_NoAuth ?o \<longrightarrow> so_BasicUser r \<noteq> ''''"
    by (metis (full_types))
  then show ?thesis by (simp add: rc_NewOptions_def)
qed

text \<open>
  Credentials together with \<open>NoAuth\<close> are refused, but the message asks for the credentials that
  were given.
\<close>

lemma rc_message_is_misleading:
  "rc_Validate (Some (rc_NewOptions\<lparr>rc_NoAuth := True, rc_Username := ''u'', rc_Password := ''p''\<rparr>))
     = Some ''basic auth credentials must be provided unless rc.noAuth=true''"
  by (simp add: rc_Validate_def rc_NewOptions_def)

text \<open>The defaults alone do not start a metrics server: the address is missing.\<close>

lemma metrics_defaults_need_address:
  "metrics_Validate quote (Some metrics_NewOptions) = Some ''metrics address cannot be empty''"
  "a \<noteq> '''' \<Longrightarrow> metrics_Validate quote (Some (metrics_NewOptions\<lparr>mx_MetricsAddr := a\<rparr>)) = None"
  by (simp_all add: metrics_Validate_def metrics_NewOptions_def)

text \<open>
  \<open>Wait\<close> blocks until \<open>Serve\<close> returns, then gives its error once; after an orderly shutdown, and for
  every later call, there is no error.
\<close>

lemma metrics_wait_once:
  assumes "metrics_Start quote ok listen opts = Reply s"
  shows "metrics_Wait s = None"
    "metrics_Wait (metrics_serve_done ErrServerClosed s) = Some (None, metrics_serve_done ErrServerClosed s)"
    "metrics_Wait (metrics_serve_done (ServeError e) s) = Some (Some e, metrics_serve_done ErrServerClosed s)"
proof -
  from assms have "ms_done s = [] \<and> \<not> ms_closed s"
    by (auto simp: metrics_Start_def Let_def split: option.splits sum.splits if_splits)
  then show "metrics_Wait s = None"
    "metrics_Wait (metrics_serve_done ErrServerClosed s) = Some (None, metrics_serve_done ErrServerClosed s)"
    "metrics_Wait (metrics_serve_done (ServeError e) s) = Some (Some e, metrics_serve_done ErrServerClosed s)"
    by (simp_all add: metrics_Wait_def metrics_serve_done_def)
qed

end
