(* ===== verification/Startup.thy ===== *)
theory Startup
  imports Server Server_Options Metrics
begin

text \<open>
  From the command line to the running driver: \<open>cmd/rcloneplugin/main.go\<close>, \<open>Driver.Run\<close> of
  \<open>pkg/rclone/rclone.go\<close>, the version text of \<open>pkg/rclone/version.go\<close> and the mounter of the tests
  (\<open>pkg/rclone/fake_mounter.go\<close>).  A fatal error ends the process; it is the last event.
\<close>

section \<open>Running the driver\<close>

text \<open>\<open>marshal\<close> is \<open>yaml.Marshal\<close>: an error or the text.\<close>

definition GetVersionYAML ::
    "(version_info \<Rightarrow> string + string) \<Rightarrow> build_info \<Rightarrow> runtime_info \<Rightarrow> string \<Rightarrow> string + string" where
  "GetVersionYAML marshal b rt driverName =
     (case marshal (GetVersion b rt driverName) of Inl e \<Rightarrow> Inl e | Inr s \<Rightarrow> Inr (TrimSpace s))"

text \<open>The node server starts without contexts; the mounter is the host's.\<close>

definition NewNodeServer :: "'w \<Rightarrow> driver \<Rightarrow> 'w node_state" where
  "NewNodeServer w d =
     \<lparr>volumeLocks = d_volumeLocks d, mountContexts = None, storage = newDefaultStorage,
      live = {}, next_context = 0, g_cacheDir = '''', g_tempDir = '''', g_logDebug = False,
      g_passConfigKey = False, g_atexit = 0, world = w\<rparr>"

record run_env =
  re_marshal :: "version_info \<Rightarrow> string + string"
  re_GlobalOptionsInit :: "string option"
  re_rcloneCollector :: register_result
  re_csiCollector :: register_result

datatype run_outcome = RunFatal string | RunServes grpc_server "string list" "collector option"

text \<open>
  \<open>Run\<close> up to its call of \<open>Wait\<close>: a fatal error, or the server that it has started, the services
  that it registers and the collector.
\<close>

definition Run :: "run_env \<Rightarrow> build_info \<Rightarrow> runtime_info \<Rightarrow> collector option \<Rightarrow> driver \<Rightarrow> run_outcome" where
  "Run env b rt csiCollector d =
     (case GetVersionYAML (re_marshal env) b rt (d_name d) of
        Inl e \<Rightarrow> RunFatal e
      | Inr versionMeta \<Rightarrow>
          (case re_GlobalOptionsInit env of
             Some e \<Rightarrow> RunFatal (''Failed to initialize rclone global options: '' @ e)
           | None \<Rightarrow>
               (case initMetricsCollector csiCollector (re_rcloneCollector env) (re_csiCollector env)
                       (newMetricsCollector b rt (d_nodeID d) (d_name d) (d_endpoint d) True) of
                  (Some e, c) \<Rightarrow> RunFatal (''Failed to initialize CSI metrics collector: '' @ e)
                | (None, c) \<Rightarrow> RunServes (Start NewNonBlockingGRPCServer) [''Identity'', ''Controller'', ''Node''] c)))"

section \<open>The command\<close>

record command_line =
  cl_endpoint :: string
  cl_nodeID :: string
  cl_driverName :: string
  cl_metrics :: metrics_options
  cl_rc :: rc_options

definition default_command_line :: command_line where
  "default_command_line = \<lparr>cl_endpoint = ''unix://tmp/csi.sock'', cl_nodeID = '''',
     cl_driverName = ''rclone.csi.veloxpack.io'', cl_metrics = metrics_NewOptions, cl_rc = rc_NewOptions\<rparr>"

record 's main_env =
  me_quote :: "string \<Rightarrow> string"
  me_pattern_ok :: "string \<Rightarrow> bool"
  me_listen :: "string \<Rightarrow> string + string"
  me_rc_defaults :: rcserver_options
  me_rc_start :: "rcserver_options \<Rightarrow> string + 's"
  me_run :: run_env
  me_build :: build_info
  me_runtime :: runtime_info

datatype boot_event =
    MetricsListening string
  | RcListening string
  | BootFatal string
  | BootPanic string
  | DriverRuns grpc_server "string list" "collector option"

definition boot_driver :: "'s main_env \<Rightarrow> command_line \<Rightarrow> boot_event list" where
  "boot_driver env cl =
     (let d = NewDriver (me_build env)
            \<lparr>opt_NodeID = cl_nodeID cl, opt_DriverName = cl_driverName cl, opt_Endpoint = cl_endpoint cl\<rparr>
      in case Run (me_run env) (me_build env) (me_runtime env) None d of
           RunFatal e \<Rightarrow> [BootFatal e]
         | RunServes s services c \<Rightarrow> [DriverRuns s services c])"

definition boot_rc :: "'s main_env \<Rightarrow> command_line \<Rightarrow> boot_event list" where
  "boot_rc env cl =
     (if rc_Enabled (cl_rc cl)
      then (case rc_Start (me_rc_defaults env) (me_rc_start env) (Some (cl_rc cl)) of
              Inl e \<Rightarrow> [BootFatal (''Failed to start RC server: '' @ e)]
            | Inr None \<Rightarrow> boot_driver env cl
            | Inr (Some srv) \<Rightarrow> RcListening (rc_Address (cl_rc cl)) # boot_driver env cl)
      else boot_driver env cl)"

definition main :: "'s main_env \<Rightarrow> command_line \<Rightarrow> boot_event list" where
  "main env cl =
     (if mx_MetricsAddr (cl_metrics cl) \<noteq> ''''
      then (case metrics_Start (me_quote env) (me_pattern_ok env) (me_listen env) (Some (cl_metrics cl)) of
              Failed e \<Rightarrow> [BootFatal (''Failed to start metrics server: '' @ error_text e)]
            | Panicked p \<Rightarrow> [BootPanic p]
            | Reply srv \<Rightarrow> MetricsListening (''http://'' @ metrics_Addr srv @ mx_MetricsPath (cl_metrics cl)) # boot_rc env cl)
      else boot_rc env cl)"

section \<open>The mounter of the tests\<close>

text \<open>The error that a call returns, if any; the file system type and the options play no part.\<close>

definition fake_Mount :: "string \<Rightarrow> string \<Rightarrow> string \<Rightarrow> string list \<Rightarrow> string option" where
  "fake_Mount source target fstype options =
     (if Contains source ''error_mount'' then Some ''fake Mount: source error''
      else if Contains target ''error_mount'' then Some ''fake Mount: target error''
      else None)"

definition fake_MountSensitive :: "string \<Rightarrow> string \<Rightarrow> string \<Rightarrow> string list \<Rightarrow> string list \<Rightarrow> string option" where
  "fake_MountSensitive source target fstype options sensitiveOptions =
     (if Contains source ''error_mount_sens'' then Some ''fake MountSensitive: source error''
      else if Contains target ''error_mount_sens'' then Some ''fake MountSensitive: target error''
      else None)"

definition fake_IsLikelyNotMountPoint :: "string \<Rightarrow> bool \<times> string option" where
  "fake_IsLikelyNotMountPoint file =
     (if Contains file ''error_is_likely'' then (False, Some ''fake IsLikelyNotMountPoint: fake error'')
      else if Contains file ''false_is_likely'' then (False, None)
      else (True, None))"

section \<open>Properties\<close>

lemma boot_driver_cases:
  "(\<exists>e. boot_driver env cl = [BootFatal e])
   \<or> (\<exists>c. boot_driver env cl = [DriverRuns (Start NewNonBlockingGRPCServer) [''Identity'', ''Controller'', ''Node''] c])"
  by (auto simp: boot_driver_def Run_def Let_def split: sum.splits option.splits prod.splits)

lemma rc_Start_enabled: "rc_Enabled o1 \<Longrightarrow> rc_Start defaults start (Some o1) \<noteq> Inr None"
  by (auto simp: rc_Start_def Let_def split: option.splits) (auto simp: map_sum_def split: sum.splits)

lemma boot_rc_cases:
  "(\<exists>e. boot_rc env cl = [BootFatal e])
   \<or> boot_rc env cl = (if rc_Enabled (cl_rc cl) then [RcListening (rc_Address (cl_rc cl))] else []) @ boot_driver env cl"
  using rc_Start_enabled [of "cl_rc cl" "me_rc_defaults env" "me_rc_start env"]
  by (auto simp: boot_rc_def split: sum.splits option.splits)

lemma metrics_Start_addr:
  "metrics_Start quote ok listen (Some o1) = Reply srv \<Longrightarrow> listen (mx_MetricsAddr o1) = Inr (metrics_Addr srv)"
  by (auto simp: metrics_Start_def metrics_Addr_def Let_def split: option.splits sum.splits if_splits)

lemma main_cases:
  "(\<exists>x. main env cl = [x] \<and> (\<forall>s sv c. x \<noteq> DriverRuns s sv c))
   \<or> (mx_MetricsAddr (cl_metrics cl) = '''' \<and> main env cl = boot_rc env cl)
   \<or> (\<exists>addr. me_listen env (mx_MetricsAddr (cl_metrics cl)) = Inr addr
        \<and> main env cl = MetricsListening (''http://'' @ addr @ mx_MetricsPath (cl_metrics cl)) # boot_rc env cl)"
  by (auto simp: main_def dest: metrics_Start_addr split: outcome.splits)

lemma boot_rc_runs:
  assumes "DriverRuns s services c \<in> set (boot_rc env cl)"
  shows "boot_rc env cl = (if rc_Enabled (cl_rc cl) then [RcListening (rc_Address (cl_rc cl))] else [])
      @ [DriverRuns s services c]
    \<and> s = Start NewNonBlockingGRPCServer \<and> services = [''Identity'', ''Controller'', ''Node'']"
  using assms boot_rc_cases [of env cl] boot_driver_cases [of env cl] by (auto split: if_splits)

text \<open>
  C34: The driver serves only once every server that the command line asks for is listening: a
  metrics address, and the remote control if it is enabled.  It then registers all three
  services, and it is the last thing the process does.
\<close>

theorem driver_runs_last:
  assumes "DriverRuns s services c \<in> set (main env cl)"
  shows "last (main env cl) = DriverRuns s services c
    \<and> services = [''Identity'', ''Controller'', ''Node''] \<and> \<not> Wait_returns s
    \<and> (mx_MetricsAddr (cl_metrics cl) \<noteq> '''' \<longrightarrow>
        (\<exists>addr. me_listen env (mx_MetricsAddr (cl_metrics cl)) = Inr addr
          \<and> MetricsListening (''http://'' @ addr @ mx_MetricsPath (cl_metrics cl)) \<in> set (main env cl)))
    \<and> (rc_Enabled (cl_rc cl) \<longrightarrow> RcListening (rc_Address (cl_rc cl)) \<in> set (main env cl))"
proof -
  have not_single: "\<not> (\<exists>x. main env cl = [x] \<and> (\<forall>s sv c. x \<noteq> DriverRuns s sv c))"
    using assms by auto
  have rc: "DriverRuns s services c \<in> set (boot_rc env cl)"
    using assms main_cases [of env cl] by auto
  from boot_rc_runs [OF this]
  have "last (boot_rc env cl) = DriverRuns s services c" and "boot_rc env cl \<noteq> []"
    and "rc_Enabled (cl_rc cl) \<longrightarrow> RcListening (rc_Address (cl_rc cl)) \<in> set (boot_rc env cl)"
    and "\<not> Wait_returns s" and "services = [''Identity'', ''Controller'', ''Node'']"
    by (auto simp: Wait_returns_def Start_def)
  moreover have "(mx_MetricsAddr (cl_metrics cl) = '''' \<and> main env cl = boot_rc env cl)
     \<or> (\<exists>addr. me_listen env (mx_MetricsAddr (cl_metrics cl)) = Inr addr
        \<and> main env cl = MetricsListening (''http://'' @ addr @ mx_MetricsPath (cl_metrics cl)) # boot_rc env cl)"
    using main_cases [of env cl] not_single by blast
  ultimately show ?thesis by auto
qed

definition sample_main_env :: "unit main_env" where
  "sample_main_env = \<lparr>me_quote = (\<lambda>s. s), me_pattern_ok = (\<lambda>p. True), me_listen = (\<lambda>a. Inr (''[::]'' @ a)),
     me_rc_defaults = \<lparr>so_Enabled = False, so_NoAuth = False, so_ListenAddr = [], so_BasicUser = '''', so_BasicPass = ''''\<rparr>,
     me_rc_start = (\<lambda>r. Inr ()),
     me_run = \<lparr>re_marshal = (\<lambda>v. Inr (v_DriverName v)), re_GlobalOptionsInit = None,
       re_rcloneCollector = Registered, re_csiCollector = Registered\<rparr>,
     me_build = default_build, me_runtime = sample_runtime\<rparr>"

definition sample_command_line :: command_line where
  "sample_command_line = default_command_line\<lparr>cl_nodeID := ''node-1'',
     cl_metrics := metrics_NewOptions\<lparr>mx_MetricsAddr := '':5572''\<rparr>,
     cl_rc := rc_NewOptions\<lparr>rc_Enabled := True, rc_Username := ''admin'', rc_Password := ''secret''\<rparr>\<rparr>"

theorem driver_runs_last_witness:
  "\<exists>s services c. DriverRuns s services c = last (main sample_main_env sample_command_line)
     \<and> RcListening '':5573'' \<in> set (main sample_main_env sample_command_line)"
proof -
  have "\<exists>s services c. DriverRuns s services c \<in> set (main sample_main_env sample_command_line)"
    by (simp add: main_def boot_rc_def boot_driver_def Run_def sample_main_env_def sample_command_line_def
        default_command_line_def metrics_NewOptions_def rc_NewOptions_def metrics_Start_def metrics_Validate_def
        rc_Start_def rc_Validate_def GetVersionYAML_def initMetricsCollector_def Let_def)
  then obtain s services c where run: "DriverRuns s services c \<in> set (main sample_main_env sample_command_line)" by blast
  moreover have "rc_Enabled (cl_rc sample_command_line)" and "rc_Address (cl_rc sample_command_line) = '':5573''"
    by (simp_all add: sample_command_line_def rc_NewOptions_def)
  ultimately show ?thesis using driver_runs_last [OF run] by metis
qed

text \<open>
  With the default flags neither server is asked for.
\<close>

lemma default_is_quiet: "main env default_command_line = boot_driver env default_command_line"
  by (simp add: main_def boot_rc_def default_command_line_def metrics_NewOptions_def rc_NewOptions_def)

text \<open>
  The collector is stored before it is registered: after a registration that failed, the next
  initialisation reports success without registering anything.
\<close>

lemma failed_registration_sticks:
  "initMetricsCollector None r (RegisterFailed e) c = (Some (''failed to register CSI Prometheus collector: '' @ e), Some c)"
  "initMetricsCollector (Some c) r r' c' = (None, Some c)"
  by (simp_all add: initMetricsCollector_def)

end
