(* ===== verification/Go_Duration.thy ===== *)
theory Go_Duration
  imports Goconfig "HOL-Library.Word"
begin

text \<open>
  The values of command-line flags as the standard library of Go reads them: \<open>strconv.ParseBool\<close>
  and \<open>time.ParseDuration\<close>.  A duration is a sequence of decimal numbers with units; it is summed
  up in a word of 64 bits, with the checks against overflow of the library.
\<close>

section \<open>Truth values\<close>

definition ParseBool :: "string \<Rightarrow> bool option" where
  "ParseBool s =
     (if s \<in> {''1'', ''t'', ''T'', ''TRUE'', ''true'', ''True''} then Some True
      else if s \<in> {''0'', ''f'', ''F'', ''FALSE'', ''false'', ''False''} then Some False
      else None)"

section \<open>Durations\<close>

definition is_digit :: "char \<Rightarrow> bool" where
  "is_digit c \<longleftrightarrow> (48::nat) \<le> of_char c \<and> of_char c \<le> (57::nat)"

definition digit_value :: "char \<Rightarrow> 64 word" where
  "digit_value c = word_of_nat (of_char c - 48)"

text \<open>The digits at the front, an overflow of 63 bits being an error; \<open>x\<close> is the number read so far.\<close>

fun leadingInt :: "64 word \<Rightarrow> string \<Rightarrow> (64 word \<times> string) option" where
  "leadingInt x [] = Some (x, [])"
| "leadingInt x (c # s) =
     (if \<not> is_digit c then Some (x, c # s)
      else if 2 ^ 63 div 10 < x then None
      else let y = x * 10 + digit_value c in if 2 ^ 63 < y then None else leadingInt y s)"

text \<open>
  The digits of a fraction with their number \<open>n\<close>, so that the scale is \<open>10 ^ n\<close>; after an
  overflow the digits are skipped.
\<close>

fun leadingFraction :: "bool \<Rightarrow> 64 word \<Rightarrow> nat \<Rightarrow> string \<Rightarrow> 64 word \<times> nat \<times> string" where
  "leadingFraction overflow x n [] = (x, n, [])"
| "leadingFraction overflow x n (c # s) =
     (if \<not> is_digit c then (x, n, c # s)
      else if overflow then leadingFraction True x n s
      else if (2 ^ 63 - 1) div 10 < x then leadingFraction True x n s
      else let y = x * 10 + digit_value c in
        if 2 ^ 63 < y then leadingFraction True x n s else leadingFraction False y (Suc n) s)"

definition unitMap :: "(string \<times> 64 word) list" where
  "unitMap = [(''ns'', 1), (''us'', 1000), ([CHR 0xC2, CHR 0xB5] @ ''s'', 1000), ([CHR 0xCE, CHR 0xBC] @ ''s'', 1000),
     (''ms'', 1000000), (''s'', 1000000000), (''m'', 60000000000), (''h'', 3600000000000)]"

lemma leadingInt_length: "leadingInt x s = Some (y, t) \<Longrightarrow> length t \<le> length s"
  by (induction x s rule: leadingInt.induct) (auto simp: Let_def split: if_splits)

lemma leadingFraction_length: "leadingFraction b x n s = (y, m, t) \<Longrightarrow> length t \<le> length s"
  by (induction b x n s rule: leadingFraction.induct) (auto simp: Let_def split: if_splits)

definition unit_char :: "char \<Rightarrow> bool" where
  "unit_char c \<longleftrightarrow> c \<noteq> CHR ''.'' \<and> \<not> is_digit c"

text \<open>
  One number with its unit: the nanoseconds and what is left of the text.  The argument \<open>frac\<close> is
  the expression \<open>uint64(float64(f) * (float64(unit) / scale))\<close> of the library, for the fraction
  \<open>f\<close>, the unit and the number of digits.
\<close>

definition duration_term ::
    "(64 word \<Rightarrow> 64 word \<Rightarrow> nat \<Rightarrow> 64 word) \<Rightarrow> string \<Rightarrow> (64 word \<times> string) option" where
  "duration_term frac s =
     (if s = '''' \<or> \<not> (hd s = CHR ''.'' \<or> is_digit (hd s)) then None
      else case leadingInt 0 s of
        None \<Rightarrow> None
      | Some (v, s1) \<Rightarrow>
          (let pre = (length s \<noteq> length s1);
               (f, n, s2) = (if s1 \<noteq> '''' \<and> hd s1 = CHR ''.'' then leadingFraction False 0 0 (tl s1) else (0, 0, s1));
               post = (s1 \<noteq> '''' \<and> hd s1 = CHR ''.'' \<and> length (tl s1) \<noteq> length s2);
               u = takeWhile unit_char s2
           in if \<not> pre \<and> \<not> post then None
              else if u = '''' then None
              else case map_of unitMap u of
                None \<Rightarrow> None
              | Some unit \<Rightarrow>
                  if 2 ^ 63 div unit < v then None
                  else let w = v * unit + (if 0 < f then frac f unit n else 0) in
                    if 0 < f \<and> 2 ^ 63 < w then None else Some (w, dropWhile unit_char s2)))"

lemma duration_term_length: "duration_term frac s = Some (w, t) \<Longrightarrow> length t < length s"
proof -
  assume a: "duration_term frac s = Some (w, t)"
  then obtain v s1 where 1: "leadingInt 0 s = Some (v, s1)" and s: "s \<noteq> ''''"
    by (auto simp: duration_term_def split: if_splits option.splits)
  obtain f n s2 where 2: "(if s1 \<noteq> '''' \<and> hd s1 = CHR ''.'' then leadingFraction False 0 0 (tl s1) else (0, 0, s1)) = (f, n, s2)"
    by (metis surj_pair)
  have t: "t = dropWhile unit_char s2" and u: "takeWhile unit_char s2 \<noteq> ''''"
    using a 1 2 s by (auto simp: duration_term_def Let_def split: if_splits option.splits)
  have "length s2 \<le> length s1"
    using 2 leadingFraction_length [of False 0 0 "tl s1" f n s2] by (auto split: if_splits)
  also have "length s1 \<le> length s" using leadingInt_length [OF 1] .
  finally have "length s2 \<le> length s" .
  moreover have "length t < length s2"
    using u by (metis t append_Nil2 append_eq_conv_conj length_append length_greater_0_conv less_add_same_cancel2 takeWhile_dropWhile_id)
  ultimately show ?thesis by simp
qed

function duration_sum ::
    "(64 word \<Rightarrow> 64 word \<Rightarrow> nat \<Rightarrow> 64 word) \<Rightarrow> 64 word \<Rightarrow> string \<Rightarrow> 64 word option" where
  "duration_sum frac d s =
     (if s = '''' then Some d
      else case duration_term frac s of
        None \<Rightarrow> None
      | Some (v, t) \<Rightarrow> if 2 ^ 63 < d + v then None else duration_sum frac (d + v) t)"
  by pat_completeness auto

termination by (relation "measure (\<lambda>(frac, d, s). length s)") (auto dest: duration_term_length)

declare duration_sum.simps [simp del]

definition ParseDuration :: "(64 word \<Rightarrow> 64 word \<Rightarrow> nat \<Rightarrow> 64 word) \<Rightarrow> string \<Rightarrow> int option" where
  "ParseDuration frac orig =
     (let signed = (orig \<noteq> '''' \<and> (hd orig = CHR ''-'' \<or> hd orig = CHR ''+''));
          neg = (orig \<noteq> '''' \<and> hd orig = CHR ''-'');
          s = (if signed then tl orig else orig)
      in if s = ''0'' then Some 0
         else if s = '''' then None
         else case duration_sum frac 0 s of
           None \<Rightarrow> None
         | Some d \<Rightarrow>
             if neg then Some (sint (- d))
             else if 2 ^ 63 - 1 < d then None else Some (sint d))"

section \<open>Numbers\<close>

definition digits_value :: "nat \<Rightarrow> string \<Rightarrow> nat" where
  "digits_value x s = foldl (\<lambda>x c. x * 10 + (of_char c - 48)) x s"

lemma digits_value_simps [simp]:
  "digits_value x [] = x" "digits_value x (c # s) = digits_value (x * 10 + (of_char c - 48)) s"
  "digits_value x (s @ t) = digits_value (digits_value x s) t"
  by (simp_all add: digits_value_def)

lemma digits_value_mono: "x \<le> digits_value x s"
proof (induction s arbitrary: x)
  case (Cons c s)
  have "x \<le> x * 10 + (of_char c - 48)" by simp
  also have "\<dots> \<le> digits_value (x * 10 + (of_char c - 48)) s" by (rule Cons)
  finally show ?case by simp
qed simp

lemma digit_char: "n < 10 \<Longrightarrow> is_digit (char_of (48 + n)) \<and> of_char (char_of (48 + n)) - 48 = n" for n :: nat
  by (simp add: is_digit_def)

lemma show_nat_digits:
  "(\<forall>c \<in> set (show_nat n). is_digit c) \<and> show_nat n \<noteq> '''' \<and> digits_value 0 (show_nat n) = n"
proof (induction n rule: show_nat.induct)
  case (1 n)
  show ?case
  proof (cases "n < 10")
    case True
    then show ?thesis using digit_char [OF True] by (simp add: show_nat.simps [of n])
  next
    case False
    have "n mod 10 < 10" by simp
    from digit_char [OF this] 1 [OF False] False show ?thesis
      by (simp add: show_nat.simps [of n])
  qed
qed

lemma above_63: "n < 2 ^ 64 \<Longrightarrow> 2 ^ 63 < (word_of_nat n :: 64 word) \<longleftrightarrow> 2 ^ 63 < n" for n :: nat
  by (simp add: word_less_nat_alt unat_of_nat)

lemma leadingInt_digits:
  assumes "\<forall>c \<in> set s. is_digit c" and "t = '''' \<or> \<not> is_digit (hd t)" and "x \<le> 2 ^ 63"
  shows "leadingInt (word_of_nat x) (s @ t)
    = (if digits_value x s \<le> 2 ^ 63 then Some (word_of_nat (digits_value x s), t) else None)"
  using assms
proof (induction s arbitrary: x)
  case Nil
  then show ?case by (cases t) simp_all
next
  case (Cons c s)
  define y :: nat where "y = x * 10 + (of_char c - 48)"
  have c: "is_digit c" using Cons.prems by simp
  then have d: "of_char c - 48 \<le> (9 :: nat)" unfolding is_digit_def by linarith
  have x: "unat (word_of_nat x :: 64 word) = x" using Cons.prems(3) by (simp add: unat_of_nat)
  have div: "2 ^ 63 div 10 < (word_of_nat x :: 64 word) \<longleftrightarrow> 922337203685477580 < x"
    using x by (simp add: word_less_nat_alt unat_div)
  have w: "word_of_nat x * 10 + digit_value c = (word_of_nat y :: 64 word)" by (simp add: digit_value_def y_def)
  have "leadingInt (word_of_nat x) ((c # s) @ t) = (if 922337203685477580 < x then None
      else if 2 ^ 63 < (word_of_nat y :: 64 word) then None else leadingInt (word_of_nat y) (s @ t))"
    using c by (simp only: append_Cons leadingInt.simps w div Let_def if_False not_True_eq_False)
  also have "\<dots> = (if 2 ^ 63 < y then None else leadingInt (word_of_nat y) (s @ t))"
  proof (cases "922337203685477580 < x")
    case True
    then have "2 ^ 63 < y" by (simp add: y_def)
    with True show ?thesis by simp
  next
    case False
    then have "y < 2 ^ 64" using d by (simp add: y_def)
    from above_63 [OF this] False show ?thesis by simp
  qed
  also have "\<dots> = (if digits_value y s \<le> 2 ^ 63 then Some (word_of_nat (digits_value y s), t) else None)"
    using Cons.IH [of y] Cons.prems digits_value_mono [of y s] by auto
  finally show ?case by (simp add: y_def)
qed

section \<open>Durations without fractions\<close>

fun render_term :: "nat \<times> string \<Rightarrow> string" where
  "render_term (n, u) = show_nat n @ u"

fun term_value :: "nat \<times> string \<Rightarrow> nat" where
  "term_value (n, u) = n * (case map_of unitMap u of None \<Rightarrow> 0 | Some unit \<Rightarrow> unat unit)"

lemma unit_cases:
  assumes "map_of unitMap u = Some unit"
  shows "u \<noteq> '''' \<and> (\<forall>c \<in> set u. unit_char c) \<and> unat unit dvd 3600000000000 \<and> 0 < unat unit"
  using map_of_SomeD [OF assms]
  by (auto simp: unitMap_def unit_char_def is_digit_def)

lemma duration_term_render:
  assumes u: "map_of unitMap u = Some unit" and rest: "rest = '''' \<or> is_digit (hd rest)"
  shows "duration_term frac (render_term (n, u) @ rest)
    = (if term_value (n, u) \<le> 2 ^ 63 then Some (word_of_nat (term_value (n, u)), rest) else None)"
proof -
  have units: "u \<noteq> ''''" "\<forall>c \<in> set u. unit_char c" and pos: "0 < unat unit"
    using unit_cases [OF u] by simp_all
  have digits: "\<forall>c \<in> set (show_nat n). is_digit c" "show_nat n \<noteq> ''''" "digits_value 0 (show_nat n) = n"
    using show_nat_digits [of n] by simp_all
  let ?s = "show_nat n @ u @ rest"
  have hd: "is_digit (hd ?s)" "?s \<noteq> ''''" using digits by auto
  have nd: "u @ rest = '''' \<or> \<not> is_digit (hd (u @ rest))" and nodot: "hd (u @ rest) \<noteq> CHR ''.''"
    using units by (auto simp: unit_char_def)
  have int: "leadingInt 0 ?s = (if n \<le> 2 ^ 63 then Some (word_of_nat n, u @ rest) else None)"
    using leadingInt_digits [OF digits(1) nd, of 0] digits(3) by simp
  have tw: "takeWhile unit_char (u @ rest) = u" "dropWhile unit_char (u @ rest) = rest"
    using units rest by (cases rest; auto simp: unit_char_def takeWhile_append dropWhile_append)+
  have val: "term_value (n, u) = n * unat unit" using u by simp
  have le: "n \<le> n * unat unit" using pos by simp
  show ?thesis
  proof (cases "n \<le> 2 ^ 63")
    case True
    have n: "unat (word_of_nat n :: 64 word) = n" using True by (simp add: unat_of_nat)
    have "2 ^ 63 div unit < (word_of_nat n :: 64 word) \<longleftrightarrow> 2 ^ 63 div unat unit < n"
      using n by (simp add: word_less_nat_alt unat_div)
    also have "\<dots> \<longleftrightarrow> \<not> n * unat unit \<le> 2 ^ 63"
      using pos by (simp add: div_less_iff_less_mult not_le)
    finally have ov: "2 ^ 63 div unit < (word_of_nat n :: 64 word) \<longleftrightarrow> \<not> n * unat unit \<le> 2 ^ 63" .
    have "word_of_nat n * unit = (word_of_nat (n * unat unit) :: 64 word)" by simp
    then show ?thesis
      using int True hd nodot units tw u ov digits unfolding val
      by (simp add: duration_term_def Let_def)
  next
    case False
    then have "\<not> n * unat unit \<le> 2 ^ 63" using le by linarith
    then show ?thesis using int hd False val by (simp add: duration_term_def)
  qed
qed

definition render_duration :: "(nat \<times> string) list \<Rightarrow> string" where
  "render_duration ts = concat (List.map render_term ts)"

definition duration_total :: "(nat \<times> string) list \<Rightarrow> nat" where
  "duration_total ts = sum_list (List.map term_value ts)"

definition known_units :: "(nat \<times> string) list \<Rightarrow> bool" where
  "known_units ts \<longleftrightarrow> (\<forall>(n, u) \<in> set ts. map_of unitMap u \<noteq> None)"

lemma render_duration_head: "render_duration ts = '''' \<or> is_digit (hd (render_duration ts))"
proof (cases ts)
  case (Cons t ts')
  obtain n u where "t = (n, u)" by (cases t)
  then show ?thesis using Cons show_nat_digits [of n]
    by (cases "show_nat n") (auto simp: render_duration_def)
qed (simp add: render_duration_def)

lemma duration_sum_render:
  assumes "known_units ts" and "d \<le> 2 ^ 63" and "d + duration_total ts < 2 ^ 64"
  shows "duration_sum frac (word_of_nat d) (render_duration ts)
    = (if d + duration_total ts \<le> 2 ^ 63 then Some (word_of_nat (d + duration_total ts)) else None)"
  using assms
proof (induction ts arbitrary: d)
  case Nil
  then show ?case by (simp add: render_duration_def duration_total_def duration_sum.simps)
next
  case (Cons t ts)
  obtain n u where t: "t = (n, u)" by (cases t)
  define v where "v = term_value (n, u)"
  obtain unit where u: "map_of unitMap u = Some unit" using Cons.prems(1) t by (auto simp: known_units_def)
  have shape: "render_duration (t # ts) = render_term (n, u) @ render_duration ts"
    by (simp add: render_duration_def t)
  have ne: "render_duration (t # ts) \<noteq> ''''" using show_nat_digits [of n] by (simp add: render_duration_def t)
  have tm: "duration_term frac (render_duration (t # ts))
      = (if v \<le> 2 ^ 63 then Some (word_of_nat v, render_duration ts) else None)"
    unfolding shape v_def by (rule duration_term_render [OF u render_duration_head])
  have tot: "duration_total (t # ts) = v + duration_total ts" by (simp add: duration_total_def t v_def)
  have "duration_sum frac (word_of_nat d) (render_duration (t # ts))
      = (if v \<le> 2 ^ 63 then if 2 ^ 63 < (word_of_nat (d + v) :: 64 word) then None
           else duration_sum frac (word_of_nat (d + v)) (render_duration ts) else None)"
    by (subst duration_sum.simps) (simp add: ne tm)
  also have "\<dots> = (if d + v \<le> 2 ^ 63 then duration_sum frac (word_of_nat (d + v)) (render_duration ts) else None)"
    using above_63 [of "d + v"] Cons.prems(3) tot by auto
  also have "\<dots> = (if d + v + duration_total ts \<le> 2 ^ 63
      then Some (word_of_nat (d + v + duration_total ts)) else None)"
    using Cons.IH [of "d + v"] Cons.prems tot by (auto simp: known_units_def)
  finally show ?case by (simp add: tot add.assoc)
qed

lemma sint_in_range: "- (2 ^ 63) \<le> i \<Longrightarrow> i < 2 ^ 63 \<Longrightarrow> sint (word_of_int i :: 64 word) = i"
  by (simp only: signed_of_int) (simp add: signed_take_bit_int_eq_self)

lemma ParseDuration_unsigned:
  assumes "hd s \<noteq> CHR ''-''" and "hd s \<noteq> CHR ''+''" and "s \<noteq> ''''" and "s \<noteq> ''0''"
  shows "ParseDuration frac s = Option.bind (duration_sum frac 0 s) (\<lambda>d. if 2 ^ 63 - 1 < d then None else Some (sint d))"
    and "ParseDuration frac (CHR ''-'' # s) = map_option (\<lambda>d. sint (- d)) (duration_sum frac 0 s)"
  using assms by (simp_all add: ParseDuration_def Let_def split: option.split)

text \<open>
  A duration of whole numbers with units is read as its sum in nanoseconds when that fits into 63
  bits, and refused up to the next power of two; a minus sign negates it.
\<close>

lemma ParseDuration_render:
  assumes "ts \<noteq> []" and "known_units ts" and "duration_total ts < 2 ^ 64"
  shows "ParseDuration frac (render_duration ts)
      = (if duration_total ts < 2 ^ 63 then Some (int (duration_total ts)) else None)
    \<and> (duration_total ts < 2 ^ 63 \<longrightarrow>
      ParseDuration frac (CHR ''-'' # render_duration ts) = Some (- int (duration_total ts)))"
proof -
  let ?s = "render_duration ts" and ?n = "duration_total ts"
  obtain n u ts' where ts: "ts = (n, u) # ts'" using assms(1) by (cases ts) auto
  have u: "u \<noteq> ''''" using assms(2) ts unit_cases by (fastforce simp: known_units_def)
  have d: "is_digit (hd ?s)" and ne: "?s \<noteq> ''''"
    using render_duration_head [of ts] show_nat_digits [of n] by (auto simp: ts render_duration_def)
  have z: "?s \<noteq> ''0''"
    using u show_nat_digits [of n] by (cases "show_nat n"; cases u) (auto simp: ts render_duration_def)
  have sign: "hd ?s \<noteq> CHR ''-''" "hd ?s \<noteq> CHR ''+''" using d by (auto simp: is_digit_def)
  note parse = ParseDuration_unsigned [OF sign ne z, of frac]
  have sum: "duration_sum frac 0 ?s = (if ?n \<le> 2 ^ 63 then Some (word_of_nat ?n) else None)"
    using duration_sum_render [OF assms(2), of 0 frac] assms(3) by simp
  have pos: "2 ^ 63 - 1 < (word_of_nat ?n :: 64 word) \<longleftrightarrow> \<not> ?n < 2 ^ 63"
    using assms(3) by (simp add: word_less_nat_alt unat_of_nat not_less) linarith
  have w: "sint (word_of_nat ?n :: 64 word) = int ?n" "sint (- word_of_nat ?n :: 64 word) = - int ?n" if "?n < 2 ^ 63"
  proof -
    have "int ?n < 2 ^ 63" using that by simp
    then show "sint (word_of_nat ?n :: 64 word) = int ?n" "sint (- word_of_nat ?n :: 64 word) = - int ?n"
      using sint_in_range [of "int ?n"] sint_in_range [of "- int ?n"] by simp_all
  qed
  show ?thesis unfolding parse sum using pos w by auto
qed

lemma ParseDuration_samples:
  "ParseDuration (\<lambda>f unit n. 0) ''1m30s'' = Some 90000000000
   \<and> ParseDuration (\<lambda>f unit n. 0) ''-10s'' = Some (- 10000000000)
   \<and> ParseDuration (\<lambda>f unit n. 0) ''2562048h'' = None"
proof -
  have "render_duration [(1, ''m''), (30, ''s'')] = ''1m30s''" "render_duration [(10, ''s'')] = ''10s''"
    "render_duration [(2562048, ''h'')] = ''2562048h''"
    by (simp_all add: render_duration_def show_nat.simps char_of_def bit_0)
  moreover have "known_units [(1, ''m''), (30, ''s'')]" "known_units [(10, ''s'')]" "known_units [(2562048, ''h'')]"
    and "duration_total [(1, ''m''), (30, ''s'')] = 90000000000" "duration_total [(10, ''s'')] = 10000000000"
      "duration_total [(2562048, ''h'')] = 9223372800000000000"
    by (simp_all add: known_units_def unitMap_def duration_total_def)
  ultimately show ?thesis
    using ParseDuration_render [of "[(1, ''m''), (30, ''s'')]" "\<lambda>f unit n. 0"] ParseDuration_render [of "[(10, ''s'')]" "\<lambda>f unit n. 0"]
      ParseDuration_render [of "[(2562048, ''h'')]" "\<lambda>f unit n. 0"]
    by simp
qed

text \<open>
  The check for an overflow of the sum misses one case: two terms of exactly \<open>2 ^ 63\<close> nanoseconds
  add up to zero.
\<close>

lemma duration_wraps: "ParseDuration frac (render_duration [(2 ^ 63, ''ns''), (2 ^ 63, ''ns'')]) = Some 0"
proof -
  define t :: "nat \<times> string" where "t = (2 ^ 63, ''ns'')"
  have u: "map_of unitMap ''ns'' = Some 1" by (simp add: unitMap_def)
  have v: "term_value t = 2 ^ 63" by (simp add: unitMap_def t_def)
  have tm: "duration_term frac (render_duration (t # ts)) = Some (2 ^ 63, render_duration ts)" for ts
    using duration_term_render [OF u render_duration_head [of ts], of frac "2 ^ 63"] v
    by (simp add: render_duration_def t_def)
  have ne: "render_duration (t # ts) \<noteq> ''''" "render_duration [] = ''''" for ts
    by (simp_all add: render_duration_def t_def)
  have "duration_sum frac 0 (render_duration [t, t]) = Some 0"
    by (subst duration_sum.simps, simp add: ne tm, subst duration_sum.simps, simp add: ne tm, subst duration_sum.simps, simp add: ne)
  moreover have "is_digit (hd (render_duration [t, t]))"
    using render_duration_head [of "[t, t]"] ne by blast
  then have "hd (render_duration [t, t]) \<noteq> CHR ''-''" "hd (render_duration [t, t]) \<noteq> CHR ''+''"
    by (auto simp: is_digit_def)
  moreover have "render_duration [t, t] \<noteq> ''0''" by (simp add: render_duration_def t_def)
  ultimately have "ParseDuration frac (render_duration [t, t]) = Some 0"
    using ParseDuration_unsigned(1) [OF _ _ ne(1)] by simp
  then show ?thesis unfolding t_def .
qed

end
