(* ===== verification/Command_Line.thy ===== *)
theory Command_Line
  imports Startup Go_Duration
begin

text \<open>
  The command line of \<open>cmd/rcloneplugin/main.go\<close>: the flags that \<open>main\<close> declares, package \<open>flag\<close> of the
  standard library as far as \<open>main\<close> uses it, and the whole command from its arguments to the running driver.
\<close>

section \<open>The flags\<close>

datatype flag_value =
    StringVar "string \<Rightarrow> command_line \<Rightarrow> command_line"
  | BoolVar "bool \<Rightarrow> command_line \<Rightarrow> command_line"
  | DurationVar "int \<Rightarrow> command_line \<Rightarrow> command_line"

abbreviation on_metrics :: "(metrics_options \<Rightarrow> metrics_options) \<Rightarrow> command_line \<Rightarrow> command_line" where
  "on_metrics f cl \<equiv> cl\<lparr>cl_metrics := f (cl_metrics cl)\<rparr>"

abbreviation on_rc :: "(rc_options \<Rightarrow> rc_options) \<Rightarrow> command_line \<Rightarrow> command_line" where
  "on_rc f cl \<equiv> cl\<lparr>cl_rc := f (cl_rc cl)\<rparr>"

definition main_flags :: "(string \<times> flag_value) list" where
  "main_flags =
     [(''endpoint'', StringVar (\<lambda>v cl. cl\<lparr>cl_endpoint := v\<rparr>)),
      (''nodeid'', StringVar (\<lambda>v cl. cl\<lparr>cl_nodeID := v\<rparr>)),
      (''drivername'', StringVar (\<lambda>v cl. cl\<lparr>cl_driverName := v\<rparr>)),
      (''metrics-addr'', StringVar (\<lambda>v. on_metrics (\<lambda>o1. o1\<lparr>mx_MetricsAddr := v\<rparr>))),
      (''metrics-path'', StringVar (\<lambda>v. on_metrics (\<lambda>o1. o1\<lparr>mx_MetricsPath := v\<rparr>))),
      (''metrics-server-read-timeout'', DurationVar (\<lambda>v. on_metrics (\<lambda>o1. o1\<lparr>mx_ReadTimeout := v\<rparr>))),
      (''metrics-server-write-timeout'', DurationVar (\<lambda>v. on_metrics (\<lambda>o1. o1\<lparr>mx_WriteTimeout := v\<rparr>))),
      (''metrics-server-idle-timeout'', DurationVar (\<lambda>v. on_metrics (\<lambda>o1. o1\<lparr>mx_IdleTimeout := v\<rparr>))),
      (''rc'', BoolVar (\<lambda>v. on_rc (\<lambda>o1. o1\<lparr>rc_Enabled := v\<rparr>))),
      (''rc-addr'', StringVar (\<lambda>v. on_rc (\<lambda>o1. o1\<lparr>rc_Address := v\<rparr>))),
      (''rc-no-auth'', BoolVar (\<lambda>v. on_rc (\<lambda>o1. o1\<lparr>rc_NoAuth := v\<rparr>))),
      (''rc-user'', StringVar (\<lambda>v. on_rc (\<lambda>o1. o1\<lparr>rc_Username := v\<rparr>))),
      (''rc-pass'', StringVar (\<lambda>v. on_rc (\<lambda>o1. o1\<lparr>rc_Password := v\<rparr>)))]"

section \<open>Package flag\<close>

text \<open>
  \<open>klog.InitFlags\<close> and other packages register flags of their own in the same set; what they do
  with a value is theirs, an error or nothing.  The float expression of \<open>time.ParseDuration\<close> is \<open>fe_frac\<close>.
\<close>

record foreign_flag =
  ff_IsBool :: bool
  ff_Set :: "string \<Rightarrow> string option"

record flag_env =
  fe_frac :: "64 word \<Rightarrow> 64 word \<Rightarrow> nat \<Rightarrow> 64 word"
  fe_others :: "string \<Rightarrow> foreign_flag option"

record flag_state =
  fs_cl :: command_line
  fs_others :: "(string \<times> string) list"

definition flag_defined :: "flag_env \<Rightarrow> string \<Rightarrow> bool" where
  "flag_defined env name \<longleftrightarrow> map_of main_flags name \<noteq> None \<or> fe_others env name \<noteq> None"

definition flag_is_bool :: "flag_env \<Rightarrow> string \<Rightarrow> bool" where
  "flag_is_bool env name =
     (case map_of main_flags name of
        Some (BoolVar f) \<Rightarrow> True
      | Some _ \<Rightarrow> False
      | None \<Rightarrow> (case fe_others env name of None \<Rightarrow> False | Some ff \<Rightarrow> ff_IsBool ff))"

text \<open>The method \<open>Set\<close> of the value of a flag.\<close>

definition flag_Set :: "flag_env \<Rightarrow> string \<Rightarrow> string \<Rightarrow> flag_state \<Rightarrow> string + flag_state" where
  "flag_Set env name value st =
     (case map_of main_flags name of
        Some (StringVar f) \<Rightarrow> Inr (st\<lparr>fs_cl := f value (fs_cl st)\<rparr>)
      | Some (BoolVar f) \<Rightarrow>
          (case ParseBool value of None \<Rightarrow> Inl ''parse error'' | Some b \<Rightarrow> Inr (st\<lparr>fs_cl := f b (fs_cl st)\<rparr>))
      | Some (DurationVar f) \<Rightarrow>
          (case ParseDuration (fe_frac env) value of None \<Rightarrow> Inl ''parse error''
           | Some d \<Rightarrow> Inr (st\<lparr>fs_cl := f d (fs_cl st)\<rparr>))
      | None \<Rightarrow>
          (case fe_others env name of
             None \<Rightarrow> Inl ''no such flag''
           | Some ff \<Rightarrow> (case ff_Set ff value of
               Some e \<Rightarrow> Inl e
             | None \<Rightarrow> Inr (st\<lparr>fs_others := fs_others st @ [(name, value)]\<rparr>))))"

text \<open>The name of an argument and its value, if it has one; an equals sign cannot be first.\<close>

definition split_flag :: "string \<Rightarrow> string \<times> string option" where
  "split_flag s =
     (case dropWhile (\<lambda>c. c \<noteq> CHR ''='') (tl s) of
        [] \<Rightarrow> (s, None)
      | _ # value \<Rightarrow> (hd s # takeWhile (\<lambda>c. c \<noteq> CHR ''='') (tl s), Some value))"

datatype parse_step = Seen "string list" flag_state | Stop "string list" | Bad string | Help

definition set_value :: "flag_env \<Rightarrow> string \<Rightarrow> string \<Rightarrow> string list \<Rightarrow> flag_state \<Rightarrow> parse_step" where
  "set_value env name value rest st =
     (case flag_Set env name value st of
        Inl e \<Rightarrow> Bad (''invalid value '' @ go_quote value @ '' for flag -'' @ name @ '': '' @ e)
      | Inr st2 \<Rightarrow> Seen rest st2)"

definition use_flag :: "flag_env \<Rightarrow> string \<times> string option \<Rightarrow> string list \<Rightarrow> flag_state \<Rightarrow> parse_step" where
  "use_flag env nv rest st =
     (let (name, value) = nv in
      if \<not> flag_defined env name
      then (if name = ''help'' \<or> name = ''h'' then Help else Bad (''flag provided but not defined: -'' @ name))
      else if flag_is_bool env name
      then (case value of
              Some v \<Rightarrow> (case flag_Set env name v st of
                  Inl e \<Rightarrow> Bad (''invalid boolean value '' @ go_quote v @ '' for -'' @ name @ '': '' @ e)
                | Inr st2 \<Rightarrow> Seen rest st2)
            | None \<Rightarrow> (case flag_Set env name ''true'' st of
                  Inl e \<Rightarrow> Bad (''invalid boolean flag '' @ name @ '': '' @ e)
                | Inr st2 \<Rightarrow> Seen rest st2))
      else (case (value, rest) of
              (Some v, _) \<Rightarrow> set_value env name v rest st
            | (None, v # rest2) \<Rightarrow> set_value env name v rest2 st
            | (None, []) \<Rightarrow> Bad (''flag needs an argument: -'' @ name)))"

definition parseOne :: "flag_env \<Rightarrow> string list \<Rightarrow> flag_state \<Rightarrow> parse_step" where
  "parseOne env args st =
     (case args of
        [] \<Rightarrow> Stop []
      | s # rest \<Rightarrow>
          if length s < 2 \<or> hd s \<noteq> CHR ''-'' then Stop args
          else if s = ''--'' then Stop rest
          else let name = (if s ! 1 = CHR ''-'' then drop 2 s else drop 1 s) in
            if name = [] \<or> hd name = CHR ''-'' \<or> hd name = CHR ''='' then Bad (''bad flag syntax: '' @ s)
            else use_flag env (split_flag name) rest st)"

lemma set_value_Seen: "set_value env n v rest st = Seen rest2 st2 \<Longrightarrow> rest2 = rest"
  by (simp add: set_value_def split: sum.splits)

lemma parseOne_consumes: "parseOne env args st = Seen rest st2 \<Longrightarrow> length rest < length args"
  by (auto simp: parseOne_def use_flag_def Let_def dest!: set_value_Seen
      split: list.splits if_splits prod.splits option.splits sum.splits)

text \<open>
  \<open>flag.Parse\<close> with the error handling of the command line: an error prints a message and exits with
  status two, a request for help with status zero.
\<close>

datatype parse_result = Parsed flag_state "string list" | ParseExit nat string

function Parse :: "flag_env \<Rightarrow> string list \<Rightarrow> flag_state \<Rightarrow> parse_result" where
  "Parse env args st =
     (case parseOne env args st of
        Seen rest st2 \<Rightarrow> Parse env rest st2
      | Stop rest \<Rightarrow> Parsed st rest
      | Bad e \<Rightarrow> ParseExit 2 e
      | Help \<Rightarrow> ParseExit 0 '''')"
  by pat_completeness auto

termination by (relation "measure (\<lambda>(env, args, st). length args)") (auto dest: parseOne_consumes)

declare Parse.simps [simp del]

section \<open>The command\<close>

datatype process = Exited nat string | Booted "boot_event list"

text \<open>The flag \<open>logtostderr\<close> of klog is set first; an error of that is ignored.\<close>

definition initial_flags :: "flag_env \<Rightarrow> flag_state" where
  "initial_flags env =
     (let st = \<lparr>fs_cl = default_command_line, fs_others = []\<rparr> in
      case flag_Set env ''logtostderr'' ''true'' st of Inl e \<Rightarrow> st | Inr st2 \<Rightarrow> st2)"

definition main_process :: "flag_env \<Rightarrow> 's main_env \<Rightarrow> string list \<Rightarrow> process" where
  "main_process fenv env args =
     (case Parse fenv args (initial_flags fenv) of
        ParseExit n e \<Rightarrow> Exited n e
      | Parsed st rest \<Rightarrow> Booted (main env (fs_cl st)))"

section \<open>Arguments and what they set\<close>

text \<open>
  The ways to write a flag, each with one dash or two: with its value after an equals sign, alone,
  or with its value as the next argument.
\<close>

datatype argument =
    Joined bool string string
  | Bare bool string
  | Separate bool string string

definition dashes :: "bool \<Rightarrow> string" where
  "dashes two = (if two then ''--'' else ''-'')"

fun render_argument :: "argument \<Rightarrow> string list" where
  "render_argument (Joined d n v) = [dashes d @ n @ ''='' @ v]"
| "render_argument (Bare d n) = [dashes d @ n]"
| "render_argument (Separate d n v) = [dashes d @ n, v]"

fun argument_setting :: "argument \<Rightarrow> string \<times> string" where
  "argument_setting (Joined d n v) = (n, v)"
| "argument_setting (Bare d n) = (n, ''true'')"
| "argument_setting (Separate d n v) = (n, v)"

definition accepts :: "flag_env \<Rightarrow> string \<times> string \<Rightarrow> bool" where
  "accepts env nv =
     (case map_of main_flags (fst nv) of
        Some (StringVar f) \<Rightarrow> True
      | Some (BoolVar f) \<Rightarrow> ParseBool (snd nv) \<noteq> None
      | Some (DurationVar f) \<Rightarrow> ParseDuration (fe_frac env) (snd nv) \<noteq> None
      | None \<Rightarrow> (case fe_others env (fst nv) of None \<Rightarrow> False | Some ff \<Rightarrow> ff_Set ff (snd nv) = None))"

definition apply_setting :: "flag_env \<Rightarrow> string \<times> string \<Rightarrow> flag_state \<Rightarrow> flag_state" where
  "apply_setting env nv st = (case flag_Set env (fst nv) (snd nv) st of Inl e \<Rightarrow> st | Inr st2 \<Rightarrow> st2)"

definition plain_name :: "string \<Rightarrow> bool" where
  "plain_name n \<longleftrightarrow> n \<noteq> '''' \<and> hd n \<noteq> CHR ''-'' \<and> CHR ''='' \<notin> set n"

fun argument_ok :: "flag_env \<Rightarrow> argument \<Rightarrow> bool" where
  "argument_ok env (Joined d n v) \<longleftrightarrow> plain_name n \<and> accepts env (n, v)"
| "argument_ok env (Bare d n) \<longleftrightarrow> plain_name n \<and> flag_is_bool env n \<and> accepts env (n, ''true'')"
| "argument_ok env (Separate d n v) \<longleftrightarrow> plain_name n \<and> \<not> flag_is_bool env n \<and> accepts env (n, v)"

lemma accepts_Set: "accepts env nv \<Longrightarrow> flag_Set env (fst nv) (snd nv) st = Inr (apply_setting env nv st)"
  by (auto simp: accepts_def apply_setting_def flag_Set_def split: option.splits flag_value.splits)

lemma accepts_defined: "accepts env (n, v) \<Longrightarrow> flag_defined env n"
  by (auto simp: accepts_def flag_defined_def split: option.splits)

lemma split_flag_plain:
  assumes "plain_name n"
  shows "split_flag (n @ ''='' @ v) = (n, Some v)" and "split_flag n = (n, None)"
proof -
  obtain c t where n: "n = c # t" "CHR ''='' \<notin> set t" using assms by (cases n) (auto simp: plain_name_def)
  then have "\<forall>x \<in> set t. x \<noteq> CHR ''=''" by auto
  with n show "split_flag (n @ ''='' @ v) = (n, Some v)" "split_flag n = (n, None)"
    by (simp_all add: split_flag_def dropWhile_append takeWhile_append dropWhile_eq_Nil_conv [THEN iffD2])
qed

lemma dashed_argument:
  assumes "plain_name n"
  shows "length (dashes d @ n @ w) \<ge> 2" "hd (dashes d @ n @ w) = CHR ''-''" "dashes d @ n @ w \<noteq> ''--''"
    "(if (dashes d @ n @ w) ! 1 = CHR ''-'' then drop 2 (dashes d @ n @ w) else drop 1 (dashes d @ n @ w)) = n @ w"
  using assms by (cases n; auto simp: dashes_def plain_name_def)+

lemma parseOne_dashed:
  assumes "plain_name n"
  shows "parseOne env ((dashes d @ n @ w) # rest) st = use_flag env (split_flag (n @ w)) rest st"
proof -
  have one: "parseOne env (s # rest) st = use_flag env (split_flag x) rest st"
    if "2 \<le> length s" "hd s = CHR ''-''" "s \<noteq> ''--''"
      "(if s ! 1 = CHR ''-'' then drop 2 s else drop 1 s) = x" "x \<noteq> []" "hd x \<noteq> CHR ''-''" "hd x \<noteq> CHR ''=''"
    for s x using that by (simp add: parseOne_def Let_def)
  have "hd n \<noteq> CHR ''=''" using assms by (cases n) (auto simp: plain_name_def)
  then show ?thesis
    using assms by (intro one dashed_argument) (auto simp: plain_name_def)
qed

text \<open>One argument is one step of the parser.\<close>

lemma parse_argument:
  assumes "argument_ok env a"
  shows "Parse env (render_argument a @ rest) st = Parse env rest (apply_setting env (argument_setting a) st)"
proof -
  have "parseOne env (render_argument a @ rest) st = Seen rest (apply_setting env (argument_setting a) st)"
  proof (cases a)
    case (Joined d n v)
    then show ?thesis
      using assms parseOne_dashed [of n env d "''='' @ v" rest st] split_flag_plain(1) [of n v]
        accepts_Set [of env "(n, v)" st] accepts_defined [of env n v]
      by (simp add: use_flag_def set_value_def)
  next
    case (Bare d n)
    then show ?thesis
      using assms parseOne_dashed [of n env d "[]" rest st] split_flag_plain(2) [of n]
        accepts_Set [of env "(n, ''true'')" st] accepts_defined [of env n "''true''"]
      by (simp add: use_flag_def)
  next
    case (Separate d n v)
    then show ?thesis
      using assms parseOne_dashed [of n env d "[]" "v # rest" st] split_flag_plain(2) [of n]
        accepts_Set [of env "(n, v)" st] accepts_defined [of env n v]
      by (simp add: use_flag_def set_value_def)
  qed
  then show ?thesis by (subst Parse.simps) simp
qed

lemma parse_arguments:
  assumes "list_all (argument_ok env) as"
  shows "Parse env (concat (List.map render_argument as) @ rest) st
    = Parse env rest (fold (apply_setting env) (List.map argument_setting as) st)"
  using assms by (induction as arbitrary: st) (simp_all add: parse_argument)

lemma parse_stops:
  assumes "rest = [] \<or> length (hd rest) < 2 \<or> hd (hd rest) \<noteq> CHR ''-''"
  shows "Parse env rest st = Parsed st rest"
  using assms by (subst Parse.simps) (auto simp: parseOne_def split: list.splits)

lemma parse_all:
  assumes "list_all (argument_ok env) as" and "rest = [] \<or> length (hd rest) < 2 \<or> hd (hd rest) \<noteq> CHR ''-''"
  shows "Parse env (concat (List.map render_argument as) @ rest) st
    = Parsed (fold (apply_setting env) (List.map argument_setting as) st) rest"
  by (simp add: parse_arguments [OF assms(1)] parse_stops [OF assms(2)])

section \<open>The last setting wins\<close>

text \<open>The part of the command line that a flag writes, as a function.\<close>

definition write_flag :: "flag_env \<Rightarrow> string \<times> string \<Rightarrow> command_line \<Rightarrow> command_line" where
  "write_flag env nv cl =
     (case map_of main_flags (fst nv) of
        None \<Rightarrow> cl
      | Some (StringVar f) \<Rightarrow> f (snd nv) cl
      | Some (BoolVar f) \<Rightarrow> (case ParseBool (snd nv) of None \<Rightarrow> cl | Some b \<Rightarrow> f b cl)
      | Some (DurationVar f) \<Rightarrow> (case ParseDuration (fe_frac env) (snd nv) of None \<Rightarrow> cl | Some d \<Rightarrow> f d cl))"

lemma apply_setting_cl: "fs_cl (apply_setting env nv st) = write_flag env nv (fs_cl st)"
  by (auto simp: apply_setting_def flag_Set_def write_flag_def split: option.splits flag_value.splits)

lemma fold_settings_cl: "fs_cl (fold (apply_setting env) nvs st) = fold (write_flag env) nvs (fs_cl st)"
  by (induction nvs arbitrary: st) (simp_all add: apply_setting_cl)

text \<open>The value of a flag in a sequence of settings: that of the last one, else the default.\<close>

definition string_setting :: "(string \<times> string) list \<Rightarrow> string \<Rightarrow> string \<Rightarrow> string" where
  "string_setting nvs n d = (case map_of (rev nvs) n of None \<Rightarrow> d | Some v \<Rightarrow> v)"

definition bool_setting :: "(string \<times> string) list \<Rightarrow> string \<Rightarrow> bool \<Rightarrow> bool" where
  "bool_setting nvs n d = (case map_of (rev nvs) n of None \<Rightarrow> d
     | Some v \<Rightarrow> (case ParseBool v of None \<Rightarrow> d | Some b \<Rightarrow> b))"

definition duration_setting :: "flag_env \<Rightarrow> (string \<times> string) list \<Rightarrow> string \<Rightarrow> int \<Rightarrow> int" where
  "duration_setting env nvs n d = (case map_of (rev nvs) n of None \<Rightarrow> d
     | Some v \<Rightarrow> (case ParseDuration (fe_frac env) v of None \<Rightarrow> d | Some t \<Rightarrow> t))"

definition settings_of :: "flag_env \<Rightarrow> (string \<times> string) list \<Rightarrow> command_line" where
  "settings_of env nvs =
     (let s = string_setting nvs; b = bool_setting nvs; t = duration_setting env nvs in
      \<lparr>cl_endpoint = s ''endpoint'' ''unix://tmp/csi.sock'', cl_nodeID = s ''nodeid'' '''',
       cl_driverName = s ''drivername'' ''rclone.csi.veloxpack.io'',
       cl_metrics = \<lparr>mx_MetricsPath = s ''metrics-path'' ''/metrics'',
         mx_ReadTimeout = t ''metrics-server-read-timeout'' 10000000000,
         mx_WriteTimeout = t ''metrics-server-write-timeout'' 10000000000,
         mx_IdleTimeout = t ''metrics-server-idle-timeout'' 60000000000, mx_MetricsAddr = s ''metrics-addr'' ''''\<rparr>,
       cl_rc = \<lparr>rc_Enabled = b ''rc'' False, rc_Address = s ''rc-addr'' '':5573'', rc_NoAuth = b ''rc-no-auth'' False,
         rc_Username = s ''rc-user'' '''', rc_Password = s ''rc-pass'' ''''\<rparr>\<rparr>)"

lemmas setting_defs = string_setting_def bool_setting_def duration_setting_def

lemma setting_other:
  assumes "n \<noteq> m"
  shows "string_setting (nvs @ [(n, v)]) m d = string_setting nvs m d"
    "bool_setting (nvs @ [(n, v)]) m b = bool_setting nvs m b"
    "duration_setting env (nvs @ [(n, v)]) m t = duration_setting env nvs m t"
  using assms by (simp_all add: setting_defs)

lemma setting_same:
  "string_setting (nvs @ [(n, v)]) n d = v"
  "ParseBool v = Some x \<Longrightarrow> bool_setting (nvs @ [(n, v)]) n b = x"
  "ParseDuration (fe_frac env) v = Some y \<Longrightarrow> duration_setting env (nvs @ [(n, v)]) n t = y"
  by (simp_all add: setting_defs)

lemma settings_of_snoc:
  assumes "accepts env (n, v)"
  shows "settings_of env (nvs @ [(n, v)]) = write_flag env (n, v) (settings_of env nvs)"
proof (cases "map_of main_flags n")
  case (Some x)
  from map_of_SomeD [OF Some] show ?thesis
    using assms Some
    by (auto simp: main_flags_def settings_of_def Let_def setting_same setting_other write_flag_def accepts_def)
next
  case None
  then have "n \<notin> fst ` set main_flags" by (simp add: map_of_eq_None_iff)
  then show ?thesis using None
    by (simp add: main_flags_def settings_of_def Let_def setting_other write_flag_def)
qed

lemma settings_of_Nil: "settings_of env [] = default_command_line"
  by (simp add: settings_of_def Let_def setting_defs default_command_line_def metrics_NewOptions_def rc_NewOptions_def)

lemma fold_settings:
  "list_all (accepts env) nvs \<Longrightarrow> fold (write_flag env) nvs default_command_line = settings_of env nvs"
proof (induction nvs rule: rev_induct)
  case (snoc nv nvs)
  obtain n v where "nv = (n, v)" by (cases nv)
  then show ?case using snoc by (simp add: settings_of_snoc)
qed (simp add: settings_of_Nil)

section \<open>From the arguments to the driver\<close>

lemma argument_accepted: "argument_ok env a \<Longrightarrow> accepts env (argument_setting a)"
  by (cases a) simp_all

lemma initial_flags_cl: "fs_cl (initial_flags env) = default_command_line"
  by (auto simp: initial_flags_def flag_Set_def main_flags_def Let_def split: option.splits)

lemma parsed_command_line:
  assumes "list_all (argument_ok env) as"
  shows "fs_cl (fold (apply_setting env) (List.map argument_setting as) (initial_flags env))
    = settings_of env (List.map argument_setting as)"
proof -
  have "list_all (accepts env) (List.map argument_setting as)"
    using assms by (auto simp: list_all_iff argument_accepted)
  then show ?thesis by (simp add: fold_settings_cl initial_flags_cl fold_settings)
qed

text \<open>
  C16: Arguments in any of the notations of package \<open>flag\<close>, in any order, start the driver with the
  options they say: each option has the value of the last argument for it, or its default.  The
  first argument that is not a flag ends the parsing, and everything after it is ignored.
\<close>

theorem arguments_set_options:
  assumes "list_all (argument_ok fenv) as"
    and "rest = [] \<or> length (hd rest) < 2 \<or> hd (hd rest) \<noteq> CHR ''-''"
  shows "main_process fenv env (concat (List.map render_argument as) @ rest)
    = Booted (main env (settings_of fenv (List.map argument_setting as)))"
  by (simp add: main_process_def parse_all [OF assms] parsed_command_line [OF assms(1)])

definition sample_flag_env :: flag_env where
  "sample_flag_env = \<lparr>fe_frac = (\<lambda>f unit n. 0),
     fe_others = (\<lambda>n. if n = ''v'' then Some \<lparr>ff_IsBool = False, ff_Set = (\<lambda>s. None)\<rparr>
       else if n = ''logtostderr'' then Some \<lparr>ff_IsBool = True, ff_Set = (\<lambda>s. None)\<rparr> else None)\<rparr>"

definition sample_arguments :: "argument list" where
  "sample_arguments = [Joined False ''v'' ''5'', Separate True ''nodeid'' ''node-1'', Joined True ''nodeid'' ''node-2'',
     Joined True ''metrics-addr'' '':5572'', Joined True ''metrics-server-read-timeout'' ''1m30s'', Bare True ''rc'',
     Joined True ''rc-no-auth'' ''T'']"

lemma sample_duration: "ParseDuration (\<lambda>f unit n. 0) ''1m30s'' = Some 90000000000"
  by code_simp

lemma sample_arguments_ok: "list_all (argument_ok sample_flag_env) sample_arguments"
  by (simp add: sample_arguments_def sample_flag_env_def plain_name_def accepts_def flag_is_bool_def
      main_flags_def ParseBool_def sample_duration)

theorem arguments_set_options_witness:
  "main_process sample_flag_env sample_main_env ([''-v=5'', ''--nodeid'', ''node-1'', ''--nodeid=node-2'',
      ''--metrics-addr=:5572'', ''--metrics-server-read-timeout=1m30s'', ''--rc'', ''--rc-no-auth=T''] @ [''extra'', ''--rc=false''])
    = Booted (main sample_main_env (default_command_line
        \<lparr>cl_nodeID := ''node-2'',
         cl_metrics := metrics_NewOptions\<lparr>mx_MetricsAddr := '':5572'', mx_ReadTimeout := 90000000000\<rparr>,
         cl_rc := rc_NewOptions\<lparr>rc_Enabled := True, rc_NoAuth := True\<rparr>\<rparr>))"
proof -
  have "concat (List.map render_argument sample_arguments) = [''-v=5'', ''--nodeid'', ''node-1'', ''--nodeid=node-2'',
      ''--metrics-addr=:5572'', ''--metrics-server-read-timeout=1m30s'', ''--rc'', ''--rc-no-auth=T'']"
    by (simp add: sample_arguments_def dashes_def)
  moreover have "settings_of sample_flag_env (List.map argument_setting sample_arguments) = default_command_line
        \<lparr>cl_nodeID := ''node-2'',
         cl_metrics := metrics_NewOptions\<lparr>mx_MetricsAddr := '':5572'', mx_ReadTimeout := 90000000000\<rparr>,
         cl_rc := rc_NewOptions\<lparr>rc_Enabled := True, rc_NoAuth := True\<rparr>\<rparr>"
    by (simp add: sample_arguments_def sample_flag_env_def settings_of_def setting_defs Let_def ParseBool_def sample_duration
        default_command_line_def metrics_NewOptions_def rc_NewOptions_def)
  ultimately show ?thesis
    using arguments_set_options [OF sample_arguments_ok, of "[''extra'', ''--rc=false'']" sample_main_env] by simp
qed

lemma rejected_value:
  assumes "plain_name n" and "flag_defined env n" and "\<not> flag_is_bool env n" and "flag_Set env n v st = Inl e"
  shows "Parse env ((dashes d @ n @ ''='' @ v) # rest) st
    = ParseExit 2 (''invalid value '' @ go_quote v @ '' for flag -'' @ n @ '': '' @ e)"
  using assms parseOne_dashed [OF assms(1), of env d "''='' @ v" rest st] split_flag_plain(1) [OF assms(1), of v]
  by (subst Parse.simps) (simp add: use_flag_def set_value_def)

definition timeout_flags :: "string set" where
  "timeout_flags = {''metrics-server-read-timeout'', ''metrics-server-write-timeout'', ''metrics-server-idle-timeout''}"

lemma timeout_flag:
  assumes "n \<in> timeout_flags"
  obtains f where "map_of main_flags n = Some (DurationVar f)" and "plain_name n"
  using assms by (auto simp: timeout_flags_def main_flags_def plain_name_def)

text \<open>
  C31: A timeout of the metrics server, written as whole numbers with units, reaches the driver as
  exactly that many nanoseconds if they fit into 63 bits; from there to 64 bits the command exits with
  status two and starts nothing.
\<close>

theorem timeout_flag_bounds:
  assumes "list_all (argument_ok fenv) as" and "n \<in> timeout_flags"
    and "ts \<noteq> []" and "known_units ts" and "duration_total ts < 2 ^ 64"
  shows "let nvs = List.map argument_setting as @ [(n, render_duration ts)] in
    main_process fenv env (concat (List.map render_argument as) @ [dashes d @ n @ ''='' @ render_duration ts])
      = (if duration_total ts < 2 ^ 63 then Booted (main env (settings_of fenv nvs))
         else Exited 2 (''invalid value '' @ go_quote (render_duration ts) @ '' for flag -'' @ n @ '': parse error''))
    \<and> (duration_total ts < 2 ^ 63 \<longrightarrow> duration_setting fenv nvs n t = int (duration_total ts))"
proof -
  let ?v = "render_duration ts"
  from assms(2) obtain f where f: "map_of main_flags n = Some (DurationVar f)" and plain: "plain_name n"
    by (rule timeout_flag)
  have parsed: "ParseDuration (fe_frac fenv) ?v
      = (if duration_total ts < 2 ^ 63 then Some (int (duration_total ts)) else None)"
    using ParseDuration_render [OF assms(3-5)] by simp
  have split: "concat (List.map render_argument as) @ [dashes d @ n @ ''='' @ ?v]
      = concat (List.map render_argument (as @ [Joined d n ?v]))" by simp
  show ?thesis
  proof (cases "duration_total ts < 2 ^ 63")
    case True
    then have "list_all (argument_ok fenv) (as @ [Joined d n ?v])"
      using assms(1) plain f parsed by (simp add: accepts_def)
    from parse_all [OF this, of "[]" "initial_flags fenv"] parsed_command_line [OF this]
    have "main_process fenv env (concat (List.map render_argument as) @ [dashes d @ n @ ''='' @ ?v])
        = Booted (main env (settings_of fenv (List.map argument_setting as @ [(n, ?v)])))"
      unfolding split by (simp add: main_process_def)
    then show ?thesis using True setting_same(3) [OF parsed [simplified True if_True]] by (simp add: Let_def)
  next
    case False
    then have "flag_Set fenv n ?v st = Inl ''parse error''" for st using f parsed by (simp add: flag_Set_def)
    moreover have "flag_defined fenv n" "\<not> flag_is_bool fenv n"
      using f by (simp_all add: flag_defined_def flag_is_bool_def)
    ultimately show ?thesis
      using False rejected_value [OF plain, of fenv ?v] parse_arguments [OF assms(1)]
      by (simp add: main_process_def Let_def)
  qed
qed

theorem timeout_flag_bounds_witness:
  "main_process sample_flag_env sample_main_env [''--metrics-server-idle-timeout=2562048h'']
    = Exited 2 (''invalid value '' @ go_quote ''2562048h'' @ '' for flag -metrics-server-idle-timeout: parse error'')"
proof -
  have "render_duration [(2562048, ''h'')] = ''2562048h''"
    by (simp add: render_duration_def show_nat.simps char_of_def bit_0)
  moreover have "known_units [(2562048, ''h'')]" "duration_total [(2562048, ''h'')] = 9223372800000000000"
    by (simp_all add: known_units_def unitMap_def duration_total_def)
  ultimately show ?thesis
    using timeout_flag_bounds [of sample_flag_env "[]" "''metrics-server-idle-timeout''" "[(2562048, ''h'')]"
        sample_main_env True]
    by (simp add: timeout_flags_def Let_def dashes_def)
qed

text \<open>
  A switch takes no separate value: in \<open>--rc false\<close> the word \<open>false\<close> is the first argument that is not a flag, so the
  remote control is enabled and the flags after it are ignored.
\<close>

lemma switch_ignores_next_argument:
  "main_process fenv env ([''--rc'', ''false''] @ rest) = Booted (main env (settings_of fenv [(''rc'', ''true'')]))"
proof -
  have "list_all (argument_ok fenv) [Bare True ''rc'']"
    by (simp add: plain_name_def flag_is_bool_def accepts_def main_flags_def ParseBool_def)
  from parse_all [OF this, of "''false'' # rest"] parsed_command_line [OF this] show ?thesis
    by (simp add: main_process_def dashes_def)
qed

section \<open>The arguments of the Helm chart\<close>

text \<open>
  The values that \<open>charts/templates/csi-rclone-node.yaml\<close> puts into the arguments of the node plugin; the
  variables \<open>$(NODE_ID)\<close>, \<open>$(CSI_ENDPOINT)\<close>, \<open>$(RC_USERNAME)\<close> and \<open>$(RC_PASSWORD)\<close> are replaced by the kubelet.
\<close>

record metrics_values =
  mv_addr :: string
  mv_path :: string
  mv_readTimeout :: string
  mv_writeTimeout :: string
  mv_idleTimeout :: string

record rc_values =
  rv_addr :: string
  rv_noAuth :: bool
  rv_username :: string
  rv_password :: string

record chart_values =
  cv_logLevel :: string
  cv_nodeID :: string
  cv_endpoint :: string
  cv_metrics :: "metrics_values option"
  cv_rc :: "rc_values option"
  cv_extraArgs :: "(string \<times> string) list"

definition metrics_arguments :: "metrics_values \<Rightarrow> argument list" where
  "metrics_arguments m =
     [Joined True ''metrics-addr'' (mv_addr m), Joined True ''metrics-path'' (mv_path m),
      Joined True ''metrics-server-read-timeout'' (mv_readTimeout m),
      Joined True ''metrics-server-write-timeout'' (mv_writeTimeout m),
      Joined True ''metrics-server-idle-timeout'' (mv_idleTimeout m)]"

definition rc_arguments :: "rc_values \<Rightarrow> argument list" where
  "rc_arguments r =
     [Bare True ''rc'', Joined True ''rc-addr'' (rv_addr r)]
     @ (if rv_noAuth r then [Bare True ''rc-no-auth'']
        else [Joined True ''rc-user'' (rv_username r), Joined True ''rc-pass'' (rv_password r)])"

definition chart_arguments :: "chart_values \<Rightarrow> argument list" where
  "chart_arguments v =
     [Joined False ''v'' (cv_logLevel v), Joined True ''nodeid'' (cv_nodeID v), Joined True ''endpoint'' (cv_endpoint v)]
     @ (case cv_metrics v of None \<Rightarrow> [] | Some m \<Rightarrow> metrics_arguments m)
     @ (case cv_rc v of None \<Rightarrow> [] | Some r \<Rightarrow> rc_arguments r)
     @ List.map (\<lambda>(k, x). Joined True k x) (cv_extraArgs v)"

text \<open>
  What the values must satisfy: the log level is one that klog takes, the timeouts are durations, and
  the extra arguments are flags with values of their type.
\<close>

definition chart_ok :: "flag_env \<Rightarrow> chart_values \<Rightarrow> bool" where
  "chart_ok fenv v \<longleftrightarrow> accepts fenv (''v'', cv_logLevel v)
     \<and> (case cv_metrics v of None \<Rightarrow> True | Some m \<Rightarrow>
          ParseDuration (fe_frac fenv) (mv_readTimeout m) \<noteq> None
          \<and> ParseDuration (fe_frac fenv) (mv_writeTimeout m) \<noteq> None
          \<and> ParseDuration (fe_frac fenv) (mv_idleTimeout m) \<noteq> None)
     \<and> list_all (\<lambda>(k, x). plain_name k \<and> accepts fenv (k, x)) (cv_extraArgs v)"

lemma chart_arguments_ok: "chart_ok fenv v \<Longrightarrow> list_all (argument_ok fenv) (chart_arguments v)"
proof -
  assume ok: "chart_ok fenv v"
  have "list_all (argument_ok fenv) (rc_arguments r)" for r
    by (simp add: rc_arguments_def plain_name_def accepts_def flag_is_bool_def main_flags_def ParseBool_def)
  moreover have "list_all (argument_ok fenv) (metrics_arguments m)" if "cv_metrics v = Some m" for m
    using ok that by (simp add: chart_ok_def metrics_arguments_def plain_name_def accepts_def main_flags_def)
  moreover have "list_all (argument_ok fenv) (List.map (\<lambda>(k, x). Joined True k x) (cv_extraArgs v))"
    using ok by (auto simp: chart_ok_def list_all_iff)
  ultimately show ?thesis
    using ok by (auto simp: chart_ok_def chart_arguments_def plain_name_def accepts_def main_flags_def split: option.splits)
qed

lemma chart_process:
  assumes "chart_ok fenv v"
  shows "main_process fenv env (concat (List.map render_argument (chart_arguments v)))
    = Booted (main env (settings_of fenv (List.map argument_setting (chart_arguments v))))"
  using parse_all [OF chart_arguments_ok [OF assms], of "[]" "initial_flags fenv"]
    parsed_command_line [OF chart_arguments_ok [OF assms]]
  by (simp add: main_process_def)

lemma map_of_rev_append: "n \<notin> fst ` set ys \<Longrightarrow> map_of (rev (xs @ ys)) n = map_of (rev xs) n"
  by (simp add: map_add_def map_of_eq_None_iff [THEN iffD2])

lemma map_of_rev_skip: "n \<notin> fst ` set xs \<Longrightarrow> map_of (rev (xs @ ys)) n = map_of (rev ys) n"
  by (auto simp: map_add_def map_of_eq_None_iff [THEN iffD2] split: option.splits)

definition rc_flags :: "string set" where
  "rc_flags = {''rc'', ''rc-addr'', ''rc-no-auth'', ''rc-user'', ''rc-pass''}"

lemma chart_rc_options:
  assumes "fst ` set (cv_extraArgs v) \<inter> rc_flags = {}"
  shows "cl_rc (settings_of fenv (List.map argument_setting (chart_arguments v)))
    = (case cv_rc v of None \<Rightarrow> rc_NewOptions
       | Some r \<Rightarrow> \<lparr>rc_Enabled = True, rc_Address = rv_addr r, rc_NoAuth = rv_noAuth r,
           rc_Username = (if rv_noAuth r then '''' else rv_username r),
           rc_Password = (if rv_noAuth r then '''' else rv_password r)\<rparr>)"
proof -
  have e: "List.map argument_setting (List.map (\<lambda>(k, x). Joined True k x) kxs) = kxs" for kxs
    by (induction kxs) auto
  define pre where "pre = List.map argument_setting ([Joined False ''v'' (cv_logLevel v), Joined True ''nodeid'' (cv_nodeID v),
      Joined True ''endpoint'' (cv_endpoint v)] @ (case cv_metrics v of None \<Rightarrow> [] | Some m \<Rightarrow> metrics_arguments m))"
  define rcs where "rcs = (case cv_rc v of None \<Rightarrow> [] | Some r \<Rightarrow> List.map argument_setting (rc_arguments r))"
  have all: "List.map argument_setting (chart_arguments v) = pre @ rcs @ cv_extraArgs v"
    by (simp add: pre_def rcs_def chart_arguments_def e del: List.map_map split: option.split)
  have "fst ` set pre \<inter> rc_flags = {}"
    by (auto simp: pre_def metrics_arguments_def rc_flags_def split: option.splits)
  then have out: "n \<notin> fst ` set pre" "n \<notin> fst ` set (cv_extraArgs v)" if "n \<in> rc_flags" for n
    using assms that by blast+
  have look: "map_of (rev (pre @ rcs @ cv_extraArgs v)) n = map_of (rev rcs) n" if "n \<in> rc_flags" for n
    by (rule trans [OF map_of_rev_skip map_of_rev_append]) (rule out [OF that])+
  note look = look [of "''rc''"] look [of "''rc-addr''"] look [of "''rc-no-auth''"] look [of "''rc-user''"] look [of "''rc-pass''"]
  have "cl_rc (settings_of fenv (pre @ rcs @ cv_extraArgs v)) = cl_rc (settings_of fenv rcs)"
    using look by (simp add: settings_of_def Let_def setting_defs rc_flags_def del: rev_append)
  also have "\<dots> = (case cv_rc v of None \<Rightarrow> rc_NewOptions
       | Some r \<Rightarrow> \<lparr>rc_Enabled = True, rc_Address = rv_addr r, rc_NoAuth = rv_noAuth r,
           rc_Username = (if rv_noAuth r then '''' else rv_username r),
           rc_Password = (if rv_noAuth r then '''' else rv_password r)\<rparr>)"
    by (cases "cv_rc v") (simp_all add: rcs_def rc_arguments_def settings_of_def Let_def
        setting_defs ParseBool_def rc_NewOptions_def)
  finally show ?thesis by (simp only: all)
qed

lemma rc_listening_started:
  assumes "RcListening a \<in> set (main env cl)"
  shows "a = rc_Address (cl_rc cl) \<and> (\<exists>srv. rc_Start (me_rc_defaults env) (me_rc_start env) (Some (cl_rc cl)) = Inr (Some srv))"
  using assms boot_driver_cases [of env cl]
  by (auto simp: main_def boot_rc_def split: outcome.splits sum.splits option.splits if_splits)

text \<open>
  C15: Deployed by the Helm chart, with no extra argument for it, the remote control server listens only if
  the chart enables it, on the address of the chart, and without authentication only if the chart
  says so; otherwise it asks for the user and the password of the chart, neither of which is empty.
\<close>

theorem chart_rc_authenticated:
  assumes "chart_ok fenv v" and "fst ` set (cv_extraArgs v) \<inter> rc_flags = {}"
    and "main_process fenv env (concat (List.map render_argument (chart_arguments v))) = Booted events"
    and "RcListening a \<in> set events"
  shows "\<exists>r opts srv. cv_rc v = Some r \<and> a = rv_addr r \<and> me_rc_start env opts = Inr srv
    \<and> so_ListenAddr opts = [a] \<and> so_NoAuth opts = rv_noAuth r
    \<and> (\<not> rv_noAuth r \<longrightarrow> so_BasicUser opts = rv_username r \<and> rv_username r \<noteq> ''''
         \<and> so_BasicPass opts = rv_password r \<and> rv_password r \<noteq> '''')"
proof -
  let ?cl = "settings_of fenv (List.map argument_setting (chart_arguments v))"
  have "RcListening a \<in> set (main env ?cl)" using assms(3,4) chart_process [OF assms(1), of env] by simp
  from rc_listening_started [OF this] obtain srv where a: "a = rc_Address (cl_rc ?cl)"
    and s: "rc_Start (me_rc_defaults env) (me_rc_start env) (Some (cl_rc ?cl)) = Inr (Some srv)" by blast
  note rc = chart_rc_options [OF assms(2), of fenv]
  have "rc_Enabled (cl_rc ?cl)" using s by (auto simp: rc_Start_def split: if_splits)
  then obtain r where r: "cv_rc v = Some r" using rc by (cases "cv_rc v") (auto simp: rc_NewOptions_def)
  from rc_Start_complete [OF s] show ?thesis using a r rc by (auto split: if_splits)
qed

definition sample_values :: chart_values where
  "sample_values = \<lparr>cv_logLevel = ''2'', cv_nodeID = ''node-1'', cv_endpoint = ''unix:///csi/csi.sock'', cv_metrics = None,
     cv_rc = Some \<lparr>rv_addr = '':5573'', rv_noAuth = False, rv_username = ''admin'', rv_password = ''a=b''\<rparr>,
     cv_extraArgs = [(''drivername'', ''other'')]\<rparr>"

lemma sample_values_ok: "chart_ok sample_flag_env sample_values"
  by (simp add: chart_ok_def sample_values_def sample_flag_env_def accepts_def main_flags_def plain_name_def)

theorem chart_rc_authenticated_witness:
  "\<exists>opts srv. me_rc_start sample_main_env opts = Inr srv \<and> so_ListenAddr opts = ['':5573'']
     \<and> \<not> so_NoAuth opts \<and> so_BasicPass opts = ''a=b''"
proof -
  let ?cl = "settings_of sample_flag_env (List.map argument_setting (chart_arguments sample_values))"
  have extra: "fst ` set (cv_extraArgs sample_values) \<inter> rc_flags = {}"
    by (simp add: sample_values_def rc_flags_def)
  have rc: "cl_rc ?cl = \<lparr>rc_Enabled = True, rc_Address = '':5573'', rc_NoAuth = False, rc_Username = ''admin'', rc_Password = ''a=b''\<rparr>"
    using chart_rc_options [OF extra, of sample_flag_env] by (simp add: sample_values_def)
  moreover have "mx_MetricsAddr (cl_metrics ?cl) = ''''"
    by (simp add: settings_of_def setting_defs Let_def sample_values_def chart_arguments_def rc_arguments_def)
  ultimately have "RcListening '':5573'' \<in> set (main sample_main_env ?cl)"
    by (simp add: main_def boot_rc_def rc_Start_def rc_Validate_def sample_main_env_def Let_def)
  from chart_rc_authenticated [OF sample_values_ok extra chart_process [OF sample_values_ok] this] show ?thesis
    by (auto simp: sample_values_def)
qed

end
