(* ===== verification/Logging.thy ===== *)
theory Logging
  imports Go_Prelude
begin

text \<open>
  The bridge from rclone's \<open>slog\<close> records to \<open>klog\<close> (\<open>pkg/rclone/logging.go\<close>).  The value of an
  attribute is a Go value that \<open>fmt.Fprint\<close> prints; printing is the argument \<open>fprint\<close>.
\<close>

section \<open>Severities\<close>

text \<open>The four calls of \<open>klog\<close> that the handler makes, from the most verbose to the gravest.\<close>

datatype severity = InfoV4 | InfoV2 | Warning | Error

fun severity_rank :: "severity \<Rightarrow> nat" where
  "severity_rank InfoV4 = 0"
| "severity_rank InfoV2 = 1"
| "severity_rank Warning = 2"
| "severity_rank Error = 3"

lemma severity_rank_inject: "severity_rank x = severity_rank y \<longleftrightarrow> x = y"
  by (cases x; cases y) simp_all

instantiation severity :: linorder
begin

definition less_eq_severity :: "severity \<Rightarrow> severity \<Rightarrow> bool" where
  "less_eq_severity x y \<longleftrightarrow> severity_rank x \<le> severity_rank y"

definition less_severity :: "severity \<Rightarrow> severity \<Rightarrow> bool" where
  "less_severity x y \<longleftrightarrow> severity_rank x < severity_rank y"

instance
  by standard (auto simp: less_eq_severity_def less_severity_def severity_rank_inject)

end

section \<open>The handler\<close>

record 'v klog_handler =
  h_attrs :: "(string \<times> 'v) list"
  h_groups :: "string list"

record 'v slog_record =
  r_Message :: string
  r_Level :: int
  r_Attrs :: "(string \<times> 'v) list"

definition LevelInfo :: int where
  "LevelInfo = 0"

definition LevelWarn :: int where
  "LevelWarn = 4"

definition LevelError :: int where
  "LevelError = 8"

definition Enabled :: "'v klog_handler \<Rightarrow> int \<Rightarrow> bool" where
  "Enabled h level = True"

text \<open>The loop over the attributes of the handler, with its index.\<close>

fun write_handler_attrs :: "('v \<Rightarrow> string) \<Rightarrow> nat \<Rightarrow> (string \<times> 'v) list \<Rightarrow> string" where
  "write_handler_attrs fprint i [] = ''''"
| "write_handler_attrs fprint i ((k, v) # attrs) =
     (if 0 < i then '', '' else '''') @ k @ ''='' @ fprint v @ write_handler_attrs fprint (i + 1) attrs"

text \<open>The loop over the attributes of the record, with its flag \<open>first\<close>.\<close>

fun write_record_attrs :: "('v \<Rightarrow> string) \<Rightarrow> bool \<Rightarrow> (string \<times> 'v) list \<Rightarrow> string" where
  "write_record_attrs fprint first [] = ''''"
| "write_record_attrs fprint first ((k, v) # attrs) =
     (if first then '''' else '', '') @ k @ ''='' @ fprint v @ write_record_attrs fprint False attrs"

definition message_of :: "('v \<Rightarrow> string) \<Rightarrow> 'v klog_handler \<Rightarrow> 'v slog_record \<Rightarrow> string" where
  "message_of fprint h r =
     r_Message r @
     (if 0 < length (h_attrs h) \<or> 0 < length (r_Attrs r)
      then '' {'' @ write_handler_attrs fprint 0 (h_attrs h)
             @ write_record_attrs fprint (length (h_attrs h) = 0) (r_Attrs r) @ ''}''
      else '''')"

definition klog_severity :: "int \<Rightarrow> severity" where
  "klog_severity level =
     (if LevelError \<le> level then Error
      else if LevelWarn \<le> level then Warning
      else if LevelInfo \<le> level then InfoV2
      else InfoV4)"

definition Handle :: "('v \<Rightarrow> string) \<Rightarrow> 'v klog_handler \<Rightarrow> 'v slog_record \<Rightarrow> severity \<times> string" where
  "Handle fprint h r = (klog_severity (r_Level r), message_of fprint h r)"

definition WithAttrs :: "'v klog_handler \<Rightarrow> (string \<times> 'v) list \<Rightarrow> 'v klog_handler" where
  "WithAttrs h attrs = \<lparr>h_attrs = h_attrs h @ attrs, h_groups = h_groups h\<rparr>"

definition WithGroup :: "'v klog_handler \<Rightarrow> string \<Rightarrow> 'v klog_handler" where
  "WithGroup h name = \<lparr>h_attrs = h_attrs h, h_groups = h_groups h @ [name]\<rparr>"

text \<open>The process-wide logger and rclone's own log level.\<close>

datatype rclone_level = LogLevelInfo | LogLevelOther string

record 'v log_globals =
  g_default :: "'v klog_handler option"
  g_LogLevel :: rclone_level

definition InitRcloneLogging :: "'v log_globals \<Rightarrow> 'v log_globals" where
  "InitRcloneLogging g = g\<lparr>g_default := Some \<lparr>h_attrs = [], h_groups = []\<rparr>, g_LogLevel := LogLevelInfo\<rparr>"

section \<open>Properties\<close>

definition attr_text :: "('v \<Rightarrow> string) \<Rightarrow> string \<times> 'v \<Rightarrow> string" where
  "attr_text fprint a = fst a @ ''='' @ fprint (snd a)"

text \<open>The reference: all attributes, those of the handler first, joined by commas.\<close>

definition rendered :: "('v \<Rightarrow> string) \<Rightarrow> string \<Rightarrow> (string \<times> 'v) list \<Rightarrow> string" where
  "rendered fprint msg attrs =
     (if attrs = [] then msg else msg @ '' {'' @ Join (map (attr_text fprint) attrs) '', '' @ ''}'')"

lemma Join_Cons: "Join (x # xs) sep = x @ concat (map ((@) sep) xs)"
  by (induction xs arbitrary: x) simp_all

lemma write_record_attrs_False:
  "write_record_attrs fprint False attrs = concat (map ((@) '', '') (map (attr_text fprint) attrs))"
  by (induction attrs) (auto simp: attr_text_def)

lemma write_record_attrs_True: "write_record_attrs fprint True attrs = Join (map (attr_text fprint) attrs) '', ''"
  by (cases attrs) (auto simp: attr_text_def Join_Cons write_record_attrs_False simp del: Join.simps(3))

lemma write_handler_attrs_Suc:
  "write_handler_attrs fprint (Suc i) attrs = concat (map ((@) '', '') (map (attr_text fprint) attrs))"
  by (induction attrs arbitrary: i) (auto simp: attr_text_def)

lemma write_attrs:
  "write_handler_attrs fprint 0 as @ write_record_attrs fprint (length as = 0) bs
     = Join (map (attr_text fprint) (as @ bs)) '', ''"
proof (cases as)
  case (Cons a as')
  then show ?thesis
    by (cases a) (simp add: write_handler_attrs_Suc write_record_attrs_False Join_Cons attr_text_def
        del: Join.simps(3))
qed (simp add: write_record_attrs_True)

lemma message_rendered: "message_of fprint h r = rendered fprint (r_Message r) (h_attrs h @ r_Attrs r)"
proof (cases "h_attrs h @ r_Attrs r = []")
  case False
  then have "0 < length (h_attrs h) \<or> 0 < length (r_Attrs r)" by simp
  then have "message_of fprint h r = r_Message r @ '' {'' @ (write_handler_attrs fprint 0 (h_attrs h)
      @ write_record_attrs fprint (length (h_attrs h) = 0) (r_Attrs r)) @ ''}''"
    by (simp only: message_of_def if_P append_assoc)
  then show ?thesis unfolding write_attrs rendered_def if_not_P [OF False] .
qed (simp add: message_of_def rendered_def)

text \<open>
  C35: The two loops write what a single join over all attributes writes: the message, then, if
  there are any, the attributes of the handler and of the record in braces, separated by commas.
  So attributes bound with \<open>WithAttrs\<close>, in any number of calls, print exactly like attributes
  given with the record, and groups leave no trace.
\<close>

theorem handler_renders_attributes:
  "Handle fprint h r = (klog_severity (r_Level r), rendered fprint (r_Message r) (h_attrs h @ r_Attrs r))
   \<and> Handle fprint (WithAttrs (WithAttrs h as) bs) r = Handle fprint h (r\<lparr>r_Attrs := as @ bs @ r_Attrs r\<rparr>)
   \<and> Handle fprint (WithGroup h g) r = Handle fprint h r"
  by (simp add: Handle_def message_rendered WithAttrs_def WithGroup_def)

text \<open>
  A graver record is never logged more verbosely: the severity is monotone in the level of
  \<open>slog\<close>, and it is an error, a warning or normal information from the levels of that name on.
\<close>

theorem severity_monotone:
  "(l \<le> m \<longrightarrow> klog_severity l \<le> klog_severity m)
   \<and> (klog_severity l = Error \<longleftrightarrow> LevelError \<le> l)
   \<and> (Warning \<le> klog_severity l \<longleftrightarrow> LevelWarn \<le> l)
   \<and> (InfoV2 \<le> klog_severity l \<longleftrightarrow> LevelInfo \<le> l)"
  by (auto simp: klog_severity_def less_eq_severity_def LevelInfo_def LevelWarn_def LevelError_def)

theorem severity_monotone_witness: "klog_severity 2 \<le> klog_severity 6"
  using severity_monotone [of 2 6] by simp

end
