(* ===== verification/Spec2Isabelle.thy ===== *)
theory Spec2Isabelle
  imports End_To_End Interleaving_Contexts Metrics_Totals Metrics_Mounts Context_Mutex
    Config_Mutex Volume_Locks_Mutex Published_Backend Controller_Log Command_Line Logging
begin

text \<open>
  A verification library for the CSI driver that mounts rclone remotes as Kubernetes volumes.

  \<^bold>\<open>The program.\<close>  The driver is one process per node (\<open>cmd/rcloneplugin/main.go\<close>).  It serves three gRPC
  services on a socket (\<open>pkg/rclone/server.go\<close>): identity, controller and node.  The controller turns a
  storage class into a volume, which is an ID and a map of parameters; it keeps no state.  The
  node service mounts such a volume: it merges the parameters with the secrets of the call, loads a
  configuration of rclone into the memory of the process, creates a file system and a mount point with the
  library rclone, and stores a mount context under the target path; unpublishing undoes this.
  Beside the services run a Prometheus collector over the stored contexts and two optional
  HTTP servers.

  \<^bold>\<open>Theories and sources.\<close>  File names without a directory are in \<open>pkg/rclone\<close>.

  \<^item> \<open>Go_Prelude\<close>: errors, outcomes, package \<open>strings\<close>, Go maps as association lists, visiting orders of
    \<open>range\<close> statements, and the interface \<open>key_table\<close> of a table of keys.
  \<^item> \<open>Volume_Locks\<close>: \<open>VolumeLocks\<close> of \<open>utils.go\<close>, the interface \<open>lock_table\<close>, and the interleaving of requests.
  \<^item> \<open>Flags\<close>: names of flags, parameters of a backend, merging maps, generated configuration (\<open>utils.go\<close>).
  \<^item> \<open>Goconfig\<close>, \<open>Config_Data\<close>: the INI parser \<open>vendor/github.com/unknwon/goconfig\<close> and \<open>parseAllConfigRemotes\<close>.
  \<^item> \<open>Driver\<close>: the driver object of \<open>rclone.go\<close>, template variables, \<open>identityserver.go\<close>, \<open>version.go\<close>.
  \<^item> \<open>Controller\<close>: \<open>controllerserver.go\<close>, every method; \<open>Controller_Log\<close>: the lines that \<open>CreateVolume\<close> logs, and whose values are masked.
  \<^item> \<open>Publish_Params\<close>: the pure part of \<open>NodePublishVolume\<close> in \<open>nodeserver.go\<close>.
  \<^item> \<open>Config_Store\<close>: rclone's in-memory configuration, with the interface \<open>section_store\<close>.
  \<^item> \<open>Node_State\<close>: the state of the node service, the host as a record of parameters, the state
    monad of the handlers with its two program logics (\<open>keeps\<close> and \<open>wp\<close>); \<open>Sample_Host\<close>: a host that computes.
  \<^item> \<open>Config_Load\<close>, \<open>Mount_Options\<close>, \<open>Vfs_Sync\<close>, \<open>Mount_Cleanup\<close>: the steps of the handlers: loading and cleaning
    up remotes, options of mount and VFS, the wait for uploads, and the clean-up of
    \<open>vendor/k8s.io/mount-utils\<close>.
  \<^item> \<open>Node_Server\<close>: mount contexts, target directory, mounting, unmounting, and the two handlers;
    \<open>Node_Stats\<close>: statistics, health and the small methods.
  \<^item> \<open>Node_Properties\<close>, \<open>Node_Hazards\<close>, \<open>Node_Refinement\<close>: what sequences of calls keep, what goes wrong,
    and the handlers as an implementation of an abstract mount table.
  \<^item> \<open>Node_Interleaving\<close>: requests in flight together, as phases of the handlers under any schedule; the
    phases alone are the handlers, and together they refine \<open>Volume_Locks\<close>; \<open>Interleaving_Contexts\<close>: the contexts that
    requests in flight create, cancel and store.
  \<^item> \<open>Context_Mutex\<close>: the read-write mutex of the stored contexts and the calls that take it.
  \<^item> \<open>Monitor\<close>, \<open>Volume_Locks_Mutex\<close>, \<open>Config_Mutex\<close>: methods under a mutex in single steps, the interface \<open>monitor\<close>, and
    its instances for \<open>mux\<close> of the lock table and \<open>configMu\<close> of the node server, with what a reader that does not take
    the mutex sees in between.
  \<^item> \<open>Remote_Path\<close>, \<open>Backend_Config\<close>, \<open>Published_Backend\<close>: what rclone makes of a published path and a loaded
    configuration (\<open>vendor/github.com/rclone/rclone/fs\<close>): the parser of paths (\<open>fspath/path.go\<close>), the registry, the layers of
    options and the choice of a backend (\<open>registry.go\<close>, \<open>configmap.go\<close>, \<open>newfs.go\<close>), \<open>UpdateRemote\<close>
    (\<open>config/config.go\<close>), and the way of a volume's parameters to its backend.
  \<^item> \<open>Metrics\<close>, \<open>Metrics_Totals\<close>, \<open>Metrics_Mounts\<close>: \<open>metrics_collector.go\<close>, the totals that its aggregation
    computes, and what a scrape says of the mounts of the node service.
  \<^item> \<open>Logging\<close>: \<open>logging.go\<close>, from \<open>slog\<close> to \<open>klog\<close>.
  \<^item> \<open>Server\<close>: endpoints, the logging interceptor and the life of the gRPC server (\<open>server.go\<close>, \<open>utils.go\<close>).
  \<^item> \<open>Server_Options\<close>: \<open>internal/rc/server.go\<close> and \<open>internal/metrics/server.go\<close>; \<open>Startup\<close>: \<open>Driver.Run\<close>, \<open>main.go\<close> and
    \<open>fake_mounter.go\<close>.
  \<^item> \<open>Go_Duration\<close>, \<open>Command_Line\<close>: the flags of \<open>main.go\<close>, package \<open>flag\<close> and \<open>time.ParseDuration\<close> as far as they are
    used, and the arguments that \<open>charts/templates/csi-rclone-node.yaml\<close> gives the node plugin.
  \<^item> \<open>End_To_End\<close>: properties across controller and node.

  \<^bold>\<open>How code corresponds to definitions.\<close>  A function of the source is a function of the same name.  Strings are
  ASCII byte strings, integers of the source words of their width where they can overflow.  A
  loop over a map takes its visiting order as an argument, and the theorems hold for every order
  (\<open>range_order\<close>).  Errors are values; a run-time panic is the outcome \<open>Panicked\<close>.  A stateful function is a
  program of the state monad over \<open>node_state\<close>.  Whatever the driver calls outside its sources is a
  field of the record \<open>host\<close> (system calls, clock, option tables of rclone, file systems, mounts) or an
  argument; what a theorem relies on is a named predicate over it (\<open>updates_own_section\<close>, \<open>mounter_laws\<close>,
  \<open>honours_read_only\<close>, \<open>vfs_stats_keys\<close>, \<open>stats_only_read\<close>, \<open>known_networks\<close>, \<open>setup_own_section\<close>, \<open>setup_keeps\<close>), and \<open>sample_host\<close> or a variant of it satisfies each.
  \<open>updates_own_section\<close> is proved for the code of \<open>UpdateRemote\<close> (\<open>update_stays_in_section\<close>).

  \<^bold>\<open>What is shown.\<close>  Locks exclude and are released; the handlers implement a mount table, leak no context, undo
  what they do, and touch no other section of the configuration; requests in flight together are all
  answered, and disturb each other only through a common remote; methods
  under a mutex act as one step; a read-only request mounts read-only; the
  created volume is the mounted one; generated configurations parse back, and the options that a volume gives are those that its backend
  finds, under the flags and the environment; a published path names the loaded remote exactly if the remote has a legal
  name; the log of \<open>CreateVolume\<close> keeps the values of secrets to itself; parameters have their documented
  precedence; volume statistics are exact below 63 bits; a metrics collection is
  well formed, sums correctly and lists every mount once; arguments
  set the options they name, timeouts that overflow are refused, and a driver that the chart deploys opens no
  unauthenticated server unless the chart says so; log lines, endpoints and servers behave as specified.  The theorems about
  defects (\<open>Node_Hazards\<close>, \<open>scrape_deadlocks_driver\<close>, \<open>mixed_case_volume_unmountable\<close> and others) are runs of the same
  definitions.

  \<^bold>\<open>Bounds.\<close>  The substitution of \<open>%(key)s\<close> in configuration values recurses in the source; the model has the field
  \<open>h_fuel\<close>, and running out of it stands for the exhausted stack, an outcome of its own.  All other loops
  are total functions: over lists, over the retry counter of at most five (\<open>sync_loop\<close>), or over the
  length of a string (\<open>ReplaceAll\<close>).

  \<^bold>\<open>Not modelled.\<close>  Log lines other than those named above; contents of help texts; what the flags of klog
  do with their values; the conversion of numbers to \<open>float64\<close>, also in a fraction of a duration; non-ASCII
  case mapping; the bodies of the libraries rclone, gRPC and Kubernetes beyond the files named above; backend
  registration, which is a list of imports; manifests other than the arguments of the node plugin.  In
  \<open>Node_State\<close> and the theories above it a request runs alone; their interleaving is modelled phase by phase
  (\<open>Node_Interleaving\<close>), for the lock table (\<open>Volume_Locks\<close>) and for the mutex (\<open>Context_Mutex\<close>).  Within a
  phase no other request is interleaved; for what a phase does under a mutex this is shown
  (\<open>Config_Mutex\<close>, \<open>Volume_Locks_Mutex\<close>), and a file system that is created in the middle of another request's load
  finds its section untouched unless that request loads a remote of the same name (\<open>readers_undisturbed\<close>).
  Of rclone below the driver, the registry of backends, the process environment, the obscuring of passwords and
  the set-up of backends are parameters (\<open>rclone_env\<close>), and a theorem about an option assumes that the set-up leaves that one
  alone (\<open>setup_keeps\<close>); what a backend does with its options, the
  cache of file systems, and paths on Windows are left out.  A backend also gets a setter for its own section
  (\<open>setConfigFile\<close>), with which it stores a refreshed token, say; the field \<open>h_NewFs\<close> only reads the configuration,
  so the theorems about the store do not speak of such writes.
\<close>

end
